(* ===== verification/Prelude.thy ===== *)
theory Prelude
  imports Main "HOL-Library.State_Monad" "HOL-Library.Monad_Syntax"
begin

text \<open>
  Shared ground of the development: the theorem collections, a small Hoare logic for the
  library's state monad (the handlers of the sidecar are state-monad programs), generic lemmas
  on lists, options and association lists, Go error values, and the interface of an
  encoder/decoder pair that the hex, base64 and ciphertext formats implement.
\<close>

named_theorems hoare_rules \<open>syntax-directed rules for the triple \<open>hoare\<close>\<close>
named_theorems go_defs \<open>definitions the component proofs unfold\<close>

section \<open>Go error values\<close>

text \<open>
  An \<open>error\<close> of the source is a message, possibly wrapping a cause
  (\<^verbatim>\<open>fmt.Errorf("InsertCode: %w", err)\<close>). The text of an error that the standard library or a
  driver creates is not modelled beyond a tag naming its origin.
\<close>

datatype goerr = GoErr string | GoWrap string goerr

fun err_text :: "goerr \<Rightarrow> string" where
  "err_text (GoErr m) = m"
| "err_text (GoWrap m e) = m @ '': '' @ err_text e"

type_synonym 'a result = "goerr + 'a"

abbreviation is_ok :: "'a result \<Rightarrow> bool" where
  "is_ok r \<equiv> (\<exists>v. r = Inr v)"

section \<open>A Hoare logic for state-monad programs\<close>

definition hoare :: "('s \<Rightarrow> bool) \<Rightarrow> ('s, 'a) state \<Rightarrow> ('a \<Rightarrow> 's \<Rightarrow> bool) \<Rightarrow> bool" where
  "hoare P m Q \<longleftrightarrow> (\<forall>s. P s \<longrightarrow> (case run_state m s of (a, s') \<Rightarrow> Q a s'))"

abbreviation keeps :: "('s \<Rightarrow> bool) \<Rightarrow> ('s, 'a) state \<Rightarrow> bool" where
  "keeps I m \<equiv> hoare I m (\<lambda>_. I)"

lemma hoareI: "(\<And>s a s'. P s \<Longrightarrow> run_state m s = (a, s') \<Longrightarrow> Q a s') \<Longrightarrow> hoare P m Q"
  by (auto simp: hoare_def split: prod.split)

lemma hoareD: "hoare P m Q \<Longrightarrow> P s \<Longrightarrow> run_state m s = (a, s') \<Longrightarrow> Q a s'"
  by (auto simp: hoare_def split: prod.splits)

lemma hoare_weaken: "hoare P m Q \<Longrightarrow> (\<And>s. P' s \<Longrightarrow> P s) \<Longrightarrow> (\<And>a s. Q a s \<Longrightarrow> Q' a s) \<Longrightarrow> hoare P' m Q'"
  by (fastforce simp: hoare_def split: prod.splits)

lemma hoare_conj: "hoare P m Q \<Longrightarrow> hoare P' m Q' \<Longrightarrow> hoare (\<lambda>s. P s \<and> P' s) m (\<lambda>a s. Q a s \<and> Q' a s)"
  by (fastforce simp: hoare_def split: prod.splits)

lemma hoare_return [hoare_rules]: "(\<And>s. P s \<Longrightarrow> Q a s) \<Longrightarrow> hoare P (State_Monad.return a) Q"
  by (simp add: hoare_def)

lemma hoare_bind: "hoare P m R \<Longrightarrow> (\<And>a. hoare (R a) (f a) Q) \<Longrightarrow> hoare P (State_Monad.bind m f) Q"
  by (fastforce simp: hoare_def split: prod.splits)

text \<open>Symbolic execution backwards: a run of a sequence is a run of its parts.\<close>

lemma run_bindE:
  assumes "run_state (State_Monad.bind m f) s = (b, s'')"
  obtains a s' where "run_state m s = (a, s')" "run_state (f a) s' = (b, s'')"
  using assms by (cases "run_state m s") auto

lemma run_returnE:
  assumes "run_state (State_Monad.return a) s = (b, s')"
  obtains "b = a" "s' = s"
  using assms by simp

text \<open>An invariant passes through a sequence, a conditional and a case distinction.\<close>

lemma keeps_bind [hoare_rules]: "keeps I m \<Longrightarrow> (\<And>a. keeps I (f a)) \<Longrightarrow> keeps I (State_Monad.bind m f)"
  by (rule hoare_bind)

lemma hoare_if [hoare_rules]: "(b \<Longrightarrow> hoare P m Q) \<Longrightarrow> (\<not> b \<Longrightarrow> hoare P n Q) \<Longrightarrow> hoare P (if b then m else n) Q"
  by simp

lemma hoare_case_option [hoare_rules]:
  "(x = None \<Longrightarrow> hoare P m Q) \<Longrightarrow> (\<And>y. x = Some y \<Longrightarrow> hoare P (f y) Q) \<Longrightarrow>
   hoare P (case x of None \<Rightarrow> m | Some y \<Rightarrow> f y) Q"
  by (cases x) auto

lemma hoare_case_sum [hoare_rules]:
  "(\<And>e. x = Inl e \<Longrightarrow> hoare P (g e) Q) \<Longrightarrow> (\<And>y. x = Inr y \<Longrightarrow> hoare P (f y) Q) \<Longrightarrow>
   hoare P (case x of Inl e \<Rightarrow> g e | Inr y \<Rightarrow> f y) Q"
  by (cases x) auto

lemma hoare_case_prod [hoare_rules]:
  "(\<And>a b. x = (a, b) \<Longrightarrow> hoare P (f a b) Q) \<Longrightarrow> hoare P (case x of (a, b) \<Rightarrow> f a b) Q"
  by (cases x) auto

lemma hoare_Let [hoare_rules]: "(\<And>x. x = t \<Longrightarrow> hoare P (f x) Q) \<Longrightarrow> hoare P (Let t f) Q"
  by simp

section \<open>Association lists as Go maps\<close>

text \<open>
  A Go map with string keys is an association list; a later binding for a key replaces the value
  in place, a new key goes to the end, and \<open>delete\<close> removes every binding of the key. Lookup is
  \<open>map_of\<close>.
\<close>

fun alist_set :: "'k \<Rightarrow> 'v \<Rightarrow> ('k \<times> 'v) list \<Rightarrow> ('k \<times> 'v) list" where
  "alist_set k v [] = [(k, v)]"
| "alist_set k v ((k', v') # m) = (if k' = k then (k, v) # m else (k', v') # alist_set k v m)"

definition alist_delete :: "'k \<Rightarrow> ('k \<times> 'v) list \<Rightarrow> ('k \<times> 'v) list" where
  "alist_delete k m = filter (\<lambda>(k', v). k' \<noteq> k) m"

lemma map_of_alist_set [simp]: "map_of (alist_set k v m) = (map_of m)(k \<mapsto> v)"
  by (induction k v m rule: alist_set.induct) auto

lemma map_of_alist_delete [simp]: "map_of (alist_delete k m) = (map_of m)(k := None)"
  by (induction m) (auto simp: alist_delete_def)

lemma map_of_filter_key: "map_of (filter (\<lambda>(k, v). P k) m) k = (if P k then map_of m k else None)"
  by (induction m) auto

lemma fst_set_alist_set: "fst ` set (alist_set k v m) = insert k (fst ` set m)"
  by (induction k v m rule: alist_set.induct) auto

lemma distinct_alist_set: "distinct (map fst m) \<Longrightarrow> distinct (map fst (alist_set k v m))"
proof (induction k v m rule: alist_set.induct)
  case (2 k v k' v' m)
  have "fst ` set (alist_set k v m) = insert k (fst ` set m)" by (rule fst_set_alist_set)
  with 2 show ?case by auto
qed simp

section \<open>Encoder and decoder pairs\<close>

text \<open>
  The contract of an encoding: every encoded value decodes to itself. Hex, the two base64
  alphabets and the versioned ciphertext format are its instances.
\<close>

locale codec =
  fixes enc :: "'a \<Rightarrow> 'b"
    and dec :: "'b \<Rightarrow> 'a option"
    and dom_ok :: "'a \<Rightarrow> bool"
  assumes dec_enc: "dom_ok x \<Longrightarrow> dec (enc x) = Some x"
begin

lemma enc_inj: "dom_ok x \<Longrightarrow> dom_ok y \<Longrightarrow> enc x = enc y \<longleftrightarrow> x = y"
  by (metis dec_enc option.inject)

lemma dec_enc_the: "dom_ok x \<Longrightarrow> the (dec (enc x)) = x"
  by (simp add: dec_enc)

end

end
