(* ===== verification/Go_Strings.thy ===== *)
theory Go_Strings
  imports Prelude
begin

text \<open>
  What the source uses of Go's packages \<^verbatim>\<open>strings\<close> and \<^verbatim>\<open>net/http\<close> header maps. A Go string and a
  \<^verbatim>\<open>[]byte\<close> are both a sequence of bytes and are both \<open>string\<close> here (a \<open>char\<close> is a byte), so the
  conversions \<^verbatim>\<open>[]byte(s)\<close> and \<^verbatim>\<open>string(b)\<close> are identities. Letter case and white space are the
  ASCII ones.
\<close>

type_synonym bytes = string

section \<open>Bytes and characters\<close>

abbreviation byte_val :: "char \<Rightarrow> nat" where
  "byte_val c \<equiv> of_char c"

abbreviation byte_of :: "nat \<Rightarrow> char" where
  "byte_of n \<equiv> char_of n"

definition is_upper :: "char \<Rightarrow> bool" where
  "is_upper c \<longleftrightarrow> 65 \<le> byte_val c \<and> byte_val c \<le> 90"

definition is_lower :: "char \<Rightarrow> bool" where
  "is_lower c \<longleftrightarrow> 97 \<le> byte_val c \<and> byte_val c \<le> 122"

definition is_digit :: "char \<Rightarrow> bool" where
  "is_digit c \<longleftrightarrow> 48 \<le> byte_val c \<and> byte_val c \<le> 57"

definition is_space :: "char \<Rightarrow> bool" where
  "is_space c \<longleftrightarrow> byte_val c \<in> {9, 10, 11, 12, 13, 32}"

definition to_upper :: "char \<Rightarrow> char" where
  "to_upper c = (if is_lower c then byte_of (byte_val c - 32) else c)"

definition to_lower :: "char \<Rightarrow> char" where
  "to_lower c = (if is_upper c then byte_of (byte_val c + 32) else c)"

definition ToUpper :: "string \<Rightarrow> string" where
  "ToUpper s = map to_upper s"

definition ToLower :: "string \<Rightarrow> string" where
  "ToLower s = map to_lower s"

section \<open>Prefixes, suffixes, trimming and splitting\<close>

definition HasPrefix :: "string \<Rightarrow> string \<Rightarrow> bool" where
  "HasPrefix s p \<longleftrightarrow> take (length p) s = p"

definition HasSuffix :: "string \<Rightarrow> string \<Rightarrow> bool" where
  "HasSuffix s p \<longleftrightarrow> length p \<le> length s \<and> drop (length s - length p) s = p"

definition TrimPrefix :: "string \<Rightarrow> string \<Rightarrow> string" where
  "TrimPrefix s p = (if HasPrefix s p then drop (length p) s else s)"

definition TrimRight :: "string \<Rightarrow> string \<Rightarrow> string" where
  "TrimRight s cs = rev (dropWhile (\<lambda>c. c \<in> set cs) (rev s))"

definition TrimSpace :: "string \<Rightarrow> string" where
  "TrimSpace s = rev (dropWhile is_space (rev (dropWhile is_space s)))"

fun split_by :: "(char \<Rightarrow> bool) \<Rightarrow> string \<Rightarrow> string list" where
  "split_by P [] = [[]]"
| "split_by P (c # s) =
     (if P c then [] # split_by P s
      else (case split_by P s of [] \<Rightarrow> [[c]] | w # ws \<Rightarrow> (c # w) # ws))"

definition Split :: "string \<Rightarrow> char \<Rightarrow> string list" where
  "Split s d = split_by (\<lambda>c. c = d) s"

definition Fields :: "string \<Rightarrow> string list" where
  "Fields s = filter (\<lambda>w. w \<noteq> []) (split_by is_space s)"

text \<open>The text before the first occurrence of a byte, as \<^verbatim>\<open>xff[:strings.IndexByte(xff, ',')]\<close>; all of
  it when the byte does not occur.\<close>

definition before_byte :: "char \<Rightarrow> string \<Rightarrow> string" where
  "before_byte d s = takeWhile (\<lambda>c. c \<noteq> d) s"

lemma HasPrefix_append [simp]: "HasPrefix (p @ s) p"
  by (simp add: HasPrefix_def)

lemma HasPrefix_iff: "HasPrefix s p \<longleftrightarrow> (\<exists>t. s = p @ t)"
  by (metis HasPrefix_append HasPrefix_def append_take_drop_id)

lemma TrimPrefix_append [simp]: "TrimPrefix (p @ s) p = s"
  by (simp add: TrimPrefix_def)

lemma HasSuffix_append [simp]: "HasSuffix (s @ p) p"
  by (simp add: HasSuffix_def)

lemma HasSuffix_iff: "HasSuffix s p \<longleftrightarrow> (\<exists>t. s = t @ p)"
  by (metis HasSuffix_append HasSuffix_def append_take_drop_id)

lemma TrimRight_idem [simp]: "TrimRight (TrimRight s cs) cs = TrimRight s cs"
  by (simp add: TrimRight_def dropWhile_idem)

lemma TrimRight_last: "TrimRight s cs \<noteq> [] \<Longrightarrow> last (TrimRight s cs) \<notin> set cs"
  by (metis TrimRight_def hd_dropWhile last_rev rev_is_Nil_conv)

lemma split_by_not_Nil [simp]: "split_by P s \<noteq> []"
  by (cases s) (auto split: list.splits)

lemma split_by_none: "\<forall>c \<in> set s. \<not> P c \<Longrightarrow> split_by P s = [s]"
  by (induction s) auto

lemma split_by_append:
  "\<forall>c \<in> set s. \<not> P c \<Longrightarrow> P d \<Longrightarrow> split_by P (s @ d # t) = s # split_by P t"
  by (induction s) auto

lemma split_by_pieces: "w \<in> set (split_by P s) \<Longrightarrow> c \<in> set w \<Longrightarrow> \<not> P c"
  by (induction P s arbitrary: w rule: split_by.induct) (fastforce split: if_splits list.splits)+

text \<open>Splitting at dots is the inverse of joining three dot-free parts, as a compact JWT does.\<close>

lemma Split_three:
  assumes "d \<notin> set a" "d \<notin> set b" "d \<notin> set c"
  shows "Split (a @ d # b @ d # c) d = [a, b, c]"
proof -
  from assms have "\<forall>x \<in> set a. x \<noteq> d" "\<forall>x \<in> set b. x \<noteq> d" "\<forall>x \<in> set c. x \<noteq> d" by auto
  then show ?thesis
    by (simp add: Split_def split_by_append split_by_none)
qed

lemma Fields_nonempty: "w \<in> set (Fields s) \<Longrightarrow> w \<noteq> []"
  by (simp add: Fields_def)

lemma Fields_no_space: "w \<in> set (Fields s) \<Longrightarrow> c \<in> set w \<Longrightarrow> \<not> is_space c"
  by (auto simp: Fields_def dest: split_by_pieces)

section \<open>Header maps\<close>

text \<open>
  \<^verbatim>\<open>http.Header\<close> maps canonical field names to value lists; \<^verbatim>\<open>Get\<close>, \<^verbatim>\<open>Set\<close>, \<^verbatim>\<open>Add\<close> and \<^verbatim>\<open>Del\<close> put their
  key argument into canonical form first (first letter and every letter after a hyphen in upper
  case, the rest in lower case; a name with a byte that is not a token byte is left as it is).
\<close>

type_synonym header = "(string \<times> string list) list"

definition is_token_byte :: "char \<Rightarrow> bool" where
  "is_token_byte c \<longleftrightarrow> is_upper c \<or> is_lower c \<or> is_digit c \<or> c \<in> set ''!#$%&*+-.^_|~'' \<or> byte_val c = 39 \<or> byte_val c = 96"

fun canon_from :: "bool \<Rightarrow> string \<Rightarrow> string" where
  "canon_from up [] = []"
| "canon_from up (c # s) = (if up then to_upper c else to_lower c) # canon_from (c = CHR ''-'') s"

definition CanonicalHeaderKey :: "string \<Rightarrow> string" where
  "CanonicalHeaderKey k = (if k \<noteq> [] \<and> list_all is_token_byte k then canon_from True k else k)"

definition hdr_values :: "header \<Rightarrow> string \<Rightarrow> string list" where
  "hdr_values h k = (case map_of h (CanonicalHeaderKey k) of None \<Rightarrow> [] | Some vs \<Rightarrow> vs)"

definition hdr_Get :: "header \<Rightarrow> string \<Rightarrow> string" where
  "hdr_Get h k = (case hdr_values h k of [] \<Rightarrow> [] | v # _ \<Rightarrow> v)"

definition hdr_Set :: "header \<Rightarrow> string \<Rightarrow> string \<Rightarrow> header" where
  "hdr_Set h k v = alist_set (CanonicalHeaderKey k) [v] h"

definition hdr_Add :: "header \<Rightarrow> string \<Rightarrow> string \<Rightarrow> header" where
  "hdr_Add h k v = alist_set (CanonicalHeaderKey k) (hdr_values h k @ [v]) h"

definition hdr_Del :: "header \<Rightarrow> string \<Rightarrow> header" where
  "hdr_Del h k = alist_delete (CanonicalHeaderKey k) h"

lemma hdr_Get_Set [simp]:
  "hdr_Get (hdr_Set h k v) k' = (if CanonicalHeaderKey k' = CanonicalHeaderKey k then v else hdr_Get h k')"
  by (simp add: hdr_Get_def hdr_Set_def hdr_values_def)

lemma hdr_Get_Del [simp]:
  "hdr_Get (hdr_Del h k) k' = (if CanonicalHeaderKey k' = CanonicalHeaderKey k then [] else hdr_Get h k')"
  by (simp add: hdr_Get_def hdr_Del_def hdr_values_def)

lemma of_char_eq_nat: "(of_char c :: nat) = of_char d \<longleftrightarrow> c = d"
  by simp

lemma char_of_byte: "n < 256 \<Longrightarrow> (of_char (char_of n :: char) :: nat) = n"
  by simp

lemma to_upper_idem [simp]: "to_upper (to_upper c) = to_upper c"
  by (auto simp: to_upper_def is_lower_def)

lemma to_upper_to_lower [simp]: "to_upper (to_lower c) = to_upper c"
  by (auto simp: to_upper_def to_lower_def is_lower_def is_upper_def)

lemma to_lower_to_upper [simp]: "to_lower (to_upper c) = to_lower c"
  by (auto simp: to_upper_def to_lower_def is_lower_def is_upper_def)

lemma to_lower_idem [simp]: "to_lower (to_lower c) = to_lower c"
  by (auto simp: to_lower_def is_upper_def)

lemma hyphen_case [simp]: "to_upper c = CHR ''-'' \<longleftrightarrow> c = CHR ''-''" "to_lower c = CHR ''-'' \<longleftrightarrow> c = CHR ''-''"
  by (auto simp: to_upper_def to_lower_def is_lower_def is_upper_def of_char_eq_nat [symmetric])

lemma is_token_byte_case [simp]: "is_token_byte (to_upper c) = is_token_byte c"
  "is_token_byte (to_lower c) = is_token_byte c"
  by (auto simp: is_token_byte_def to_upper_def to_lower_def is_lower_def is_upper_def)

lemma canon_from_idem [simp]: "canon_from up (canon_from up s) = canon_from up s"
  by (induction up s rule: canon_from.induct) auto

lemma canon_from_tokens [simp]: "list_all is_token_byte (canon_from up s) = list_all is_token_byte s"
  by (induction up s rule: canon_from.induct) auto

lemma canon_from_Nil [simp]: "canon_from up s = [] \<longleftrightarrow> s = []"
  by (cases s) auto

lemma ToUpper_canon_from: "ToUpper (canon_from up s) = ToUpper s"
  by (induction up s rule: canon_from.induct) (auto simp: ToUpper_def)

lemma CanonicalHeaderKey_idem [simp]: "CanonicalHeaderKey (CanonicalHeaderKey k) = CanonicalHeaderKey k"
  by (simp add: CanonicalHeaderKey_def)

lemma ToUpper_CanonicalHeaderKey [simp]: "ToUpper (CanonicalHeaderKey k) = ToUpper k"
  by (simp add: CanonicalHeaderKey_def ToUpper_canon_from)

end
