(* ===== verification/Go_Encoding.thy ===== *)
theory Go_Encoding
  imports Go_Strings
begin

text \<open>
  Go's \<^verbatim>\<open>encoding/hex\<close> and \<^verbatim>\<open>encoding/base64\<close>, with the four base64 variants the source names
  (standard and URL alphabets, padded and raw). The decoder skips carriage returns and line feeds
  and does not look at the unused bits of the last character, as the library's non-strict decoder
  does. Each encoding is an instance of the \<open>codec\<close> contract.
\<close>

section \<open>Hexadecimal\<close>

definition hex_alphabet :: string where
  "hex_alphabet = ''0123456789abcdef''"

definition hex_byte :: "char \<Rightarrow> string" where
  "hex_byte c = [hex_alphabet ! (byte_val c div 16), hex_alphabet ! (byte_val c mod 16)]"

definition hex_EncodeToString :: "bytes \<Rightarrow> string" where
  "hex_EncodeToString b = concat (map hex_byte b)"

fun index_of :: "'a \<Rightarrow> 'a list \<Rightarrow> nat option" where
  "index_of x [] = None"
| "index_of x (y # ys) = (if x = y then Some 0 else map_option Suc (index_of x ys))"

fun hex_decode :: "string \<Rightarrow> bytes option" where
  "hex_decode [] = Some []"
| "hex_decode [a] = None"
| "hex_decode (a # b # s) =
     (case (index_of a hex_alphabet, index_of b hex_alphabet, hex_decode s) of
        (Some x, Some y, Some r) \<Rightarrow> Some (byte_of (16 * x + y) # r) | _ \<Rightarrow> None)"

lemma index_of_nth: "distinct ys \<Longrightarrow> i < length ys \<Longrightarrow> index_of (ys ! i) ys = Some i"
proof (induction ys arbitrary: i)
  case (Cons y ys)
  then show ?case by (cases i) auto
qed simp

lemma length_hex_alphabet [simp]: "length hex_alphabet = 16"
  by (simp add: hex_alphabet_def)

lemma distinct_hex_alphabet: "distinct hex_alphabet"
  by (simp add: hex_alphabet_def)

lemma length_hex [simp]: "length (hex_EncodeToString b) = 2 * length b"
  by (induction b) (auto simp: hex_EncodeToString_def hex_byte_def)

lemma set_hex: "set (hex_EncodeToString b) \<subseteq> set hex_alphabet"
proof (induction b)
  case (Cons c b)
  have "byte_val c div 16 < 16" by (intro less_mult_imp_div_less) simp
  then have "set (hex_byte c) \<subseteq> set hex_alphabet" by (simp add: hex_byte_def)
  with Cons show ?case by (simp add: hex_EncodeToString_def)
qed (simp add: hex_EncodeToString_def)

lemma hex_roundtrip: "hex_decode (hex_EncodeToString b) = Some b"
proof (induction b)
  case (Cons c b)
  have "byte_val c div 16 < 16" by (intro less_mult_imp_div_less) simp
  then have "index_of (hex_alphabet ! (byte_val c div 16)) hex_alphabet = Some (byte_val c div 16)"
    "index_of (hex_alphabet ! (byte_val c mod 16)) hex_alphabet = Some (byte_val c mod 16)"
    by (simp_all add: index_of_nth distinct_hex_alphabet)
  moreover have "16 * (byte_val c div 16) + byte_val c mod 16 = byte_val c" by simp
  ultimately show ?case using Cons by (simp add: hex_EncodeToString_def hex_byte_def)
qed (simp add: hex_EncodeToString_def)

interpretation hex: codec hex_EncodeToString hex_decode "\<lambda>_. True"
  by unfold_locales (simp add: hex_roundtrip)

section \<open>Base64\<close>

datatype b64 = StdEncoding | RawStdEncoding | URLEncoding | RawURLEncoding

fun b64_padded :: "b64 \<Rightarrow> bool" where
  "b64_padded StdEncoding = True"
| "b64_padded RawStdEncoding = False"
| "b64_padded URLEncoding = True"
| "b64_padded RawURLEncoding = False"

definition b64_common :: string where
  "b64_common = ''ABCDEFGHIJKLMNOPQRSTUVWXYZabcdefghijklmnopqrstuvwxyz0123456789''"

fun b64_alphabet :: "b64 \<Rightarrow> string" where
  "b64_alphabet StdEncoding = b64_common @ ''+/''"
| "b64_alphabet RawStdEncoding = b64_common @ ''+/''"
| "b64_alphabet URLEncoding = b64_common @ ''-_''"
| "b64_alphabet RawURLEncoding = b64_common @ ''-_''"

definition b64_pad :: "b64 \<Rightarrow> nat \<Rightarrow> string" where
  "b64_pad e n = (if b64_padded e then replicate n (CHR ''='') else [])"

definition b64_char :: "b64 \<Rightarrow> nat \<Rightarrow> char" where
  "b64_char e i = b64_alphabet e ! i"

fun b64_EncodeToString :: "b64 \<Rightarrow> bytes \<Rightarrow> string" where
  "b64_EncodeToString e [] = []"
| "b64_EncodeToString e [a] =
     (let x = byte_val a in [b64_char e (x div 4), b64_char e ((x mod 4) * 16)] @ b64_pad e 2)"
| "b64_EncodeToString e [a, b] =
     (let x = byte_val a; y = byte_val b in
      [b64_char e (x div 4), b64_char e ((x mod 4) * 16 + y div 16), b64_char e ((y mod 16) * 4)] @ b64_pad e 1)"
| "b64_EncodeToString e (a # b # c # s) =
     (let x = byte_val a; y = byte_val b; z = byte_val c in
      [b64_char e (x div 4), b64_char e ((x mod 4) * 16 + y div 16),
       b64_char e ((y mod 16) * 4 + z div 64), b64_char e (z mod 64)] @ b64_EncodeToString e s)"

definition b64_val :: "b64 \<Rightarrow> char \<Rightarrow> nat option" where
  "b64_val e c = index_of c (b64_alphabet e)"

text \<open>One, two or three bytes from two, three or four sextets.\<close>

definition b64_bytes1 :: "nat \<Rightarrow> nat \<Rightarrow> bytes" where
  "b64_bytes1 p q = [byte_of (p * 4 + q div 16)]"

definition b64_bytes2 :: "nat \<Rightarrow> nat \<Rightarrow> nat \<Rightarrow> bytes" where
  "b64_bytes2 p q r = b64_bytes1 p q @ [byte_of ((q mod 16) * 16 + r div 4)]"

definition b64_bytes3 :: "nat \<Rightarrow> nat \<Rightarrow> nat \<Rightarrow> nat \<Rightarrow> bytes" where
  "b64_bytes3 p q r t = b64_bytes2 p q r @ [byte_of ((r mod 4) * 64 + t)]"

fun b64_decode :: "b64 \<Rightarrow> string \<Rightarrow> bytes option" where
  "b64_decode e [] = Some []"
| "b64_decode e [a] = None"
| "b64_decode e [a, b] =
     (if b64_padded e then None
      else do { p \<leftarrow> b64_val e a; q \<leftarrow> b64_val e b; Some (b64_bytes1 p q) })"
| "b64_decode e [a, b, c] =
     (if b64_padded e then None
      else do { p \<leftarrow> b64_val e a; q \<leftarrow> b64_val e b; r \<leftarrow> b64_val e c; Some (b64_bytes2 p q r) })"
| "b64_decode e (a # b # c # d # s) =
     (if b64_padded e \<and> c = CHR ''='' then
        (if d = CHR ''='' \<and> s = [] then do { p \<leftarrow> b64_val e a; q \<leftarrow> b64_val e b; Some (b64_bytes1 p q) } else None)
      else if b64_padded e \<and> d = CHR ''='' then
        (if s = [] then do { p \<leftarrow> b64_val e a; q \<leftarrow> b64_val e b; r \<leftarrow> b64_val e c; Some (b64_bytes2 p q r) } else None)
      else do { p \<leftarrow> b64_val e a; q \<leftarrow> b64_val e b; r \<leftarrow> b64_val e c; t \<leftarrow> b64_val e d;
                rest \<leftarrow> b64_decode e s; Some (b64_bytes3 p q r t @ rest) })"

definition b64_DecodeString :: "b64 \<Rightarrow> string \<Rightarrow> bytes result" where
  "b64_DecodeString e s =
     (case b64_decode e (filter (\<lambda>c. byte_val c \<noteq> 10 \<and> byte_val c \<noteq> 13) s) of
        None \<Rightarrow> Inl (GoErr ''illegal base64 data'') | Some b \<Rightarrow> Inr b)"

lemma length_b64_alphabet [simp]: "length (b64_alphabet e) = 64"
  by (cases e) (simp_all add: b64_common_def)

lemma distinct_b64_alphabet: "distinct (b64_alphabet e)"
  by (cases e) (simp_all add: b64_common_def)

lemma b64_val_char [simp]: "i < 64 \<Longrightarrow> b64_val e (b64_char e i) = Some i"
  by (simp add: b64_val_def b64_char_def index_of_nth distinct_b64_alphabet)

lemma b64_alphabet_plain:
  "c \<in> set (b64_alphabet e) \<Longrightarrow> c \<noteq> CHR ''='' \<and> c \<noteq> CHR ''.'' \<and> byte_val c \<noteq> 10 \<and> byte_val c \<noteq> 13"
proof -
  have "list_all (\<lambda>c. c \<noteq> CHR ''='' \<and> c \<noteq> CHR ''.'' \<and> byte_val c \<noteq> 10 \<and> byte_val c \<noteq> 13) (b64_alphabet e)"
    by (cases e) (simp_all add: b64_common_def)
  then show "c \<in> set (b64_alphabet e) \<Longrightarrow> ?thesis" by (auto simp: list_all_iff)
qed

lemma b64_char_in: "i < 64 \<Longrightarrow> b64_char e i \<in> set (b64_alphabet e)"
  by (simp add: b64_char_def)

lemma b64_char_not_pad [simp]: "i < 64 \<Longrightarrow> b64_char e i \<noteq> CHR ''=''"
  using b64_alphabet_plain [OF b64_char_in] by blast

lemma sextet_bounds [simp]:
  fixes x y :: nat
  shows "x < 256 \<Longrightarrow> x div 4 < 64" "x mod 4 * 16 < 64" "y < 256 \<Longrightarrow> x mod 4 * 16 + y div 16 < 64"
    "y mod 16 * 4 < 64" "x < 256 \<Longrightarrow> y mod 16 * 4 + x div 64 < 64"
proof -
  have a: "x mod 4 < 4" "y mod 16 < 16" by simp_all
  from a show "x mod 4 * 16 < 64" "y mod 16 * 4 < 64" by linarith+
  show "x div 4 < 64" if "x < 256" using that by (intro less_mult_imp_div_less) simp
  show "x mod 4 * 16 + y div 16 < 64" if "y < 256"
    using a that less_mult_imp_div_less [of y 16 16] by linarith
  show "y mod 16 * 4 + x div 64 < 64" if "x < 256"
    using a that less_mult_imp_div_less [of x 4 64] by linarith
qed

lemma div_mod_join:
  fixes a b k :: nat
  assumes "b < k"
  shows "(a * k + b) div k = a" "(a * k + b) mod k = b"
  using assms by simp_all

lemma sextet_join:
  fixes x y z :: nat
  shows "x div 4 * 4 + (x mod 4 * 16) div 16 = x"
    "y < 256 \<Longrightarrow> x div 4 * 4 + (x mod 4 * 16 + y div 16) div 16 = x"
    "y < 256 \<Longrightarrow> (x mod 4 * 16 + y div 16) mod 16 * 16 + (y mod 16 * 4) div 4 = y"
    "y < 256 \<Longrightarrow> z < 256 \<Longrightarrow> (x mod 4 * 16 + y div 16) mod 16 * 16 + (y mod 16 * 4 + z div 64) div 4 = y"
    "z < 256 \<Longrightarrow> (y mod 16 * 4 + z div 64) mod 4 * 64 + z mod 64 = z"
proof -
  show "x div 4 * 4 + (x mod 4 * 16) div 16 = x" by simp
  { assume "y < 256"
    then have "y div 16 < 16" by (intro less_mult_imp_div_less) simp
    note d = div_mod_join [OF this, of "x mod 4"]
    show "x div 4 * 4 + (x mod 4 * 16 + y div 16) div 16 = x" using d by simp
    show "(x mod 4 * 16 + y div 16) mod 16 * 16 + (y mod 16 * 4) div 4 = y" using d by simp }
  { assume "z < 256"
    then have "z div 64 < 4" by (intro less_mult_imp_div_less) simp
    note d = div_mod_join [OF this, of "y mod 16"]
    show "(y mod 16 * 4 + z div 64) mod 4 * 64 + z mod 64 = z" using d by simp
    assume "y < 256"
    then have "y div 16 < 16" by (intro less_mult_imp_div_less) simp
    note d' = div_mod_join [OF this, of "x mod 4"]
    show "(x mod 4 * 16 + y div 16) mod 16 * 16 + (y mod 16 * 4 + z div 64) div 4 = y"
      using d d' by simp }
qed

lemma b64_bytes_enc [simp]:
  "b64_bytes1 (byte_val a div 4) (byte_val a mod 4 * 16) = [a]"
  "b64_bytes2 (byte_val a div 4) (byte_val a mod 4 * 16 + byte_val b div 16) (byte_val b mod 16 * 4) = [a, b]"
  "b64_bytes3 (byte_val a div 4) (byte_val a mod 4 * 16 + byte_val b div 16)
     (byte_val b mod 16 * 4 + byte_val c div 64) (byte_val c mod 64) = [a, b, c]"
  unfolding b64_bytes1_def b64_bytes2_def b64_bytes3_def
    sextet_join(1) sextet_join(2-5) [OF nat_of_char_less_256]
    sextet_join(4) [OF nat_of_char_less_256 nat_of_char_less_256] by simp_all

lemma b64_decode_encode: "b64_decode e (b64_EncodeToString e b) = Some b"
proof (induction e b rule: b64_EncodeToString.induct)
  case (2 e a)
  then show ?case
    by (cases "b64_padded e") (simp_all add: Let_def b64_pad_def numeral_2_eq_2)
next
  case (3 e a b)
  then show ?case
    by (cases "b64_padded e") (simp_all add: Let_def b64_pad_def)
next
  case (4 e a b c s)
  then show ?case
    by (simp add: Let_def)
qed simp

lemma set_b64: "set (b64_EncodeToString e b) \<subseteq> set (b64_alphabet e) \<union> {CHR ''=''}"
  by (induction e b rule: b64_EncodeToString.induct)
    (auto simp: Let_def b64_pad_def b64_char_in)

lemma set_b64_raw: "\<not> b64_padded e \<Longrightarrow> set (b64_EncodeToString e b) \<subseteq> set (b64_alphabet e)"
  by (induction e b rule: b64_EncodeToString.induct)
    (simp_all add: Let_def b64_pad_def b64_char_in)

lemma b64_roundtrip: "b64_DecodeString e (b64_EncodeToString e b) = Inr b"
proof -
  have "filter (\<lambda>c. byte_val c \<noteq> 10 \<and> byte_val c \<noteq> 13) (b64_EncodeToString e b) = b64_EncodeToString e b"
    using set_b64 [of e b] b64_alphabet_plain by (intro filter_True) force
  then show ?thesis by (simp add: b64_DecodeString_def b64_decode_encode)
qed

lemma dot_notin_b64_raw: "\<not> b64_padded e \<Longrightarrow> CHR ''.'' \<notin> set (b64_EncodeToString e b)"
  using set_b64_raw b64_alphabet_plain by blast

interpretation b64: codec "b64_EncodeToString e" "b64_decode e" "\<lambda>_. True" for e
  by unfold_locales (simp add: b64_decode_encode)

lemma b64_nonempty: "b \<noteq> [] \<Longrightarrow> b64_EncodeToString e b \<noteq> []"
  by (metis b64_decode_encode b64_EncodeToString.simps(1) option.inject)

end
