(* ===== verification/Go_Sha256.thy ===== *)
theory Go_Sha256
  imports Go_Encoding "HOL-Library.Word"
begin

text \<open>
  \<^verbatim>\<open>crypto/sha256\<close>: the compression function over 32-bit words (addition wraps), so that PKCE
  challenges, token hashes and key identifiers are computed, not assumed. Message lengths are
  taken modulo \<open>2 ^ 64\<close> bits, as the algorithm specifies.
\<close>

unbundle bit_operations_syntax

type_synonym w32 = "32 word"

text \<open>
  The constants are the first 32 bits of the fractional parts of the cube roots of the first 64
  primes (round constants) and of the square roots of the first eight (initial state). They are
  computed as integer roots, bit by bit from the top; 36 bits hold every root scaled by \<open>2 ^ 32\<close>.
\<close>

fun int_root :: "nat \<Rightarrow> nat \<Rightarrow> int \<Rightarrow> int \<Rightarrow> int" where
  "int_root k 0 n r = r"
| "int_root k (Suc b) n r = int_root k b n (if (r + 2 ^ b) ^ k \<le> n then r + 2 ^ b else r)"

definition root_fraction :: "nat \<Rightarrow> int \<Rightarrow> w32" where
  "root_fraction k p = of_int (int_root k 36 (p * 2 ^ (32 * k)) 0)"

definition sha_primes :: "int list" where
  "sha_primes = [2, 3, 5, 7, 11, 13, 17, 19, 23, 29, 31, 37, 41, 43, 47, 53,
    59, 61, 67, 71, 73, 79, 83, 89, 97, 101, 103, 107, 109, 113, 127, 131,
    137, 139, 149, 151, 157, 163, 167, 173, 179, 181, 191, 193, 197, 199, 211, 223,
    227, 229, 233, 239, 241, 251, 257, 263, 269, 271, 277, 281, 283, 293, 307, 311]"

definition sha_K :: "w32 list" where
  "sha_K = map (root_fraction 3) sha_primes"

datatype sha_state = Sha w32 w32 w32 w32 w32 w32 w32 w32

definition sha_H0 :: sha_state where
  "sha_H0 = (let h = root_fraction 2 in Sha (h 2) (h 3) (h 5) (h 7) (h 11) (h 13) (h 17) (h 19))"

definition rotr :: "nat \<Rightarrow> w32 \<Rightarrow> w32" where
  "rotr n x = drop_bit n x OR push_bit (32 - n) x"

definition small_sigma0 :: "w32 \<Rightarrow> w32" where
  "small_sigma0 x = rotr 7 x XOR rotr 18 x XOR drop_bit 3 x"

definition small_sigma1 :: "w32 \<Rightarrow> w32" where
  "small_sigma1 x = rotr 17 x XOR rotr 19 x XOR drop_bit 10 x"

text \<open>The message schedule, latest word first: sixteen words of the block, then forty-eight more.\<close>

fun sha_expand :: "nat \<Rightarrow> w32 list \<Rightarrow> w32 list" where
  "sha_expand 0 ws = ws"
| "sha_expand (Suc n) ws =
     sha_expand n ((small_sigma1 (ws ! 1) + ws ! 6 + small_sigma0 (ws ! 14) + ws ! 15) # ws)"

fun sha_round :: "w32 \<times> w32 \<Rightarrow> sha_state \<Rightarrow> sha_state" where
  "sha_round (k, w) (Sha a b c d e f g h) =
     (let s1 = rotr 6 e XOR rotr 11 e XOR rotr 25 e;
          ch = (e AND f) XOR (NOT e AND g);
          t1 = h + s1 + ch + k + w;
          s0 = rotr 2 a XOR rotr 13 a XOR rotr 22 a;
          maj = (a AND b) XOR (a AND c) XOR (b AND c);
          t2 = s0 + maj
      in Sha (t1 + t2) a b c (d + t1) e f g)"

fun sha_add :: "sha_state \<Rightarrow> sha_state \<Rightarrow> sha_state" where
  "sha_add (Sha a b c d e f g h) (Sha a' b' c' d' e' f' g' h') =
     Sha (a + a') (b + b') (c + c') (d + d') (e + e') (f + f') (g + g') (h + h')"

definition sha_block :: "sha_state \<Rightarrow> w32 list \<Rightarrow> sha_state" where
  "sha_block st ws = sha_add st (fold sha_round (zip sha_K (rev (sha_expand 48 (rev ws)))) st)"

fun be_words :: "bytes \<Rightarrow> w32 list" where
  "be_words (a # b # c # d # s) =
     (push_bit 24 (of_char a) OR push_bit 16 (of_char b) OR push_bit 8 (of_char c) OR of_char d) # be_words s"
| "be_words _ = []"

definition be_bytes64 :: "nat \<Rightarrow> bytes" where
  "be_bytes64 n = map (\<lambda>i. char_of (int n div 256 ^ i)) [7, 6, 5, 4, 3, 2, 1, 0]"

definition sha_pad :: "bytes \<Rightarrow> bytes" where
  "sha_pad m = m @ [byte_of 128] @ replicate ((119 - length m mod 64) mod 64) (byte_of 0) @ be_bytes64 (8 * length m)"

fun sha_blocks :: "sha_state \<Rightarrow> bytes \<Rightarrow> sha_state" where
  "sha_blocks st m = (if length m < 64 then st else sha_blocks (sha_block st (be_words (take 64 m))) (drop 64 m))"

declare sha_blocks.simps [simp del]

definition word_bytes :: "w32 \<Rightarrow> bytes" where
  "word_bytes w = (let n = uint w in [char_of (n div 16777216), char_of (n div 65536), char_of (n div 256), char_of n])"

fun sha_digest :: "sha_state \<Rightarrow> bytes" where
  "sha_digest (Sha a b c d e f g h) =
     word_bytes a @ word_bytes b @ word_bytes c @ word_bytes d @
     word_bytes e @ word_bytes f @ word_bytes g @ word_bytes h"

definition sha256_Sum256 :: "bytes \<Rightarrow> bytes" where
  "sha256_Sum256 m = sha_digest (sha_blocks sha_H0 (sha_pad m))"

lemma length_word_bytes [simp]: "length (word_bytes w) = 4"
  by (simp add: word_bytes_def Let_def)

lemma length_sha256 [simp]: "length (sha256_Sum256 m) = 32"
  by (cases "sha_blocks sha_H0 (sha_pad m)") (simp add: sha256_Sum256_def)

lemma length_sha_pad: "length (sha_pad m) mod 64 = 0"
proof -
  define q r where "q = length m div 64" and "r = length m mod 64"
  have m: "length m = 64 * q + r" by (simp add: q_def r_def)
  have r: "r < 64" by (simp add: r_def)
  show ?thesis
  proof (cases "r \<le> 55")
    case True
    then have "119 - r = 64 + (55 - r)" by arith
    then have "(119 - r) mod 64 = (55 - r) mod 64" by (metis mod_add_self1)
    also have "\<dots> = 55 - r" by (rule mod_less) arith
    finally have "(119 - r) mod 64 = 55 - r" .
    with True have "length (sha_pad m) = 64 * (q + 1)"
      by (simp add: sha_pad_def be_bytes64_def m mod_add_eq)
    then show ?thesis by simp
  next
    case False
    with r have "length (sha_pad m) = 64 * (q + 2)"
      by (simp add: sha_pad_def be_bytes64_def m)
    then show ?thesis by simp
  qed
qed

end
