(* ===== verification/Go_Json.thy ===== *)
theory Go_Json
  imports Go_Strings "HOL-Library.List_Lexorder" "HOL-Library.Char_ord"
begin

text \<open>
  What the source uses of \<^verbatim>\<open>encoding/json\<close>: \<open>json_marshal\<close> for values of type \<^verbatim>\<open>any\<close> (map keys sorted,
  HTML-escaped strings) and \<open>json_unmarshal\<close> with its target conversions. A Go value is a \<open>json\<close>:
  \<open>JInt\<close> is an integer type (only ever marshalled), \<open>JFloat m e\<close> the \<^verbatim>\<open>float64\<close> with value
  \<open>m * 2 ^ e\<close> in lowest terms, which is what a number decodes to. Negative zero is zero, and the
  library's limit of 10000 nesting levels is left out.
\<close>

datatype json =
    JNull
  | JBool bool
  | JInt int
  | JFloat int int
  | JStr string
  | JArr "json list"
  | JObj "(string \<times> json) list"

type_synonym jmap = "(string \<times> json) list"

section \<open>Numbers\<close>

definition digit_char :: "int \<Rightarrow> char" where
  "digit_char d = char_of (48 + d)"

definition digit_val :: "char \<Rightarrow> int" where
  "digit_val c = of_char c - 48"

text \<open>Decimal digits of a non-negative integer.\<close>

function show_digits :: "int \<Rightarrow> string" where
  "show_digits n = (if n < 10 then [digit_char n] else show_digits (n div 10) @ [digit_char (n mod 10)])"
  by pat_completeness auto
termination
  by (relation "measure nat") auto

declare show_digits.simps [simp del]

definition show_int :: "int \<Rightarrow> string" where
  "show_int n = (if n < 0 then CHR ''-'' # show_digits (- n) else show_digits n)"

definition read_digits :: "string \<Rightarrow> int" where
  "read_digits s = foldl (\<lambda>a c. a * 10 + digit_val c) 0 s"

text \<open>A float in lowest terms: the mantissa is odd, or the number is zero.\<close>

function f64_norm :: "int \<Rightarrow> int \<Rightarrow> json" where
  "f64_norm m e = (if m = 0 then JFloat 0 0 else if even m then f64_norm (m div 2) (e + 1) else JFloat m e)"
  by pat_completeness auto
termination
  by (relation "measure (\<lambda>(m, e). nat \<bar>m\<bar>)") (auto elim!: evenE)

declare f64_norm.simps [simp del]

function bit_len :: "int \<Rightarrow> int" where
  "bit_len n = (if n \<le> 0 then 0 else 1 + bit_len (n div 2))"
  by pat_completeness auto
termination
  by (relation "measure nat") auto

declare bit_len.simps [simp del]

text \<open>The float nearest to \<open>n / d\<close> (ties to even), \<open>None\<close> when it is out of range. The scale \<open>s\<close> leaves
  53 significant bits, fewer for subnormal numbers.\<close>

definition f64_scale :: "int \<Rightarrow> int \<Rightarrow> int" where
  "f64_scale n d =
     (let s = bit_len n - bit_len d - 53;
          q = (if s \<ge> 0 then n div (d * 2 ^ nat s) else (n * 2 ^ nat (- s)) div d)
      in max (- 1074) (if q \<ge> 2 ^ 53 then s + 1 else s))"

definition round_half_even :: "int \<Rightarrow> int \<Rightarrow> int" where
  "round_half_even num den =
     (let q = num div den; r = num mod den in if 2 * r > den \<or> (2 * r = den \<and> odd q) then q + 1 else q)"

definition f64_of_ratio :: "bool \<Rightarrow> int \<Rightarrow> int \<Rightarrow> json option" where
  "f64_of_ratio neg n d =
     (let s = f64_scale n d;
          q = (if s \<ge> 0 then round_half_even n (d * 2 ^ nat s) else round_half_even (n * 2 ^ nat (- s)) d)
      in if s + bit_len q > 1024 then None else Some (f64_norm (if neg then - q else q) s))"

definition f64_of_dec :: "bool \<Rightarrow> int \<Rightarrow> int \<Rightarrow> json option" where
  "f64_of_dec neg n k =
     (if k = 0 \<and> n \<le> 2 ^ 53 then Some (f64_norm (if neg then - n else n) 0)
      else if k \<ge> 0 then f64_of_ratio neg (n * 10 ^ nat k) 1
      else f64_of_ratio neg n (10 ^ nat (- k)))"

text \<open>\<^verbatim>\<open>strconv.FormatFloat\<close> with the shortest digits that read back as the same float, in the layout
  \<^verbatim>\<open>encoding/json\<close> chooses.\<close>

definition f64_ratio :: "int \<Rightarrow> int \<Rightarrow> int \<times> int" where
  "f64_ratio m e = (if e \<ge> 0 then (\<bar>m\<bar> * 2 ^ nat e, 1) else (\<bar>m\<bar>, 2 ^ nat (- e)))"

definition dec_exponent :: "int \<Rightarrow> int \<Rightarrow> int" where
  "dec_exponent n d =
     (case List.find (\<lambda>k. if k \<ge> 0 then n < 10 ^ nat k * d else n * 10 ^ nat (- k) < d) [-330..310] of
        None \<Rightarrow> 310 | Some k \<Rightarrow> k)"

definition round_dec :: "int \<Rightarrow> int \<Rightarrow> int \<Rightarrow> int" where
  "round_dec n d k = (if k \<ge> 0 then round_half_even n (d * 10 ^ nat k) else round_half_even (n * 10 ^ nat (- k)) d)"

definition shortest_dec :: "int \<Rightarrow> int \<Rightarrow> int \<times> int" where
  "shortest_dec m e =
     (let (n, d) = f64_ratio m e; k = dec_exponent n d in
      case List.find (\<lambda>nd. f64_of_dec (m < 0) (round_dec n d (k - nd)) (k - nd) = Some (JFloat m e)) [1..17] of
        None \<Rightarrow> (round_dec n d (k - 17), k) | Some nd \<Rightarrow> (round_dec n d (k - nd), k))"

definition show_f64 :: "int \<Rightarrow> int \<Rightarrow> string" where
  "show_f64 m e =
     (if m = 0 then ''0''
      else if e \<ge> 0 \<and> \<bar>m\<bar> * 2 ^ nat e \<le> 2 ^ 53 then show_int (m * 2 ^ nat e)
      else let (n, k) = shortest_dec m e; ds = show_digits n; sign = (if m < 0 then ''-'' else []); x = k - 1 in
        sign @
        (if x < - 6 \<or> x \<ge> 21 then
           [hd ds] @ (if tl ds = [] then [] else ''.'' @ tl ds) @ ''e'' @
           (if x < 0 then ''-'' else ''+'') @ show_int \<bar>x\<bar>
         else if k \<le> 0 then ''0.'' @ replicate (nat (- k)) (CHR ''0'') @ ds
         else if int (length ds) \<le> k then ds @ replicate (nat k - length ds) (CHR ''0'')
         else take (nat k) ds @ ''.'' @ drop (nat k) ds))"

text \<open>\<^verbatim>\<open>int64(f)\<close> truncates towards zero. A float outside the range of int64 converts to an
  implementation-defined value; \<open>f64_int\<close> gives the exact integer and \<open>in_int64\<close> the range.\<close>

definition f64_int :: "int \<Rightarrow> int \<Rightarrow> int" where
  "f64_int m e = (if e \<ge> 0 then m * 2 ^ nat e else sgn m * (\<bar>m\<bar> div 2 ^ nat (- e)))"

definition in_int64 :: "int \<Rightarrow> bool" where
  "in_int64 n \<longleftrightarrow> - (2 ^ 63) \<le> n \<and> n < 2 ^ 63"

section \<open>Strings\<close>

definition cont_byte :: "char \<Rightarrow> bool" where
  "cont_byte c \<longleftrightarrow> 128 \<le> byte_val c \<and> byte_val c < 192"

definition in_range :: "nat \<Rightarrow> char \<Rightarrow> nat \<Rightarrow> bool" where
  "in_range lo c hi \<longleftrightarrow> lo \<le> byte_val c \<and> byte_val c \<le> hi"

text \<open>The length of the UTF-8 sequence a string starts with, 0 when it is not a valid one.\<close>

fun utf8_size :: "string \<Rightarrow> nat" where
  "utf8_size [] = 0"
| "utf8_size (a # s) =
     (if byte_val a < 128 then 1
      else if in_range 194 a 223 \<and> s \<noteq> [] \<and> cont_byte (s ! 0) then 2
      else if 2 \<le> length s \<and> cont_byte (s ! 1) \<and>
        (byte_val a = 224 \<and> in_range 160 (s ! 0) 191 \<or> byte_val a = 237 \<and> in_range 128 (s ! 0) 159 \<or>
         in_range 225 a 239 \<and> byte_val a \<noteq> 237 \<and> cont_byte (s ! 0)) then 3
      else if 3 \<le> length s \<and> cont_byte (s ! 1) \<and> cont_byte (s ! 2) \<and>
        (byte_val a = 240 \<and> in_range 144 (s ! 0) 191 \<or> byte_val a = 244 \<and> in_range 128 (s ! 0) 143 \<or>
         in_range 241 a 243 \<and> cont_byte (s ! 0)) then 4
      else 0)"

definition hex_digits4 :: "nat \<Rightarrow> string" where
  "hex_digits4 n = map (\<lambda>i. ''0123456789abcdef'' ! (n div 16 ^ i mod 16)) [3, 2, 1, 0]"

definition esc_u :: "nat \<Rightarrow> string" where
  "esc_u n = CHR 0x5C # CHR ''u'' # hex_digits4 n"

definition esc_ascii :: "char \<Rightarrow> string" where
  "esc_ascii c =
     (let b = byte_val c in
      if b = 34 then [CHR 0x5C, c] else if b = 92 then [CHR 0x5C, c]
      else if b = 8 then [CHR 0x5C, CHR ''b''] else if b = 12 then [CHR 0x5C, CHR ''f'']
      else if b = 10 then [CHR 0x5C, CHR ''n''] else if b = 13 then [CHR 0x5C, CHR ''r'']
      else if b = 9 then [CHR 0x5C, CHR ''t'']
      else if b < 32 \<or> b = 60 \<or> b = 62 \<or> b = 38 then esc_u b
      else [c])"

function json_esc :: "string \<Rightarrow> string" where
  "json_esc s =
     (case s of
        [] \<Rightarrow> []
      | c # t \<Rightarrow>
          if byte_val c < 128 then esc_ascii c @ json_esc t
          else if utf8_size s = 0 then esc_u 65533 @ json_esc t
          else if map byte_val (take 3 s) = [226, 128, 168] then esc_u 8232 @ json_esc (drop 3 s)
          else if map byte_val (take 3 s) = [226, 128, 169] then esc_u 8233 @ json_esc (drop 3 s)
          else take (utf8_size s) s @ json_esc (drop (utf8_size s) s))"
  by pat_completeness auto
termination
  by (relation "measure length") auto

declare json_esc.simps [simp del]

fun hex_val :: "char \<Rightarrow> nat option" where
  "hex_val c =
     (if is_digit c then Some (byte_val c - 48)
      else if in_range 97 c 102 then Some (byte_val c - 87)
      else if in_range 65 c 70 then Some (byte_val c - 55) else None)"

fun hex4 :: "string \<Rightarrow> (nat \<times> string) option" where
  "hex4 (a # b # c # d # s) =
     (case (hex_val a, hex_val b, hex_val c, hex_val d) of
        (Some x, Some y, Some z, Some w) \<Rightarrow> Some (((x * 16 + y) * 16 + z) * 16 + w, s) | _ \<Rightarrow> None)"
| "hex4 _ = None"

definition utf8_encode :: "nat \<Rightarrow> string" where
  "utf8_encode r =
     (if r < 128 then [byte_of r]
      else if r < 2048 then [byte_of (192 + r div 64), byte_of (128 + r mod 64)]
      else if 55296 \<le> r \<and> r < 57344 \<or> 1114111 < r then map byte_of [239, 191, 189]
      else if r < 65536 then
        [byte_of (224 + r div 4096), byte_of (128 + r div 64 mod 64), byte_of (128 + r mod 64)]
      else [byte_of (240 + r div 262144), byte_of (128 + r div 4096 mod 64), byte_of (128 + r div 64 mod 64),
        byte_of (128 + r mod 64)])"

text \<open>A \<^verbatim>\<open>\uXXXX\<close> escape after its \<^verbatim>\<open>\u\<close>: a high surrogate joins with the low surrogate escape that
  follows it, a lone surrogate becomes the replacement character.\<close>

definition unesc_u :: "string \<Rightarrow> (string \<times> string) option" where
  "unesc_u s =
     (case hex4 s of
        None \<Rightarrow> None
      | Some (r, t) \<Rightarrow>
          (case t of
             bs # u # t' \<Rightarrow>
               (case (55296 \<le> r \<and> r < 56320 \<and> byte_val bs = 92 \<and> u = CHR ''u'', hex4 t') of
                  (True, Some (r2, t'')) \<Rightarrow>
                    if 56320 \<le> r2 \<and> r2 < 57344
                    then Some (utf8_encode ((r - 55296) * 1024 + (r2 - 56320) + 65536), t'')
                    else Some (utf8_encode r, t)
                | _ \<Rightarrow> Some (utf8_encode r, t))
           | _ \<Rightarrow> Some (utf8_encode r, t)))"

definition unesc_char :: "char \<Rightarrow> char option" where
  "unesc_char c =
     (if byte_val c = 34 \<or> byte_val c = 92 \<or> c = CHR ''/'' then Some c
      else if c = CHR ''b'' then Some (byte_of 8) else if c = CHR ''f'' then Some (byte_of 12)
      else if c = CHR ''n'' then Some (byte_of 10) else if c = CHR ''r'' then Some (byte_of 13)
      else if c = CHR ''t'' then Some (byte_of 9) else None)"

text \<open>The rest of a string literal after its opening quote, one unit of fuel per step.\<close>

fun json_str :: "nat \<Rightarrow> string \<Rightarrow> (string \<times> string) option" where
  "json_str 0 s = None"
| "json_str (Suc n) [] = None"
| "json_str (Suc n) (c # s) =
     (if byte_val c = 34 then Some ([], s)
      else if byte_val c = 92 then
        (case s of
           [] \<Rightarrow> None
         | u # t \<Rightarrow>
             if u = CHR ''u'' then
               (case unesc_u t of None \<Rightarrow> None
                | Some (x, t') \<Rightarrow> map_option (apfst ((@) x)) (json_str n t'))
             else
               (case unesc_char u of None \<Rightarrow> None
                | Some x \<Rightarrow> map_option (apfst ((#) x)) (json_str n t)))
      else if byte_val c < 32 then None
      else if byte_val c < 128 then map_option (apfst ((#) c)) (json_str n s)
      else if utf8_size (c # s) = 0 then map_option (apfst ((@) (utf8_encode 65533))) (json_str n s)
      else map_option (apfst ((@) (take (utf8_size (c # s)) (c # s)))) (json_str n (drop (utf8_size (c # s)) (c # s))))"

section \<open>Marshal\<close>

definition quote :: "string \<Rightarrow> string" where
  "quote s = [CHR 0x22] @ json_esc s @ [CHR 0x22]"

fun comma_sep :: "string list \<Rightarrow> string" where
  "comma_sep [] = []"
| "comma_sep [x] = x"
| "comma_sep (x # xs) = x @ '','' @ comma_sep xs"

fun json_marshal :: "json \<Rightarrow> string" where
  "json_marshal JNull = ''null''"
| "json_marshal (JBool b) = (if b then ''true'' else ''false'')"
| "json_marshal (JInt n) = show_int n"
| "json_marshal (JFloat m e) = show_f64 m e"
| "json_marshal (JStr s) = quote s"
| "json_marshal (JArr xs) = ''['' @ comma_sep (map json_marshal xs) @ '']''"
| "json_marshal (JObj m) =
     ''{'' @ comma_sep (map (\<lambda>(k, t). quote k @ '':'' @ t) (sort_key fst (map (\<lambda>(k, v). (k, json_marshal v)) m))) @ ''}''"

section \<open>Unmarshal\<close>

definition json_ws :: "char \<Rightarrow> bool" where
  "json_ws c \<longleftrightarrow> byte_val c \<in> {9, 10, 13, 32}"

abbreviation skip_ws :: "string \<Rightarrow> string" where
  "skip_ws s \<equiv> dropWhile json_ws s"

definition take_sign :: "string \<Rightarrow> bool \<times> string" where
  "take_sign s = (case s of c # t \<Rightarrow> if c = CHR ''-'' then (True, t) else (False, s) | [] \<Rightarrow> (False, s))"

definition take_frac :: "string \<Rightarrow> string option \<times> string" where
  "take_frac s =
     (case s of
        c # t \<Rightarrow> if c = CHR ''.'' then (Some (takeWhile is_digit t), dropWhile is_digit t) else (None, s)
      | [] \<Rightarrow> (None, s))"

definition take_exp_sign :: "string \<Rightarrow> bool \<times> string" where
  "take_exp_sign s =
     (case s of c # t \<Rightarrow> if c = CHR ''-'' then (True, t) else if c = CHR ''+'' then (False, t) else (False, s)
      | [] \<Rightarrow> (False, s))"

definition take_exp :: "string \<Rightarrow> (bool \<times> string) option \<times> string" where
  "take_exp s =
     (case s of
        c # t \<Rightarrow>
          if c = CHR ''e'' \<or> c = CHR ''E'' then
            (case take_exp_sign t of (neg, t1) \<Rightarrow> (Some (neg, takeWhile is_digit t1), dropWhile is_digit t1))
          else (None, s)
      | [] \<Rightarrow> (None, s))"

definition dec_value :: "bool \<Rightarrow> string \<Rightarrow> string option \<Rightarrow> (bool \<times> string) option \<Rightarrow> json option" where
  "dec_value neg ip fp ex =
     (let frac = (case fp of None \<Rightarrow> [] | Some f \<Rightarrow> f);
          k = (case ex of None \<Rightarrow> 0 | Some (b, ds) \<Rightarrow> if b then - read_digits ds else read_digits ds)
      in f64_of_dec neg (read_digits (ip @ frac)) (k - int (length frac)))"

definition json_number :: "string \<Rightarrow> (json \<times> string) option" where
  "json_number s =
     (case take_sign s of (neg, s1) \<Rightarrow>
      case take_frac (dropWhile is_digit s1) of (fp, s2) \<Rightarrow>
      case take_exp s2 of (ex, s3) \<Rightarrow>
        let ip = takeWhile is_digit s1 in
        if ip = [] \<or> (length ip > 1 \<and> hd ip = CHR ''0'') \<or> fp = Some [] \<or> map_option snd ex = Some [] then None
        else map_option (\<lambda>v. (v, s3)) (dec_value neg ip fp ex))"

definition lit :: "string \<Rightarrow> json \<Rightarrow> string \<Rightarrow> (json \<times> string) option" where
  "lit w v s = (if HasPrefix s w then Some (v, drop (length w) s) else None)"

text \<open>
  The value parser. Every call spends one unit of fuel and at least one byte of input before it
  calls itself, so the length of the input is enough fuel.
\<close>

fun json_value :: "nat \<Rightarrow> string \<Rightarrow> (json \<times> string) option"
  and json_elems :: "nat \<Rightarrow> string \<Rightarrow> (json list \<times> string) option"
  and json_members :: "nat \<Rightarrow> jmap \<Rightarrow> string \<Rightarrow> (jmap \<times> string) option" where
  "json_value 0 s = None"
| "json_value (Suc n) s =
     (case s of
        [] \<Rightarrow> None
      | c # t \<Rightarrow>
          if byte_val c = 34 then map_option (apfst JStr) (json_str (Suc (length t)) t)
          else if c = CHR ''['' then
            (case skip_ws t of
               d # t' \<Rightarrow> if d = CHR '']'' then Some (JArr [], t')
                         else map_option (apfst JArr) (json_elems n (d # t'))
             | [] \<Rightarrow> None)
          else if c = CHR ''{'' then
            (case skip_ws t of
               d # t' \<Rightarrow> if d = CHR ''}'' then Some (JObj [], t')
                         else map_option (apfst JObj) (json_members n [] (d # t'))
             | [] \<Rightarrow> None)
          else if c = CHR ''t'' then lit ''true'' (JBool True) s
          else if c = CHR ''f'' then lit ''false'' (JBool False) s
          else if c = CHR ''n'' then lit ''null'' JNull s
          else json_number s)"
| "json_elems 0 s = None"
| "json_elems (Suc n) s =
     (case json_value n s of
        None \<Rightarrow> None
      | Some (v, t) \<Rightarrow>
          (case skip_ws t of
             c # t' \<Rightarrow> if c = CHR '','' then map_option (apfst ((#) v)) (json_elems n (skip_ws t'))
                       else if c = CHR '']'' then Some ([v], t') else None
           | [] \<Rightarrow> None))"
| "json_members 0 acc s = None"
| "json_members (Suc n) acc s =
     (case s of
        q # t \<Rightarrow>
          if byte_val q \<noteq> 34 then None
          else (case json_str (Suc (length t)) t of
             None \<Rightarrow> None
           | Some (k, t1) \<Rightarrow>
               (case skip_ws t1 of
                  c # t2 \<Rightarrow>
                    if c \<noteq> CHR '':'' then None
                    else (case json_value n (skip_ws t2) of
                       None \<Rightarrow> None
                     | Some (v, t3) \<Rightarrow>
                         (case skip_ws t3 of
                            d # t4 \<Rightarrow> if d = CHR '','' then json_members n (alist_set k v acc) (skip_ws t4)
                                      else if d = CHR ''}'' then Some (alist_set k v acc, t4) else None
                          | [] \<Rightarrow> None))
                | [] \<Rightarrow> None))
      | [] \<Rightarrow> None)"

definition json_unmarshal :: "string \<Rightarrow> json result" where
  "json_unmarshal s =
     (case json_value (2 * length s + 2) (skip_ws s) of
        Some (v, t) \<Rightarrow> if skip_ws t = [] then Inr v else Inl (GoErr ''json'')
      | None \<Rightarrow> Inl (GoErr ''json''))"

text \<open>The conversions to the Go types the source decodes into: a map (null gives a nil map), a slice
  of strings (a null element gives the empty string), and one string field of a struct. Field
  names match without regard to case, an exact match first.\<close>

fun as_map :: "json \<Rightarrow> jmap result" where
  "as_map (JObj m) = Inr m"
| "as_map JNull = Inr []"
| "as_map _ = Inl (GoErr ''json type'')"

fun as_strings :: "json list \<Rightarrow> string list result" where
  "as_strings [] = Inr []"
| "as_strings (JStr s # xs) = (case as_strings xs of Inl e \<Rightarrow> Inl e | Inr ss \<Rightarrow> Inr (s # ss))"
| "as_strings (JNull # xs) = (case as_strings xs of Inl e \<Rightarrow> Inl e | Inr ss \<Rightarrow> Inr ([] # ss))"
| "as_strings (_ # xs) = Inl (GoErr ''json type'')"

fun as_string_slice :: "json \<Rightarrow> string list result" where
  "as_string_slice (JArr xs) = as_strings xs"
| "as_string_slice JNull = Inr []"
| "as_string_slice _ = Inl (GoErr ''json type'')"

definition unmarshal_map :: "string \<Rightarrow> jmap result" where
  "unmarshal_map s = (case json_unmarshal s of Inl e \<Rightarrow> Inl e | Inr v \<Rightarrow> as_map v)"

definition unmarshal_strings :: "string \<Rightarrow> string list result" where
  "unmarshal_strings s = (case json_unmarshal s of Inl e \<Rightarrow> Inl e | Inr v \<Rightarrow> as_string_slice v)"

definition jget :: "jmap \<Rightarrow> string \<Rightarrow> json option" where
  "jget m k = map_of m k"

text \<open>\<^verbatim>\<open>s, _ := m[k].(string)\<close>\<close>

definition jget_str :: "jmap \<Rightarrow> string \<Rightarrow> string" where
  "jget_str m k = (case jget m k of Some (JStr s) \<Rightarrow> s | _ \<Rightarrow> [])"

section \<open>Round trip\<close>

text \<open>
  A value made of ASCII strings, integers of at most 53 bits, booleans, arrays and objects with
  distinct keys reads back as itself, with integers as floats and objects in key order.
\<close>

definition ascii :: "string \<Rightarrow> bool" where
  "ascii s \<longleftrightarrow> (\<forall>c \<in> set s. byte_val c < 128)"

fun jplain :: "json \<Rightarrow> bool" where
  "jplain JNull = True"
| "jplain (JBool b) = True"
| "jplain (JInt n) = (\<bar>n\<bar> \<le> 2 ^ 53)"
| "jplain (JFloat m e) = False"
| "jplain (JStr s) = ascii s"
| "jplain (JArr xs) = (\<forall>x \<in> set xs. jplain x)"
| "jplain (JObj m) = (distinct (map fst m) \<and> (\<forall>(k, v) \<in> set m. ascii k \<and> jplain v))"

fun jnorm :: "json \<Rightarrow> json" where
  "jnorm JNull = JNull"
| "jnorm (JBool b) = JBool b"
| "jnorm (JInt n) = f64_norm n 0"
| "jnorm (JFloat m e) = JFloat m e"
| "jnorm (JStr s) = JStr s"
| "jnorm (JArr xs) = JArr (map jnorm xs)"
| "jnorm (JObj m) = JObj (sort_key fst (map (\<lambda>(k, v). (k, jnorm v)) m))"

subsection \<open>Digits\<close>

lemma digit_char_props:
  assumes "0 \<le> d" "d < 10"
  shows "is_digit (digit_char d)" "digit_val (digit_char d) = d" "digit_char d = CHR ''0'' \<longleftrightarrow> d = 0"
proof -
  have v: "(of_char (digit_char d) :: int) = 48 + d" using assms by (simp add: digit_char_def)
  then have "int (byte_val (digit_char d)) = 48 + d" by (simp only: of_nat_of_char)
  then have b: "byte_val (digit_char d) = nat (48 + d)" by simp
  with assms show "is_digit (digit_char d)" by (simp add: is_digit_def nat_le_iff le_nat_iff)
  from v show "digit_val (digit_char d) = d" by (simp add: digit_val_def)
  have "digit_char d = CHR ''0'' \<longleftrightarrow> byte_val (digit_char d) = byte_val (CHR ''0'')" by (simp only: of_char_eq_iff)
  with b assms show "digit_char d = CHR ''0'' \<longleftrightarrow> d = 0" by auto
qed

lemma read_digits_snoc: "read_digits (s @ [c]) = read_digits s * 10 + digit_val c"
  by (simp add: read_digits_def)

lemma show_digits_props:
  "0 \<le> n \<Longrightarrow> show_digits n \<noteq> [] \<and> (\<forall>c \<in> set (show_digits n). is_digit c) \<and> read_digits (show_digits n) = n \<and>
    (hd (show_digits n) = CHR ''0'' \<longrightarrow> n = 0) \<and> (n < 10 \<longrightarrow> length (show_digits n) = 1)"
proof (induction n rule: show_digits.induct)
  case (1 n)
  show ?case
  proof (cases "n < 10")
    case True
    with 1 show ?thesis
      by (simp add: show_digits.simps [of n] digit_char_props read_digits_def)
  next
    case False
    with 1 have IH: "show_digits (n div 10) \<noteq> []" "\<forall>c \<in> set (show_digits (n div 10)). is_digit c"
      "read_digits (show_digits (n div 10)) = n div 10"
      "hd (show_digits (n div 10)) = CHR ''0'' \<longrightarrow> n div 10 = 0" by auto
    from False "1.prems" have "n div 10 \<noteq> 0" by (simp add: zdiv_eq_0_iff)
    with IH False show ?thesis
      by (simp add: show_digits.simps [of n] digit_char_props read_digits_snoc)
  qed
qed

definition num_stop :: "string \<Rightarrow> bool" where
  "num_stop r \<longleftrightarrow> r = [] \<or> (\<not> is_digit (hd r) \<and> hd r \<noteq> CHR ''.'' \<and> hd r \<noteq> CHR ''e'' \<and> hd r \<noteq> CHR ''E'')"

lemma json_number_digits:
  assumes n: "0 \<le> n" "n \<le> 2 ^ 53" and r: "num_stop r"
  shows "json_number (show_digits n @ r) = Some (f64_norm n 0, r)"
    and "json_number (CHR ''-'' # show_digits n @ r) = Some (f64_norm (- n) 0, r)"
proof -
  note d = show_digits_props [OF n(1)]
  have nd: "\<not> is_digit (CHR ''-'')" by (simp add: is_digit_def)
  from d obtain c t where ct: "show_digits n = c # t" by (cases "show_digits n") auto
  from d ct have c: "c \<noteq> CHR ''-''" using nd by auto
  have tw: "takeWhile is_digit (show_digits n @ r) = show_digits n" "dropWhile is_digit (show_digits n @ r) = r"
    using d r by (auto simp: num_stop_def takeWhile_append dropWhile_append takeWhile_eq_Nil_iff dropWhile_eq_self_iff)
  have ok: "\<not> (length (show_digits n) > 1 \<and> hd (show_digits n) = CHR ''0'')" using d by auto
  have z: "read_digits (show_digits n) = n" using d by simp
  have f: "take_frac r = (None, r)" "take_exp r = (None, r)"
    using r by (auto simp: take_frac_def take_exp_def num_stop_def split: list.split)
  have v: "dec_value neg (show_digits n) None None = Some (f64_norm (if neg then - n else n) 0)" for neg
    using z n by (simp add: dec_value_def f64_of_dec_def)
  have s: "take_sign (show_digits n @ r) = (False, show_digits n @ r)"
    "take_sign (CHR ''-'' # show_digits n @ r) = (True, show_digits n @ r)"
    using c by (simp_all add: take_sign_def ct)
  show "json_number (show_digits n @ r) = Some (f64_norm n 0, r)"
    "json_number (CHR ''-'' # show_digits n @ r) = Some (f64_norm (- n) 0, r)"
    unfolding json_number_def s prod.case tw f Let_def using ok d v by simp_all
qed

subsection \<open>Strings\<close>

lemma hex_val_digit: "i < 16 \<Longrightarrow> hex_val (''0123456789abcdef'' ! i) = Some i"
proof -
  have "list_all (\<lambda>i. hex_val (''0123456789abcdef'' ! i) = Some i) [0..<16]" by code_simp
  then show "i < 16 \<Longrightarrow> ?thesis" by (simp add: list_all_iff)
qed

lemma hex4_digits:
  assumes "n < 128"
  shows "hex4 (hex_digits4 n @ r) = Some (n, r)"
proof -
  have "n div 16 mod 16 = n div 16" "n div 256 = 0" "n div 4096 = 0" using assms by auto
  moreover have "n div 16 * 16 + n mod 16 = n" by simp
  ultimately show ?thesis
    using hex_val_digit [of "n mod 16"] hex_val_digit [of "n div 16"] hex_val_digit [of 0] assms
    by (simp add: hex_digits4_def del: hex_val.simps)
qed

lemma unesc_u_small:
  assumes "n < 128"
  shows "unesc_u (hex_digits4 n @ r) = Some ([byte_of n], r)"
  using assms by (simp add: unesc_u_def hex4_digits utf8_encode_def split: list.split)

lemma length_esc_ascii: "0 < length (esc_ascii c)"
  by (simp add: esc_ascii_def esc_u_def Let_def)

lemma byte_val_eqD: "byte_val c = n \<Longrightarrow> c = byte_of n"
  by auto

lemma json_str_esc:
  assumes "byte_val c < 128"
  shows "json_str (Suc n) (esc_ascii c @ r) = map_option (apfst ((#) c)) (json_str n r)"
proof -
  have e: "json_str (Suc n) (CHR 0x5C # u # r) = map_option (apfst ((#) c)) (json_str n r)"
    if "u \<noteq> CHR ''u''" "unesc_char u = Some c" for u
    using that by simp
  let ?simple = "\<lambda>b. b = 34 \<or> b = 92 \<or> b = 8 \<or> b = 12 \<or> b = 10 \<or> b = 13 \<or> b = 9"
  show ?thesis
  proof (cases "?simple (byte_val c)")
    case True
    then show ?thesis
    proof (elim disjE)
      assume b: "byte_val c = 34"
      then show ?thesis using e [of c] by (auto simp: esc_ascii_def unesc_char_def dest: byte_val_eqD)
    next
      assume b: "byte_val c = 92"
      then show ?thesis using e [of c] by (auto simp: esc_ascii_def unesc_char_def dest: byte_val_eqD)
    qed (use e in \<open>auto simp: esc_ascii_def unesc_char_def dest: byte_val_eqD\<close>)
  next
    case simple: False
    show ?thesis
    proof (cases "byte_val c < 32 \<or> byte_val c = 60 \<or> byte_val c = 62 \<or> byte_val c = 38")
      case True
      then have "esc_ascii c = esc_u (byte_val c)" using simple by (auto simp: esc_ascii_def)
      moreover have "(@) [c] = (#) c" by (rule ext) simp
      ultimately show ?thesis using assms by (simp add: esc_u_def unesc_u_small)
    next
      case False
      then have "esc_ascii c = [c]" using simple by (auto simp: esc_ascii_def)
      then show ?thesis using simple False assms by simp
    qed
  qed
qed

lemma json_esc_ascii_Cons: "byte_val c < 128 \<Longrightarrow> json_esc (c # t) = esc_ascii c @ json_esc t"
  by (simp add: json_esc.simps)

lemma json_esc_Nil [simp]: "json_esc [] = []"
  by (simp add: json_esc.simps)

lemma json_str_roundtrip:
  "ascii s \<Longrightarrow> length (json_esc s) < n \<Longrightarrow> json_str n (json_esc s @ CHR 0x22 # r) = Some (s, r)"
proof (induction s arbitrary: n)
  case Nil
  then show ?case by (cases n) auto
next
  case (Cons c t)
  then obtain m where m: "n = Suc m" by (cases n) auto
  from Cons.prems have c: "byte_val c < 128" and t: "ascii t" by (auto simp: ascii_def)
  from Cons.prems m c have "length (esc_ascii c) + length (json_esc t) < Suc m"
    by (simp add: json_esc_ascii_Cons)
  with length_esc_ascii [of c] have "length (json_esc t) < m" by linarith
  with Cons.IH t have "json_str m (json_esc t @ CHR 0x22 # r) = Some (t, r)" by simp
  with c m show ?case by (simp add: json_esc_ascii_Cons json_str_esc)
qed

subsection \<open>Values\<close>

definition val_start :: "char \<Rightarrow> bool" where
  "val_start c \<longleftrightarrow> \<not> json_ws c \<and> c \<noteq> CHR '']'' \<and> c \<noteq> CHR ''}''"

lemma digit_start: "is_digit c \<Longrightarrow> val_start c \<and> byte_val c \<noteq> 34 \<and> c \<notin> set ''[{tfn''"
  by (auto simp: is_digit_def val_start_def json_ws_def)

lemma show_int_start:
  "\<exists>c t. show_int n = c # t \<and> val_start c \<and> byte_val c \<noteq> 34 \<and> c \<notin> set ''[{tfn''"
proof (cases "n < 0")
  case True
  then show ?thesis by (auto simp: show_int_def val_start_def json_ws_def)
next
  case False
  then have "0 \<le> n" by simp
  note d = show_digits_props [OF this]
  from d obtain c t where "show_digits n = c # t" by (cases "show_digits n") auto
  with d False digit_start [of c] show ?thesis by (auto simp: show_int_def)
qed

lemma json_marshal_start: "jplain v \<Longrightarrow> \<exists>c t. json_marshal v = c # t \<and> val_start c"
proof (cases v)
  case (JInt n)
  then show ?thesis using show_int_start [of n] by auto
qed (auto simp: val_start_def json_ws_def quote_def)

lemma skip_ws_marshal: "jplain v \<Longrightarrow> skip_ws (json_marshal v @ r) = json_marshal v @ r"
  using json_marshal_start [of v] by (auto simp: val_start_def)

lemma json_value_int:
  assumes "\<bar>k\<bar> \<le> 2 ^ 53" "num_stop r" "0 < n"
  shows "json_value n (show_int k @ r) = Some (f64_norm k 0, r)"
proof -
  obtain c t where ct: "show_int k = c # t" "byte_val c \<noteq> 34" "c \<notin> set ''[{tfn''"
    using show_int_start [of k] by auto
  obtain m where n: "n = Suc m" using assms(3) by (cases n) auto
  have "json_value n (show_int k @ r) = json_number (show_int k @ r)" using ct by (simp add: n)
  also have "\<dots> = Some (f64_norm k 0, r)"
    using json_number_digits [of k r] json_number_digits [of "- k" r] assms
    by (cases "k < 0") (auto simp: show_int_def)
  finally show ?thesis .
qed

lemma json_value_str:
  "ascii s \<Longrightarrow> 0 < n \<Longrightarrow> json_value n (quote s @ r) = Some (JStr s, r)"
  by (cases n) (auto simp: quote_def json_str_roundtrip)

definition member_text :: "string \<times> json \<Rightarrow> string" where
  "member_text = (\<lambda>(k, v). quote k @ '':'' @ json_marshal v)"

text \<open>The induction hypothesis for one value: enough fuel, and a rest that cannot continue a number.\<close>

definition reads_back :: "json \<Rightarrow> bool" where
  "reads_back v \<longleftrightarrow> (\<forall>n r. length (json_marshal v) \<le> n \<longrightarrow> num_stop r \<longrightarrow>
     json_value n (json_marshal v @ r) = Some (jnorm v, r))"

lemma json_elems_roundtrip:
  "xs \<noteq> [] \<Longrightarrow> \<forall>x \<in> set xs. jplain x \<and> reads_back x \<Longrightarrow> length (comma_sep (map json_marshal xs)) < n \<Longrightarrow>
   json_elems n (comma_sep (map json_marshal xs) @ CHR '']'' # r) = Some (map jnorm xs, r)"
proof (induction xs arbitrary: n)
  case (Cons x xs)
  then obtain m where n: "n = Suc m" by (cases n) auto
  from Cons.prems have rb: "reads_back x" and xs: "\<forall>x \<in> set xs. jplain x \<and> reads_back x" by auto
  have stops: "num_stop (CHR '']'' # r)" "num_stop (CHR '','' # t)" for t
    by (simp_all add: num_stop_def is_digit_def)
  show ?case
  proof (cases xs)
    case Nil
    with Cons.prems n rb stops(1) show ?thesis by (simp add: reads_back_def json_ws_def)
  next
    case (Cons y ys)
    let ?rest = "comma_sep (map json_marshal xs) @ CHR '']'' # r"
    from Cons have t: "comma_sep (map json_marshal (x # xs)) = json_marshal x @ CHR '','' # comma_sep (map json_marshal xs)"
      by simp
    from Cons.prems(3) t n have "length (json_marshal x) \<le> m" "length (comma_sep (map json_marshal xs)) < m"
      by auto
    with rb stops(2) Cons.IH xs Cons have
      "json_value m (json_marshal x @ CHR '','' # ?rest) = Some (jnorm x, CHR '','' # ?rest)"
      "json_elems m ?rest = Some (map jnorm xs, r)" by (auto simp: reads_back_def)
    moreover have "skip_ws ?rest = ?rest"
    proof -
      from xs Cons have "jplain y" by simp
      then show ?thesis using Cons skip_ws_marshal [of y] json_marshal_start [of y] by (cases ys) (auto simp: val_start_def)
    qed
    ultimately show ?thesis by (simp only: t n append_assoc append_Cons json_elems.simps) (simp add: json_ws_def)
  qed
qed simp

lemma json_members_roundtrip:
  "ms \<noteq> [] \<Longrightarrow> \<forall>(k, v) \<in> set ms. ascii k \<and> jplain v \<and> reads_back v \<Longrightarrow>
   distinct (map fst acc @ map fst ms) \<Longrightarrow> length (comma_sep (map member_text ms)) < n \<Longrightarrow>
   json_members n acc (comma_sep (map member_text ms) @ CHR ''}'' # r) =
     Some (acc @ map (\<lambda>(k, v). (k, jnorm v)) ms, r)"
proof (induction ms arbitrary: n acc)
  case (Cons kv ms)
  then obtain m where n: "n = Suc m" by (cases n) auto
  obtain k v where kv: "kv = (k, v)" by (cases kv)
  from Cons.prems kv have rb: "reads_back v" and k: "ascii k" and v: "jplain v"
    and ms: "\<forall>(k, v) \<in> set ms. ascii k \<and> jplain v \<and> reads_back v" by auto
  have stops: "num_stop (CHR ''}'' # t)" "num_stop (CHR '','' # t)" for t
    by (simp_all add: num_stop_def is_digit_def)
  have set_new: "alist_set k w acc = acc @ [(k, w)]" for w
  proof -
    from Cons.prems(3) kv have "k \<notin> fst ` set acc" by auto
    then show ?thesis by (induction acc) auto
  qed
  have str: "json_str (Suc (length (json_esc k @ CHR 0x22 # t))) (json_esc k @ CHR 0x22 # t) = Some (k, t)" for t
    using k by (intro json_str_roundtrip) simp_all
  have step: "json_members (Suc m) acc (member_text kv @ d # t) =
      (if d = CHR '','' then json_members m (acc @ [(k, jnorm v)]) (skip_ws t)
       else if d = CHR ''}'' then Some (acc @ [(k, jnorm v)], t) else None)"
    if "length (json_marshal v) \<le> m" "num_stop (d # t)" "\<not> json_ws d" for d t
  proof -
    have "json_value m (json_marshal v @ d # t) = Some (jnorm v, d # t)"
      using rb that by (simp add: reads_back_def)
    then show ?thesis
      using str [of "CHR '':'' # json_marshal v @ d # t"] that skip_ws_marshal [OF v, of "d # t"]
      by (simp add: kv member_text_def quote_def json_ws_def set_new)
  qed
  show ?case
  proof (cases ms)
    case Nil
    with Cons.prems n kv have "length (json_marshal v) \<le> m" by (simp add: member_text_def)
    with step [of "CHR ''}''" r] stops Nil kv n show ?thesis by (simp add: json_ws_def)
  next
    case (Cons kv' ms')
    let ?rest = "comma_sep (map member_text ms) @ CHR ''}'' # r"
    from Cons have t: "comma_sep (map member_text (kv # ms)) = member_text kv @ CHR '','' # comma_sep (map member_text ms)"
      by simp
    from Cons.prems(4) t n kv have len: "length (json_marshal v) \<le> m" "length (comma_sep (map member_text ms)) < m"
      by (auto simp: member_text_def)
    have "skip_ws ?rest = ?rest"
      using Cons by (cases kv'; cases ms') (auto simp: member_text_def quote_def json_ws_def)
    moreover have "json_members m (acc @ [(k, jnorm v)]) ?rest =
        Some ((acc @ [(k, jnorm v)]) @ map (\<lambda>(k, v). (k, jnorm v)) ms, r)"
      using Cons.IH [of "acc @ [(k, jnorm v)]" m] Cons Cons.prems(3) ms len kv by auto
    ultimately show ?thesis
      using step [of "CHR '',''" ?rest] len stops kv n t by (simp add: json_ws_def)
  qed
qed simp

lemma sort_key_map_snd:
  "sort_key fst (map (\<lambda>(k, v). (k, f v)) m) = map (\<lambda>(k, v). (k, f v)) (sort_key fst m)"
proof (induction m)
  case (Cons x m)
  have "insort_key fst (k, f v) (map (\<lambda>(k, v). (k, f v)) ys) = map (\<lambda>(k, v). (k, f v)) (insort_key fst (k, v) ys)"
    for k v ys
    by (induction ys) auto
  with Cons show ?case by (cases x) simp
qed simp

lemma json_value_roundtrip: "jplain v \<Longrightarrow> reads_back v"
proof (induction v)
  case (JInt k)
  show ?case
  proof (unfold reads_back_def, intro allI impI)
    fix n r assume "length (json_marshal (JInt k)) \<le> n" and r: "num_stop r"
    with show_int_start [of k] have "0 < n" by auto
    with JInt r show "json_value n (json_marshal (JInt k) @ r) = Some (jnorm (JInt k), r)"
      by (simp only: json_marshal.simps jnorm.simps jplain.simps json_value_int)
  qed
next
  case (JStr s)
  show ?case
  proof (unfold reads_back_def, intro allI impI)
    fix n r assume "length (json_marshal (JStr s)) \<le> n"
    then have "0 < n" by (simp add: quote_def)
    with JStr show "json_value n (json_marshal (JStr s) @ r) = Some (jnorm (JStr s), r)"
      by (simp only: json_marshal.simps jnorm.simps jplain.simps json_value_str)
  qed
next
  case (JArr xs)
  show ?case
  proof (unfold reads_back_def, intro allI impI)
    fix n r assume len: "length (json_marshal (JArr xs)) \<le> n"
    then obtain m where n: "n = Suc m" by (cases n) auto
    show "json_value n (json_marshal (JArr xs) @ r) = Some (jnorm (JArr xs), r)"
    proof (cases xs)
      case Nil
      then show ?thesis by (simp add: n json_ws_def)
    next
      case (Cons y ys)
      let ?t = "comma_sep (map json_marshal xs) @ CHR '']'' # r"
      from JArr Cons have all: "\<forall>x \<in> set xs. jplain x \<and> reads_back x" and y: "jplain y" by auto
      from y Cons obtain c t where ct: "?t = c # t" "val_start c"
        using json_marshal_start [of y] by (cases ys) auto
      have "json_elems m ?t = Some (map jnorm xs, r)"
        using json_elems_roundtrip [OF _ all] Cons len n by simp
      with ct show ?thesis by (simp add: n val_start_def)
    qed
  qed
next
  case (JObj ms)
  let ?ms = "sort_key fst ms"
  have mtext: "json_marshal (JObj ms) = ''{'' @ comma_sep (map member_text ?ms) @ ''}''"
    unfolding json_marshal.simps sort_key_map_snd by (simp add: member_text_def comp_def split_def)
  have nrm: "jnorm (JObj ms) = JObj (map (\<lambda>(k, v). (k, jnorm v)) ?ms)"
    by (simp add: sort_key_map_snd)
  show ?case
  proof (unfold reads_back_def, intro allI impI)
    fix n r assume len: "length (json_marshal (JObj ms)) \<le> n"
    then obtain m where n: "n = Suc m" unfolding mtext by (cases n) auto
    show "json_value n (json_marshal (JObj ms) @ r) = Some (jnorm (JObj ms), r)"
    proof (cases "ms = []")
      case True
      then show ?thesis unfolding mtext nrm by (simp add: n json_ws_def)
    next
      case False
      let ?t = "comma_sep (map member_text ?ms) @ CHR ''}'' # r"
      from False have ne: "?ms \<noteq> []" by (metis length_0_conv length_sort)
      from JObj have all: "\<forall>(k, v) \<in> set ?ms. ascii k \<and> jplain v \<and> reads_back v" by fastforce
      from JObj.prems have dist: "distinct (map fst [] @ map fst ?ms)"
        by (simp add: distinct_map)
      from ne obtain t where t: "?t = CHR 0x22 # t"
        by (cases ?ms; cases "tl ?ms") (auto simp: member_text_def quote_def)
      have "json_members m [] ?t = Some ([] @ map (\<lambda>(k, v). (k, jnorm v)) ?ms, r)"
        using json_members_roundtrip [OF ne all dist] len n unfolding mtext by simp
      with t show ?thesis unfolding mtext nrm by (simp add: n json_ws_def)
    qed
  qed
qed (auto simp: reads_back_def lit_def HasPrefix_def dest!: Suc_le_D)

theorem json_roundtrip:
  assumes "jplain v"
  shows "json_unmarshal (json_marshal v) = Inr (jnorm v)"
proof -
  have "length (json_marshal v) \<le> n \<Longrightarrow> num_stop r \<Longrightarrow> json_value n (json_marshal v @ r) = Some (jnorm v, r)" for n r
    using json_value_roundtrip [OF assms] unfolding reads_back_def by blast
  from this [of "2 * length (json_marshal v) + 2" "[]"]
  have "json_value (2 * length (json_marshal v) + 2) (json_marshal v) = Some (jnorm v, [])"
    by (simp add: num_stop_def del: json_value.simps)
  with skip_ws_marshal [OF assms, of "[]"] show ?thesis by (simp add: json_unmarshal_def del: json_value.simps)
qed

lemma f64_int_norm: "f64_int m' e' = n \<and> 0 \<le> e'" if "f64_norm m e = JFloat m' e'" "0 \<le> e" "n = m * 2 ^ nat e"
  using that
proof (induction m e rule: f64_norm.induct)
  case (1 m e)
  consider "m = 0" | "m \<noteq> 0" "even m" | "odd m" by blast
  then show ?case
  proof cases
    case 1
    with "1.prems" show ?thesis by (simp add: f64_norm.simps [of 0 e] f64_int_def)
  next
    case 3
    then have "m \<noteq> 0" by auto
    with 3 "1.prems" show ?thesis by (auto simp: f64_norm.simps [of m e] f64_int_def)
  next
    case 2
    then obtain k where k: "m = 2 * k" by (auto elim: evenE)
    from "1.prems"(2) have "nat (e + 1) = Suc (nat e)" by simp
    then show ?thesis using "1.IH" "1.prems" 2 k by (simp add: f64_norm.simps [of "2 * k" e])
  qed
qed

text \<open>An integer of at most 53 bits survives the trip through a JSON number and \<^verbatim>\<open>int64\<close>.\<close>

lemma f64_norm_int:
  obtains m e where "f64_norm n 0 = JFloat m e" "f64_int m e = n"
proof -
  have "\<exists>m' e'. f64_norm m e = JFloat m' e'" for m e
    by (induction m e rule: f64_norm.induct) (simp add: f64_norm.simps)
  then obtain m e where "f64_norm n 0 = JFloat m e" by blast
  with f64_int_norm [OF this] that show thesis by simp
qed

lemma map_of_sort_key:
  assumes "distinct (map fst m)"
  shows "map_of (sort_key fst m) = map_of m"
proof -
  have "distinct (map fst (sort_key fst m))" using assms by (simp add: distinct_map)
  with assms show ?thesis by (simp add: map_of_inject_set)
qed

lemma jget_jnorm:
  assumes "distinct (map fst m)"
  shows "jnorm (JObj m) = JObj m' \<Longrightarrow> jget m' k = map_option jnorm (jget m k)"
  using assms by (auto simp: jget_def map_of_sort_key map_of_map sort_key_map_snd)

lemma unmarshal_map_roundtrip:
  assumes "jplain (JObj m)"
  obtains m' where "unmarshal_map (json_marshal (JObj m)) = Inr m'" "\<And>k. jget m' k = map_option jnorm (jget m k)"
  using json_roundtrip [OF assms] jget_jnorm [of m] assms that by (simp add: unmarshal_map_def)

end
