(* ===== verification/World.thy ===== *)
theory World
  imports Go_Sha256 Go_Json
begin

text \<open>
  The world the sidecar runs in. \<open>env\<close> holds what the program does not control: the readings of the
  clock, the random source, the failures of the database driver, the answers of the upstream HTTP
  servers, the process environment, and the cryptographic and URL-parsing primitives of the
  library; they are parameters of every operation, indexed by the number of effects performed so
  far, so that each call may answer differently. \<open>world\<close> is the mutable state: that counter, the
  eight tables of the SQLite database and the provider cache.

  A time is a number of nanoseconds since the Unix epoch. A column that holds \<^verbatim>\<open>t.Unix()\<close> is read
  back as \<^verbatim>\<open>time.Unix(s, 0)\<close>; a row here keeps the time as it is read back, a whole second.
\<close>

section \<open>Time\<close>

type_synonym time = int

definition second :: int where
  "second = 1000000000"

definition minute :: int where
  "minute = 60 * second"

definition hour :: int where
  "hour = 3600 * second"

definition time_Unix :: "int \<Rightarrow> time" where
  "time_Unix s = s * second"

definition unix_sec :: "time \<Rightarrow> int" where
  "unix_sec t = t div second"

definition stored_time :: "time \<Rightarrow> time" where
  "stored_time t = time_Unix (unix_sec t)"

text \<open>The zero \<^verbatim>\<open>time.Time\<close> is midnight of 1 January of the year 1.\<close>

definition zero_time :: time where
  "zero_time = time_Unix (-62135596800)"

lemma second_pos [simp]: "0 < second"
  by (simp add: second_def)

lemma unix_time_Unix [simp]: "unix_sec (time_Unix s) = s"
  by (simp add: unix_sec_def time_Unix_def second_def)

lemma unix_stored_time [simp]: "unix_sec (stored_time t) = unix_sec t"
  by (simp add: stored_time_def)

lemma stored_time_idem [simp]: "stored_time (stored_time t) = stored_time t"
  by (simp add: stored_time_def)

lemma stored_time_bounds: "stored_time t \<le> t" "t < stored_time t + second"
proof -
  have "t = stored_time t + t mod second"
    by (simp add: stored_time_def time_Unix_def unix_sec_def)
  moreover have "0 \<le> t mod second" "t mod second < second" by (simp_all add: second_def)
  ultimately show "stored_time t \<le> t" "t < stored_time t + second" by linarith+
qed

lemma unix_sec_mono: "s \<le> t \<Longrightarrow> unix_sec s \<le> unix_sec t"
  by (simp add: unix_sec_def second_def zdiv_mono1)

lemma unix_sec_le_iff: "unix_sec t \<le> s \<longleftrightarrow> t < time_Unix (s + 1)"
  using stored_time_bounds [of t] unfolding stored_time_def time_Unix_def second_def by (intro iffI) (simp_all add: ring_distribs)

text \<open>A \<^verbatim>\<open>time.Duration\<close> is an int64 number of nanoseconds: sums and products wrap.\<close>

definition wrap64 :: "int \<Rightarrow> int" where
  "wrap64 n = (n + 2 ^ 63) mod 2 ^ 64 - 2 ^ 63"

lemma wrap64_id: "in_int64 n \<Longrightarrow> wrap64 n = n"
  by (simp add: wrap64_def in_int64_def)

lemma wrap64_range: "in_int64 (wrap64 n)"
proof -
  have "0 \<le> (n + 2 ^ 63) mod 2 ^ 64" "(n + 2 ^ 63) mod 2 ^ 64 < (2::int) ^ 64"
    by (rule pos_mod_sign, simp) (rule pos_mod_bound, simp)
  then show ?thesis by (simp add: wrap64_def in_int64_def)
qed

section \<open>Rows of the database\<close>

record SigningKey =
  sk_Kid :: string
  sk_Alg :: string
  sk_PrivatePEM :: bytes
  sk_PublicPEM :: bytes
  sk_CreatedAt :: time
  sk_RetiresAt :: time
  sk_Status :: string

record Client =
  cl_ClientID :: string
  cl_ClientSecretHash :: string
  cl_RedirectURIsJSON :: string
  cl_RegistrationAccessTokenHash :: string
  cl_Resource :: string
  cl_Scopes :: string
  cl_CreatedAt :: time
  cl_LastUsedAt :: time

record AuthSession =
  se_State :: string
  se_CodeChallenge :: string
  se_CodeChallengeMethod :: string
  se_RedirectURI :: string
  se_ClientID :: string
  se_Resource :: string
  se_Scopes :: string
  se_ProviderIssuer :: string
  se_PublicBase :: string
  se_UpstreamState :: string
  se_UpstreamPKCEVerifier :: string
  se_OriginalState :: string
  se_CreatedAt :: time
  se_ExpiresAt :: time

record Code =
  co_Code :: string
  co_ClientID :: string
  co_Resource :: string
  co_Sub :: string
  co_ClaimsJSON :: string
  co_UpstreamRefreshEnc :: bytes
  co_Scopes :: string
  co_RedirectURI :: string
  co_CodeChallenge :: string
  co_CodeChallengeMethod :: string
  co_ExpiresAt :: time

record RefreshToken =
  rt_TokenHash :: string
  rt_Sub :: string
  rt_Resource :: string
  rt_ClientID :: string
  rt_ClaimsJSON :: string
  rt_UpstreamRefreshEnc :: bytes
  rt_Scopes :: string
  rt_ExpiresAt :: time

record ResourceRow =
  rr_Name :: string
  rr_ProviderIssuer :: string
  rr_ClientID :: string
  rr_ClientSecretEnc :: bytes
  rr_Scopes :: string
  rr_Audience :: string
  rr_UpdatedAt :: time

record AuditRow =
  ar_EventType :: string
  ar_ClientID :: string
  ar_Sub :: string
  ar_IP :: string
  ar_Success :: int
  ar_DetailsJSON :: string
  ar_Timestamp :: int

record EncryptionKey =
  ek_KeyID :: string
  ek_Material :: bytes
  ek_Status :: string
  ek_CreatedAt :: time

text \<open>Each table is the list of its rows in insertion order.\<close>

record db =
  signing_keys :: "SigningKey list"
  clients :: "Client list"
  auth_sessions :: "AuthSession list"
  codes :: "Code list"
  refresh_tokens :: "RefreshToken list"
  resource_configs :: "ResourceRow list"
  audit_events :: "AuditRow list"
  encryption_keys :: "EncryptionKey list"

definition empty_db :: db where
  "empty_db = \<lparr>signing_keys = [], clients = [], auth_sessions = [], codes = [], refresh_tokens = [],
     resource_configs = [], audit_events = [], encryption_keys = []\<rparr>"

section \<open>Upstream HTTP and URLs\<close>

record http_req =
  hq_Method :: string
  hq_URL :: string
  hq_Header :: header
  hq_Form :: "(string \<times> string) list"

record http_resp =
  hp_Status :: int
  hp_Body :: "bytes result"

record url =
  u_Scheme :: string
  u_Host :: string
  u_Hostname :: string
  u_Path :: string
  u_Query :: "(string \<times> string list) list"

record Provider =
  pr_Issuer :: string
  pr_AuthEndpoint :: string
  pr_TokenEndpoint :: string
  pr_UserinfoEndpoint :: string
  pr_JWKSURI :: string

section \<open>Environment and world\<close>

text \<open>A parsed X.509 key: the bytes of an Ed25519 key, or a key of another type.\<close>

datatype x509_key = Ed25519Key bytes | OtherKey

record env =
  clock :: "nat \<Rightarrow> time"
  db_fail :: "nat \<Rightarrow> bool"
  rng :: "nat \<Rightarrow> nat \<Rightarrow> bytes option"
  os_env :: "string \<Rightarrow> string"
  http_do :: "nat \<Rightarrow> http_req \<Rightarrow> http_resp result"
  url_Parse :: "string \<Rightarrow> url result"
  url_ParseRequestURI :: "string \<Rightarrow> url result"
  ed25519_GenerateKey :: "nat \<Rightarrow> (bytes \<times> bytes) option"
  ed25519_Sign :: "bytes \<Rightarrow> bytes \<Rightarrow> bytes"
  ed25519_Verify :: "bytes \<Rightarrow> bytes \<Rightarrow> bytes \<Rightarrow> bool"
  rsa_VerifyPKCS1v15 :: "int \<times> int \<Rightarrow> bytes \<Rightarrow> bytes \<Rightarrow> bool"
  pem_EncodeToMemory :: "string \<Rightarrow> bytes \<Rightarrow> bytes"
  pem_Decode :: "bytes \<Rightarrow> bytes option"
  x509_MarshalPKCS8PrivateKey :: "bytes \<Rightarrow> bytes result"
  x509_ParsePKCS8PrivateKey :: "bytes \<Rightarrow> x509_key result"
  x509_MarshalPKIXPublicKey :: "bytes \<Rightarrow> bytes result"
  x509_ParsePKIXPublicKey :: "bytes \<Rightarrow> x509_key result"
  gcm_Seal :: "bytes \<Rightarrow> bytes \<Rightarrow> bytes \<Rightarrow> bytes"
  gcm_Open :: "bytes \<Rightarrow> bytes \<Rightarrow> bytes \<Rightarrow> bytes option"
  f64_overflow :: "int \<Rightarrow> int"

record world =
  w_tick :: nat
  w_db :: db
  w_providers :: "(string \<times> Provider) list"

type_synonym 'a eff = "(world, 'a) state"

definition bump :: "world \<Rightarrow> world" where
  "bump w = w\<lparr>w_tick := Suc (w_tick w)\<rparr>"

lemma bump_simps [simp]:
  "w_tick (bump w) = Suc (w_tick w)" "w_db (bump w) = w_db w" "w_providers (bump w) = w_providers w"
  by (simp_all add: bump_def)

lemma bump_upd [simp]:
  "bump (w\<lparr>w_db := d\<rparr>) = (bump w)\<lparr>w_db := d\<rparr>" "bump (w\<lparr>w_providers := p\<rparr>) = (bump w)\<lparr>w_providers := p\<rparr>"
  by (simp_all add: bump_def)

text \<open>\<^verbatim>\<open>time.Now()\<close>, \<^verbatim>\<open>io.ReadFull(rand.Reader, b)\<close> and one SQL statement.\<close>

definition time_Now :: "env \<Rightarrow> time eff" where
  "time_Now E = State (\<lambda>w. (clock E (w_tick w), bump w))"

definition rand_Read :: "env \<Rightarrow> nat \<Rightarrow> bytes result eff" where
  "rand_Read E n = State (\<lambda>w.
     ((case rng E (w_tick w) n of None \<Rightarrow> Inl (GoErr ''rand'') | Some b \<Rightarrow> Inr b), bump w))"

definition db_stmt :: "env \<Rightarrow> string \<Rightarrow> (db \<Rightarrow> 'a result \<times> db) \<Rightarrow> 'a result eff" where
  "db_stmt E what f = State (\<lambda>w.
     if db_fail E (w_tick w) then (Inl (GoWrap what (GoErr ''database'')), bump w)
     else (case f (w_db w) of (r, d) \<Rightarrow> (r, (bump w)\<lparr>w_db := d\<rparr>)))"

definition http_Do :: "env \<Rightarrow> http_req \<Rightarrow> http_resp result eff" where
  "http_Do E q = State (\<lambda>w. (http_do E (w_tick w) q, bump w))"

lemma run_http_Do [simp]: "run_state (http_Do E q) w = (http_do E (w_tick w) q, bump w)"
  by (simp add: http_Do_def)

lemma run_time_Now [simp]: "run_state (time_Now E) w = (clock E (w_tick w), bump w)"
  by (simp add: time_Now_def)

lemma run_rand_Read [simp]:
  "run_state (rand_Read E n) w =
     ((case rng E (w_tick w) n of None \<Rightarrow> Inl (GoErr ''rand'') | Some b \<Rightarrow> Inr b), bump w)"
  by (simp add: rand_Read_def)

lemma run_db_stmt:
  "run_state (db_stmt E what f) w =
     (if db_fail E (w_tick w) then (Inl (GoWrap what (GoErr ''database'')), bump w)
      else (fst (f (w_db w)), (bump w)\<lparr>w_db := snd (f (w_db w))\<rparr>))"
  by (simp add: db_stmt_def split: prod.split)

text \<open>Frame rules: a predicate on the database survives every effect that is not a statement, and a
  statement that keeps it.\<close>

lemma keeps_time_Now [hoare_rules]: "keeps (\<lambda>w. I (w_db w)) (time_Now E)"
  by (simp add: hoare_def)

lemma keeps_rand_Read [hoare_rules]: "keeps (\<lambda>w. I (w_db w)) (rand_Read E n)"
  by (simp add: hoare_def)

lemma keeps_http_Do [hoare_rules]: "keeps (\<lambda>w. I (w_db w)) (http_Do E q)"
  by (simp add: hoare_def)

lemma keeps_db_stmt: "(\<And>d. I d \<Longrightarrow> I (snd (f d))) \<Longrightarrow> keeps (\<lambda>w. I (w_db w)) (db_stmt E what f)"
  by (simp add: hoare_def run_db_stmt)

text \<open>The effect counter never goes back.\<close>

abbreviation ticks :: "nat \<Rightarrow> world \<Rightarrow> bool" where
  "ticks n \<equiv> \<lambda>w. n \<le> w_tick w"

lemma ticks_prims [hoare_rules]:
  "keeps (ticks n) (time_Now E)" "keeps (ticks n) (rand_Read E m)" "keeps (ticks n) (http_Do E q)" "keeps (ticks n) (db_stmt E what f)"
  by (simp_all add: hoare_def run_db_stmt)

lemma ticks_mono: "(\<And>n. keeps (ticks n) m) \<Longrightarrow> run_state m w = (x, w') \<Longrightarrow> w_tick w \<le> w_tick w'"
  using hoareD [of "ticks (w_tick w)" m] by blast

text \<open>What the code relies on of the environment, as named hypotheses: the clock does not run
  backwards, AES-GCM opens what it sealed, Ed25519 verifies what it signed, and the PEM encodings
  of a generated key pair parse back.\<close>

definition clock_mono :: "env \<Rightarrow> bool" where
  "clock_mono E \<longleftrightarrow> (\<forall>i j. i \<le> j \<longrightarrow> clock E i \<le> clock E j)"

definition gcm_ok :: "env \<Rightarrow> bool" where
  "gcm_ok E \<longleftrightarrow> (\<forall>k n p. length k = 32 \<and> length n = 12 \<longrightarrow>
     gcm_Open E k n (gcm_Seal E k n p) = Some p)"

text \<open>\<^verbatim>\<open>io.ReadFull(rand.Reader, b)\<close> fills the buffer or fails.\<close>

definition rng_ok :: "env \<Rightarrow> bool" where
  "rng_ok E \<longleftrightarrow> (\<forall>i n b. rng E i n = Some b \<longrightarrow> length b = n)"

definition ed25519_ok :: "env \<Rightarrow> bool" where
  "ed25519_ok E \<longleftrightarrow> (\<forall>i pub priv m. ed25519_GenerateKey E i = Some (pub, priv) \<longrightarrow>
     ed25519_Verify E pub m (ed25519_Sign E priv m) \<and> length pub = 32 \<and> length (ed25519_Sign E priv m) = 64)"

definition pem_ok :: "env \<Rightarrow> bool" where
  "pem_ok E \<longleftrightarrow> (\<forall>t b. pem_Decode E (pem_EncodeToMemory E t b) = Some b) \<and>
     (\<forall>k der. x509_MarshalPKCS8PrivateKey E k = Inr der \<longrightarrow> x509_ParsePKCS8PrivateKey E der = Inr (Ed25519Key k)) \<and>
     (\<forall>k der. x509_MarshalPKIXPublicKey E k = Inr der \<longrightarrow> x509_ParsePKIXPublicKey E der = Inr (Ed25519Key k))"

definition no_faults :: "env \<Rightarrow> bool" where
  "no_faults E \<longleftrightarrow> (\<forall>i. \<not> db_fail E i)"

lemma clock_monoD: "clock_mono E \<Longrightarrow> i \<le> j \<Longrightarrow> clock E i \<le> clock E j"
  by (simp add: clock_mono_def)

end
