(* ===== verification/Store.thy ===== *)
theory Store
  imports World
begin

text \<open>
  \<^verbatim>\<open>sidecar/internal/store\<close>: every statement of \<^verbatim>\<open>repos.go\<close> over the tables, with the primary keys and
  CHECK constraints of \<^verbatim>\<open>sqlite.go\<close>, and the janitor's sweep. One statement is one atomic step (the
  pool holds a single connection); a driver failure leaves the database as it was. The interfaces
  \<open>row_table\<close> and \<open>ticket_table\<close> state what insert, lookup and delete by key promise; the client,
  session, code and refresh-token tables are their instances.
\<close>

section \<open>SQL statements over a list of rows\<close>

definition sql_insert :: "('r \<Rightarrow> 'k) \<Rightarrow> 'r \<Rightarrow> 'r list \<Rightarrow> 'r list option" where
  "sql_insert key r t = (if key r \<in> key ` set t then None else Some (t @ [r]))"

definition sql_get :: "('r \<Rightarrow> 'k) \<Rightarrow> 'k \<Rightarrow> 'r list \<Rightarrow> 'r option" where
  "sql_get key k t = List.find (\<lambda>r. key r = k) t"

definition sql_delete :: "('r \<Rightarrow> bool) \<Rightarrow> 'r list \<Rightarrow> 'r list" where
  "sql_delete P t = filter (\<lambda>r. \<not> P r) t"

definition sql_update :: "('r \<Rightarrow> bool) \<Rightarrow> ('r \<Rightarrow> 'r) \<Rightarrow> 'r list \<Rightarrow> 'r list" where
  "sql_update P f t = map (\<lambda>r. if P r then f r else r) t"

abbreviation unique_key :: "('r \<Rightarrow> 'k) \<Rightarrow> 'r list \<Rightarrow> bool" where
  "unique_key key t \<equiv> distinct (map key t)"

lemma sql_insert_unique: "sql_insert key r t = Some t' \<Longrightarrow> unique_key key t \<Longrightarrow> unique_key key t'"
  by (auto simp: sql_insert_def split: if_splits)

lemma sql_delete_unique: "unique_key key t \<Longrightarrow> unique_key key (sql_delete P t)"
  by (simp add: sql_delete_def distinct_map_filter)

lemma sql_update_unique: "(\<And>r. key (f r) = key r) \<Longrightarrow> unique_key key t \<Longrightarrow> unique_key key (sql_update P f t)"
  by (simp add: sql_update_def comp_def if_distrib cong: if_cong)

lemma sql_get_Some: "sql_get key k t = Some r \<Longrightarrow> r \<in> set t \<and> key r = k"
  by (auto simp: sql_get_def find_Some_iff)

lemma sql_get_None: "sql_get key k t = None \<longleftrightarrow> k \<notin> key ` set t"
  by (auto simp: sql_get_def find_None_iff)

lemma sql_get_unique: "unique_key key t \<Longrightarrow> sql_get key k t = Some r \<longleftrightarrow> r \<in> set t \<and> key r = k"
proof
  assume u: "unique_key key t" and r: "r \<in> set t \<and> key r = k"
  then obtain r' where r': "sql_get key k t = Some r'" using sql_get_None [of key k t] by auto
  from sql_get_Some [OF this] r u have "r' = r" by (auto simp: distinct_map inj_on_def)
  with r' show "sql_get key k t = Some r" by simp
qed (rule sql_get_Some)

lemma sql_get_insert:
  "sql_insert key r t = Some t' \<Longrightarrow> sql_get key k t' = (if k = key r then Some r else sql_get key k t)"
proof -
  assume "sql_insert key r t = Some t'"
  then have t': "t' = t @ [r]" and new: "key r \<notin> key ` set t" by (auto simp: sql_insert_def split: if_splits)
  have "List.find P (xs @ ys) = (case List.find P xs of None \<Rightarrow> List.find P ys | Some x \<Rightarrow> Some x)" for P and xs ys :: "'a list"
    by (induction xs) auto
  then have "sql_get key k t' = (case sql_get key k t of None \<Rightarrow> sql_get key k [r] | Some x \<Rightarrow> Some x)"
    unfolding sql_get_def by (simp add: t')
  moreover have "k = key r \<Longrightarrow> sql_get key k t = None" using new by (simp add: sql_get_None)
  ultimately show ?thesis by (auto simp: sql_get_def split: option.split)
qed

lemma sql_get_delete_key: "sql_get key k (sql_delete (\<lambda>r. key r = k') t) = (if k = k' then None else sql_get key k t)"
  by (induction t) (auto simp: sql_get_def sql_delete_def)

lemma sql_get_update:
  "(\<And>r. key (f r) = key r) \<Longrightarrow>
   sql_get key k (sql_update P f t) = map_option (\<lambda>r. if P r then f r else r) (sql_get key k t)"
  by (induction t) (auto simp: sql_get_def sql_update_def)

lemma set_sql_delete [simp]: "r \<in> set (sql_delete P t) \<longleftrightarrow> r \<in> set t \<and> \<not> P r"
  by (auto simp: sql_delete_def)

section \<open>Signing keys\<close>

definition signing_status_ok :: "string \<Rightarrow> bool" where
  "signing_status_ok s \<longleftrightarrow> s \<in> {''next'', ''active'', ''retiring''}"

definition constraint_error :: goerr where
  "constraint_error = GoErr ''constraint failed''"

definition InsertSigningKey :: "env \<Rightarrow> string \<Rightarrow> string \<Rightarrow> bytes \<Rightarrow> bytes \<Rightarrow> time \<Rightarrow> string \<Rightarrow> unit result eff" where
  "InsertSigningKey E kid alg privPEM pubPEM retiresAt status = do {
     now \<leftarrow> time_Now E;
     db_stmt E ''InsertSigningKey'' (\<lambda>d.
       if \<not> signing_status_ok status then (Inl (GoWrap ''InsertSigningKey'' constraint_error), d)
       else case sql_insert sk_Kid
           \<lparr>sk_Kid = kid, sk_Alg = alg, sk_PrivatePEM = privPEM, sk_PublicPEM = pubPEM,
            sk_CreatedAt = stored_time now, sk_RetiresAt = stored_time retiresAt, sk_Status = status\<rparr>
           (signing_keys d) of
         None \<Rightarrow> (Inl (GoWrap ''InsertSigningKey'' constraint_error), d)
       | Some t \<Rightarrow> (Inr (), d\<lparr>signing_keys := t\<rparr>)) }"

definition ListSigningKeys :: "env \<Rightarrow> SigningKey list result eff" where
  "ListSigningKeys E = db_stmt E ''ListSigningKeys'' (\<lambda>d.
     (Inr (filter (\<lambda>k. sk_Status k \<in> {''active'', ''next'', ''retiring''}) (signing_keys d)), d))"

definition GetActiveSigningKey :: "env \<Rightarrow> SigningKey option result eff" where
  "GetActiveSigningKey E = db_stmt E ''GetActiveSigningKey'' (\<lambda>d.
     (Inr (List.find (\<lambda>k. sk_Status k = ''active'') (signing_keys d)), d))"

definition UpdateSigningKeyStatus :: "env \<Rightarrow> string \<Rightarrow> string \<Rightarrow> time \<Rightarrow> unit result eff" where
  "UpdateSigningKeyStatus E kid status retiresAt = db_stmt E ''UpdateSigningKeyStatus'' (\<lambda>d.
     if \<not> signing_status_ok status \<and> (\<exists>k \<in> set (signing_keys d). sk_Kid k = kid)
     then (Inl (GoWrap ''UpdateSigningKeyStatus'' constraint_error), d)
     else (Inr (), d\<lparr>signing_keys := sql_update (\<lambda>k. sk_Kid k = kid)
             (\<lambda>k. k\<lparr>sk_Status := status, sk_RetiresAt := stored_time retiresAt\<rparr>) (signing_keys d)\<rparr>))"

definition key_expired :: "time \<Rightarrow> SigningKey \<Rightarrow> bool" where
  "key_expired now k \<longleftrightarrow> sk_Status k = ''retiring'' \<and> unix_sec (sk_RetiresAt k) \<le> unix_sec now"

definition DeleteExpiredSigningKeys :: "env \<Rightarrow> unit result eff" where
  "DeleteExpiredSigningKeys E = do {
     now \<leftarrow> time_Now E;
     db_stmt E ''DeleteExpiredSigningKeys'' (\<lambda>d.
       (Inr (), d\<lparr>signing_keys := sql_delete (key_expired now) (signing_keys d)\<rparr>)) }"

section \<open>Clients\<close>

definition InsertClient :: "env \<Rightarrow> Client \<Rightarrow> unit result eff" where
  "InsertClient E c = do {
     lastUsed \<leftarrow> (if cl_LastUsedAt c = zero_time then time_Now E else State_Monad.return (cl_LastUsedAt c));
     db_stmt E ''InsertClient'' (\<lambda>d.
       case sql_insert cl_ClientID
           (c\<lparr>cl_CreatedAt := stored_time (cl_CreatedAt c), cl_LastUsedAt := stored_time lastUsed\<rparr>) (clients d) of
         None \<Rightarrow> (Inl (GoWrap ''InsertClient'' constraint_error), d)
       | Some t \<Rightarrow> (Inr (), d\<lparr>clients := t\<rparr>)) }"

definition GetClient :: "env \<Rightarrow> string \<Rightarrow> Client option result eff" where
  "GetClient E clientID = db_stmt E ''GetClient'' (\<lambda>d. (Inr (sql_get cl_ClientID clientID (clients d)), d))"

definition TouchClient :: "env \<Rightarrow> string \<Rightarrow> unit result eff" where
  "TouchClient E clientID = do {
     now \<leftarrow> time_Now E;
     db_stmt E ''TouchClient'' (\<lambda>d.
       (Inr (), d\<lparr>clients := sql_update (\<lambda>c. cl_ClientID c = clientID)
          (\<lambda>c. c\<lparr>cl_LastUsedAt := stored_time now\<rparr>) (clients d)\<rparr>)) }"

definition client_stale :: "int \<Rightarrow> Client \<Rightarrow> bool" where
  "client_stale cutoff c \<longleftrightarrow>
     (if unix_sec (cl_LastUsedAt c) = 0 then unix_sec (cl_CreatedAt c) else unix_sec (cl_LastUsedAt c)) < cutoff"

definition DeleteStaleClients :: "env \<Rightarrow> int \<Rightarrow> nat result eff" where
  "DeleteStaleClients E olderThan = do {
     now \<leftarrow> time_Now E;
     res \<leftarrow> db_stmt E ''DeleteStaleClients'' (\<lambda>d.
       let cutoff = unix_sec (now + wrap64 (- olderThan)) in
       (Inr (length (filter (client_stale cutoff) (clients d))),
        d\<lparr>clients := sql_delete (client_stale cutoff) (clients d)\<rparr>));
     case res of
       Inl e \<Rightarrow> State_Monad.return (Inl e)
     | Inr n \<Rightarrow> db_stmt E ''DeleteStaleClients rows'' (\<lambda>d. (Inr n, d)) }"

section \<open>Authorization sessions\<close>

definition InsertAuthSession :: "env \<Rightarrow> AuthSession \<Rightarrow> unit result eff" where
  "InsertAuthSession E s = db_stmt E ''InsertAuthSession'' (\<lambda>d.
     case sql_insert se_State
         (s\<lparr>se_CreatedAt := stored_time (se_CreatedAt s), se_ExpiresAt := stored_time (se_ExpiresAt s)\<rparr>) (auth_sessions d) of
       None \<Rightarrow> (Inl (GoWrap ''InsertAuthSession'' constraint_error), d)
     | Some t \<Rightarrow> (Inr (), d\<lparr>auth_sessions := t\<rparr>))"

definition GetAuthSession :: "env \<Rightarrow> string \<Rightarrow> AuthSession option result eff" where
  "GetAuthSession E st = db_stmt E ''GetAuthSession'' (\<lambda>d. (Inr (sql_get se_State st (auth_sessions d)), d))"

definition DeleteAuthSession :: "env \<Rightarrow> string \<Rightarrow> unit result eff" where
  "DeleteAuthSession E st = db_stmt E ''DeleteAuthSession'' (\<lambda>d.
     (Inr (), d\<lparr>auth_sessions := sql_delete (\<lambda>s. se_State s = st) (auth_sessions d)\<rparr>))"

definition session_expired :: "time \<Rightarrow> AuthSession \<Rightarrow> bool" where
  "session_expired now s \<longleftrightarrow> unix_sec (se_ExpiresAt s) \<le> unix_sec now"

definition DeleteExpiredAuthSessions :: "env \<Rightarrow> unit result eff" where
  "DeleteExpiredAuthSessions E = do {
     now \<leftarrow> time_Now E;
     db_stmt E ''DeleteExpiredAuthSessions'' (\<lambda>d.
       (Inr (), d\<lparr>auth_sessions := sql_delete (session_expired now) (auth_sessions d)\<rparr>)) }"

section \<open>Authorization codes\<close>

text \<open>\<open>nullBytes\<close>: an empty blob is stored as NULL and read back as nil, so it is the empty byte
  sequence on both sides.\<close>

definition InsertCode :: "env \<Rightarrow> Code \<Rightarrow> unit result eff" where
  "InsertCode E c = db_stmt E ''InsertCode'' (\<lambda>d.
     case sql_insert co_Code (c\<lparr>co_ExpiresAt := stored_time (co_ExpiresAt c)\<rparr>) (codes d) of
       None \<Rightarrow> (Inl (GoWrap ''InsertCode'' constraint_error), d)
     | Some t \<Rightarrow> (Inr (), d\<lparr>codes := t\<rparr>))"

definition GetCode :: "env \<Rightarrow> string \<Rightarrow> Code option result eff" where
  "GetCode E code = db_stmt E ''GetCode'' (\<lambda>d. (Inr (sql_get co_Code code (codes d)), d))"

definition DeleteCode :: "env \<Rightarrow> string \<Rightarrow> unit result eff" where
  "DeleteCode E code = db_stmt E ''DeleteCode'' (\<lambda>d.
     (Inr (), d\<lparr>codes := sql_delete (\<lambda>c. co_Code c = code) (codes d)\<rparr>))"

definition code_expired :: "time \<Rightarrow> Code \<Rightarrow> bool" where
  "code_expired now c \<longleftrightarrow> unix_sec (co_ExpiresAt c) \<le> unix_sec now"

definition DeleteExpiredCodes :: "env \<Rightarrow> unit result eff" where
  "DeleteExpiredCodes E = do {
     now \<leftarrow> time_Now E;
     db_stmt E ''DeleteExpiredCodes'' (\<lambda>d.
       (Inr (), d\<lparr>codes := sql_delete (code_expired now) (codes d)\<rparr>)) }"

section \<open>Refresh tokens\<close>

definition InsertRefreshToken :: "env \<Rightarrow> RefreshToken \<Rightarrow> unit result eff" where
  "InsertRefreshToken E rt = db_stmt E ''InsertRefreshToken'' (\<lambda>d.
     case sql_insert rt_TokenHash (rt\<lparr>rt_ExpiresAt := stored_time (rt_ExpiresAt rt)\<rparr>) (refresh_tokens d) of
       None \<Rightarrow> (Inl (GoWrap ''InsertRefreshToken'' constraint_error), d)
     | Some t \<Rightarrow> (Inr (), d\<lparr>refresh_tokens := t\<rparr>))"

definition GetRefreshTokenByHash :: "env \<Rightarrow> string \<Rightarrow> RefreshToken option result eff" where
  "GetRefreshTokenByHash E hash = db_stmt E ''GetRefreshTokenByHash'' (\<lambda>d.
     (Inr (sql_get rt_TokenHash hash (refresh_tokens d)), d))"

definition DeleteRefreshTokenByHash :: "env \<Rightarrow> string \<Rightarrow> unit result eff" where
  "DeleteRefreshTokenByHash E hash = db_stmt E ''DeleteRefreshTokenByHash'' (\<lambda>d.
     (Inr (), d\<lparr>refresh_tokens := sql_delete (\<lambda>r. rt_TokenHash r = hash) (refresh_tokens d)\<rparr>))"

definition refresh_expired :: "time \<Rightarrow> RefreshToken \<Rightarrow> bool" where
  "refresh_expired now r \<longleftrightarrow> unix_sec (rt_ExpiresAt r) \<le> unix_sec now"

definition DeleteExpiredRefreshTokens :: "env \<Rightarrow> unit result eff" where
  "DeleteExpiredRefreshTokens E = do {
     now \<leftarrow> time_Now E;
     db_stmt E ''DeleteExpiredRefreshTokens'' (\<lambda>d.
       (Inr (), d\<lparr>refresh_tokens := sql_delete (refresh_expired now) (refresh_tokens d)\<rparr>)) }"

section \<open>Resource configurations, audit events, encryption keys\<close>

definition UpsertResourceConfig :: "env \<Rightarrow> ResourceRow \<Rightarrow> unit result eff" where
  "UpsertResourceConfig E rc = db_stmt E ''UpsertResourceConfig'' (\<lambda>d.
     let row = rc\<lparr>rr_UpdatedAt := stored_time (rr_UpdatedAt rc)\<rparr> in
     (Inr (), d\<lparr>resource_configs :=
        (case sql_insert rr_Name row (resource_configs d) of
           Some t \<Rightarrow> t
         | None \<Rightarrow> sql_update (\<lambda>r. rr_Name r = rr_Name rc) (\<lambda>_. row) (resource_configs d))\<rparr>))"

definition GetResourceConfig :: "env \<Rightarrow> string \<Rightarrow> ResourceRow option result eff" where
  "GetResourceConfig E name = db_stmt E ''GetResourceConfig'' (\<lambda>d.
     (Inr (sql_get rr_Name name (resource_configs d)), d))"

definition CountAuditEvents :: "env \<Rightarrow> nat result eff" where
  "CountAuditEvents E = db_stmt E ''CountAuditEvents'' (\<lambda>d. (Inr (length (audit_events d)), d))"

definition InsertAuditEvent :: "env \<Rightarrow> string \<Rightarrow> string \<Rightarrow> string \<Rightarrow> string \<Rightarrow> string \<Rightarrow> bool \<Rightarrow> unit result eff" where
  "InsertAuditEvent E eventType clientID sub ip detailsJSON success = do {
     now \<leftarrow> time_Now E;
     db_stmt E ''InsertAuditEvent'' (\<lambda>d.
       (Inr (), d\<lparr>audit_events := audit_events d @
          [\<lparr>ar_EventType = eventType, ar_ClientID = clientID, ar_Sub = sub, ar_IP = ip,
            ar_Success = (if success then 1 else 0), ar_DetailsJSON = detailsJSON, ar_Timestamp = unix_sec now\<rparr>]\<rparr>)) }"

definition encryption_status_ok :: "string \<Rightarrow> bool" where
  "encryption_status_ok s \<longleftrightarrow> s \<in> {''active'', ''retired''}"

definition ListEncryptionKeys :: "env \<Rightarrow> EncryptionKey list result eff" where
  "ListEncryptionKeys E = db_stmt E ''ListEncryptionKeys'' (\<lambda>d. (Inr (encryption_keys d), d))"

definition InsertEncryptionKey :: "env \<Rightarrow> EncryptionKey \<Rightarrow> unit result eff" where
  "InsertEncryptionKey E k = do {
     created \<leftarrow> (if ek_CreatedAt k = zero_time then time_Now E else State_Monad.return (ek_CreatedAt k));
     db_stmt E ''InsertEncryptionKey'' (\<lambda>d.
       if \<not> encryption_status_ok (ek_Status k) then (Inl (GoWrap ''InsertEncryptionKey'' constraint_error), d)
       else case sql_insert ek_KeyID (k\<lparr>ek_CreatedAt := stored_time created\<rparr>) (encryption_keys d) of
         None \<Rightarrow> (Inl (GoWrap ''InsertEncryptionKey'' constraint_error), d)
       | Some t \<Rightarrow> (Inr (), d\<lparr>encryption_keys := t\<rparr>)) }"

definition SetEncryptionKeyStatus :: "env \<Rightarrow> string \<Rightarrow> string \<Rightarrow> unit result eff" where
  "SetEncryptionKeyStatus E keyID status = db_stmt E ''SetEncryptionKeyStatus'' (\<lambda>d.
     if \<not> encryption_status_ok status \<and> (\<exists>k \<in> set (encryption_keys d). ek_KeyID k = keyID)
     then (Inl (GoWrap ''SetEncryptionKeyStatus'' constraint_error), d)
     else (Inr (), d\<lparr>encryption_keys := sql_update (\<lambda>k. ek_KeyID k = keyID)
             (\<lambda>k. k\<lparr>ek_Status := status\<rparr>) (encryption_keys d)\<rparr>))"

section \<open>The janitor\<close>

text \<open>One tick of \<^verbatim>\<open>store.Run\<close>: five deletions in order, each one's failure only logged.\<close>

definition janitor_tick :: "env \<Rightarrow> int \<Rightarrow> unit eff" where
  "janitor_tick E clientTTL = do {
     _ \<leftarrow> DeleteExpiredAuthSessions E;
     _ \<leftarrow> DeleteExpiredCodes E;
     _ \<leftarrow> DeleteExpiredRefreshTokens E;
     _ \<leftarrow> DeleteExpiredSigningKeys E;
     _ \<leftarrow> DeleteStaleClients E clientTTL;
     State_Monad.return () }"

text \<open>The same five clean-ups one at a time: other goroutines run between them.\<close>

definition janitor_stmts :: "env \<Rightarrow> int \<Rightarrow> unit eff list" where
  "janitor_stmts E clientTTL =
     [do { _ \<leftarrow> DeleteExpiredAuthSessions E; State_Monad.return () }, do { _ \<leftarrow> DeleteExpiredCodes E; State_Monad.return () },
      do { _ \<leftarrow> DeleteExpiredRefreshTokens E; State_Monad.return () }, do { _ \<leftarrow> DeleteExpiredSigningKeys E; State_Monad.return () },
      do { _ \<leftarrow> DeleteStaleClients E clientTTL; State_Monad.return () }]"

section \<open>Symbolic execution of the statements\<close>

named_theorems store_run \<open>what each statement returns and how it changes the world\<close>

abbreviation db_error :: "string \<Rightarrow> goerr" where
  "db_error what \<equiv> GoWrap what (GoErr ''database'')"

lemma run_GetClient [store_run]:
  "run_state (GetClient E k) w = (if db_fail E (w_tick w) then (Inl (db_error ''GetClient''), bump w)
     else (Inr (sql_get cl_ClientID k (clients (w_db w))), bump w))"
  by (simp add: GetClient_def run_db_stmt bump_def)

lemma run_GetAuthSession [store_run]:
  "run_state (GetAuthSession E k) w = (if db_fail E (w_tick w) then (Inl (db_error ''GetAuthSession''), bump w)
     else (Inr (sql_get se_State k (auth_sessions (w_db w))), bump w))"
  by (simp add: GetAuthSession_def run_db_stmt bump_def)

lemma run_GetCode [store_run]:
  "run_state (GetCode E k) w = (if db_fail E (w_tick w) then (Inl (db_error ''GetCode''), bump w)
     else (Inr (sql_get co_Code k (codes (w_db w))), bump w))"
  by (simp add: GetCode_def run_db_stmt bump_def)

lemma run_GetRefreshTokenByHash [store_run]:
  "run_state (GetRefreshTokenByHash E k) w =
     (if db_fail E (w_tick w) then (Inl (db_error ''GetRefreshTokenByHash''), bump w)
      else (Inr (sql_get rt_TokenHash k (refresh_tokens (w_db w))), bump w))"
  by (simp add: GetRefreshTokenByHash_def run_db_stmt bump_def)

lemma run_GetActiveSigningKey [store_run]:
  "run_state (GetActiveSigningKey E) w = (if db_fail E (w_tick w) then (Inl (db_error ''GetActiveSigningKey''), bump w)
     else (Inr (List.find (\<lambda>k. sk_Status k = ''active'') (signing_keys (w_db w))), bump w))"
  by (simp add: GetActiveSigningKey_def run_db_stmt bump_def)

lemma run_ListSigningKeys [store_run]:
  "run_state (ListSigningKeys E) w = (if db_fail E (w_tick w) then (Inl (db_error ''ListSigningKeys''), bump w)
     else (Inr (filter (\<lambda>k. sk_Status k \<in> {''active'', ''next'', ''retiring''}) (signing_keys (w_db w))), bump w))"
  by (simp add: ListSigningKeys_def run_db_stmt bump_def)

lemma run_TouchClient [store_run]:
  "run_state (TouchClient E k) w =
     (if db_fail E (Suc (w_tick w)) then (Inl (db_error ''TouchClient''), bump (bump w))
      else (Inr (), (bump (bump w))\<lparr>w_db := (w_db w)\<lparr>clients := sql_update (\<lambda>c. cl_ClientID c = k)
        (\<lambda>c. c\<lparr>cl_LastUsedAt := stored_time (clock E (w_tick w))\<rparr>) (clients (w_db w))\<rparr>\<rparr>))"
  by (simp add: TouchClient_def run_db_stmt)

lemma run_DeleteAuthSession [store_run]:
  "run_state (DeleteAuthSession E k) w =
     (if db_fail E (w_tick w) then (Inl (db_error ''DeleteAuthSession''), bump w)
      else (Inr (), (bump w)\<lparr>w_db := (w_db w)\<lparr>auth_sessions := sql_delete (\<lambda>s. se_State s = k) (auth_sessions (w_db w))\<rparr>\<rparr>))"
  by (simp add: DeleteAuthSession_def run_db_stmt)

lemma run_DeleteCode [store_run]:
  "run_state (DeleteCode E k) w =
     (if db_fail E (w_tick w) then (Inl (db_error ''DeleteCode''), bump w)
      else (Inr (), (bump w)\<lparr>w_db := (w_db w)\<lparr>codes := sql_delete (\<lambda>c. co_Code c = k) (codes (w_db w))\<rparr>\<rparr>))"
  by (simp add: DeleteCode_def run_db_stmt)

lemma run_DeleteRefreshTokenByHash [store_run]:
  "run_state (DeleteRefreshTokenByHash E k) w =
     (if db_fail E (w_tick w) then (Inl (db_error ''DeleteRefreshTokenByHash''), bump w)
      else (Inr (), (bump w)\<lparr>w_db := (w_db w)\<lparr>refresh_tokens :=
        sql_delete (\<lambda>r. rt_TokenHash r = k) (refresh_tokens (w_db w))\<rparr>\<rparr>))"
  by (simp add: DeleteRefreshTokenByHash_def run_db_stmt)

section \<open>Interfaces of the tables\<close>

text \<open>
  A table with a primary key: an insert either appends the row (as the columns keep it) under a key
  that was free, or fails and changes nothing; a lookup changes nothing and finds the row of the
  key.
\<close>

locale row_table =
  fixes Insert :: "env \<Rightarrow> 'r \<Rightarrow> unit result eff"
    and Get :: "env \<Rightarrow> string \<Rightarrow> 'r option result eff"
    and key :: "'r \<Rightarrow> string"
    and rows :: "db \<Rightarrow> 'r list"
    and stored_as :: "'r \<Rightarrow> 'r \<Rightarrow> bool"
  assumes insert_ok: "run_state (Insert E r) w = (Inr (), w') \<Longrightarrow>
      \<exists>r'. stored_as r r' \<and> key r' = key r \<and> key r \<notin> key ` set (rows (w_db w)) \<and> rows (w_db w') = rows (w_db w) @ [r']"
    and insert_err: "run_state (Insert E r) w = (Inl e, w') \<Longrightarrow> w_db w' = w_db w"
    and get_db: "run_state (Get E k) w = (x, w') \<Longrightarrow> w_db w' = w_db w"
    and get_ok: "run_state (Get E k) w = (Inr y, w') \<Longrightarrow> y = sql_get key k (rows (w_db w))"
begin

lemma insert_duplicate:
  assumes "run_state (Insert E r) w = (x, w')" "key r \<in> key ` set (rows (w_db w))"
  shows "\<exists>e. x = Inl e" "w_db w' = w_db w"
proof -
  show ex: "\<exists>e. x = Inl e"
  proof (cases x)
    case (Inr u)
    with assms insert_ok [of E r w w'] show ?thesis by auto
  qed simp
  with assms insert_err show "w_db w' = w_db w" by auto
qed

lemma insert_unique:
  "run_state (Insert E r) w = (x, w') \<Longrightarrow> unique_key key (rows (w_db w)) \<Longrightarrow> unique_key key (rows (w_db w'))"
  using insert_ok [of E r w w'] insert_err [of E r w _ w'] by (cases x) auto

lemma get_after_insert:
  assumes "run_state (Insert E r) w = (Inr (), w1)" "w_db w2 = w_db w1" "run_state (Get E (key r)) w2 = (Inr y, w3)"
  shows "\<exists>r'. y = Some r' \<and> stored_as r r'"
proof -
  from insert_ok [OF assms(1)] obtain r' where r': "stored_as r r'" "key r' = key r"
    "key r \<notin> key ` set (rows (w_db w))" "rows (w_db w1) = rows (w_db w) @ [r']" by blast
  then have "sql_insert key r' (rows (w_db w)) = Some (rows (w_db w1))" by (simp add: sql_insert_def)
  from sql_get_insert [OF this, of "key r"] r' get_ok [OF assms(3)] assms(2) show ?thesis by simp
qed

end

text \<open>A table of single-use tickets also deletes by key.\<close>

locale ticket_table = row_table Insert Get key rows stored_as
  for Insert :: "env \<Rightarrow> 'r \<Rightarrow> unit result eff" and Get key rows stored_as +
  fixes Delete :: "env \<Rightarrow> string \<Rightarrow> unit result eff"
  assumes delete_ok: "run_state (Delete E k) w = (Inr (), w') \<Longrightarrow> rows (w_db w') = sql_delete (\<lambda>r. key r = k) (rows (w_db w))"
    and delete_err: "run_state (Delete E k) w = (Inl e, w') \<Longrightarrow> w_db w' = w_db w \<and> db_fail E (w_tick w)"
begin

lemma get_after_delete:
  assumes "run_state (Delete E k) w = (Inr (), w1)" "set (rows (w_db w2)) \<subseteq> set (rows (w_db w1))"
    "run_state (Get E k) w2 = (Inr y, w3)"
  shows "y = None"
proof -
  from delete_ok [OF assms(1)] assms(2) have "k \<notin> key ` set (rows (w_db w2))" by auto
  with get_ok [OF assms(3)] sql_get_None show ?thesis by metis
qed

lemma delete_keeps_others:
  assumes "run_state (Delete E k) w = (x, w')" "k' \<noteq> k"
  shows "sql_get key k' (rows (w_db w')) = sql_get key k' (rows (w_db w))"
  using assms delete_ok [of E k w w'] delete_err [of E k w _ w'] by (cases x) (auto simp: sql_get_delete_key)

lemma delete_unique:
  "run_state (Delete E k) w = (x, w') \<Longrightarrow> unique_key key (rows (w_db w)) \<Longrightarrow> unique_key key (rows (w_db w'))"
  using delete_ok [of E k w w'] delete_err [of E k w _ w'] by (cases x) (auto simp: sql_delete_unique)

end

lemmas insert_split = if_splits option.splits prod.splits

interpretation client_rows: row_table InsertClient GetClient cl_ClientID clients
  "\<lambda>c c'. c' = c\<lparr>cl_CreatedAt := stored_time (cl_CreatedAt c), cl_LastUsedAt := cl_LastUsedAt c'\<rparr>"
  by unfold_locales
    (auto simp: InsertClient_def run_db_stmt sql_insert_def store_run split: insert_split)

interpretation session_rows: ticket_table InsertAuthSession GetAuthSession se_State auth_sessions
  "\<lambda>s s'. s' = s\<lparr>se_CreatedAt := stored_time (se_CreatedAt s), se_ExpiresAt := stored_time (se_ExpiresAt s)\<rparr>"
  DeleteAuthSession
  by unfold_locales
    (auto simp: InsertAuthSession_def run_db_stmt sql_insert_def store_run split: insert_split)

interpretation code_rows: ticket_table InsertCode GetCode co_Code codes
  "\<lambda>c c'. c' = c\<lparr>co_ExpiresAt := stored_time (co_ExpiresAt c)\<rparr>" DeleteCode
  by unfold_locales
    (auto simp: InsertCode_def run_db_stmt sql_insert_def store_run split: insert_split)

interpretation refresh_rows: ticket_table InsertRefreshToken GetRefreshTokenByHash rt_TokenHash refresh_tokens
  "\<lambda>r r'. r' = r\<lparr>rt_ExpiresAt := stored_time (rt_ExpiresAt r)\<rparr>" DeleteRefreshTokenByHash
  by unfold_locales
    (auto simp: InsertRefreshToken_def run_db_stmt sql_insert_def store_run split: insert_split)

text \<open>The whole effect of a successful insert.\<close>

lemma InsertRefreshToken_ok:
  "run_state (InsertRefreshToken E r) w = (Inr u, w') \<Longrightarrow> rt_TokenHash r \<notin> rt_TokenHash ` set (refresh_tokens (w_db w)) \<and>
   w_db w' = (w_db w)\<lparr>refresh_tokens := refresh_tokens (w_db w) @ [r\<lparr>rt_ExpiresAt := stored_time (rt_ExpiresAt r)\<rparr>]\<rparr>"
  by (auto simp: InsertRefreshToken_def run_db_stmt sql_insert_def split: if_splits)

lemma InsertCode_ok:
  "run_state (InsertCode E c) w = (Inr u, w') \<Longrightarrow> co_Code c \<notin> co_Code ` set (codes (w_db w)) \<and>
   w_db w' = (w_db w)\<lparr>codes := codes (w_db w) @ [c\<lparr>co_ExpiresAt := stored_time (co_ExpiresAt c)\<rparr>]\<rparr>"
  by (auto simp: InsertCode_def run_db_stmt sql_insert_def split: if_splits)

lemma InsertAuthSession_ok:
  "run_state (InsertAuthSession E s) w = (Inr u, w') \<Longrightarrow> se_State s \<notin> se_State ` set (auth_sessions (w_db w)) \<and>
   w_db w' = (w_db w)\<lparr>auth_sessions := auth_sessions (w_db w) @
     [s\<lparr>se_CreatedAt := stored_time (se_CreatedAt s), se_ExpiresAt := stored_time (se_ExpiresAt s)\<rparr>]\<rparr>"
  by (auto simp: InsertAuthSession_def run_db_stmt sql_insert_def split: if_splits)

lemma InsertClient_ok:
  assumes "run_state (InsertClient E c) w = (Inr u, w')"
  shows "cl_ClientID c \<notin> cl_ClientID ` set (clients (w_db w)) \<and>
    (\<exists>t. w_db w' = (w_db w)\<lparr>clients := clients (w_db w) @
      [c\<lparr>cl_CreatedAt := stored_time (cl_CreatedAt c), cl_LastUsedAt := stored_time t\<rparr>]\<rparr>)"
  using assms by (auto simp: InsertClient_def run_db_stmt sql_insert_def split: if_splits)

lemmas insert_errors = client_rows.insert_err session_rows.insert_err code_rows.insert_err refresh_rows.insert_err

end
