(* ===== verification/Sample.thy ===== *)
theory Sample
  imports Store
begin

text \<open>
  A concrete environment, on which the witnesses run the model: a clock that ticks once a second, a
  random source that counts, a database that never fails, and toy primitives with the documented
  behaviour of the real ones. It shows that the named hypotheses can hold together.
\<close>

definition sample_key :: bytes where
  "sample_key = replicate 32 CHR ''k''"

definition sample_sig :: bytes where
  "sample_sig = replicate 64 CHR ''s''"

definition sample_env :: env where
  "sample_env = \<lparr>
     clock = (\<lambda>i. time_Unix (1700000000 + int i)),
     db_fail = (\<lambda>i. False),
     rng = (\<lambda>i n. Some (replicate n (byte_of (i mod 256)))),
     os_env = (\<lambda>_. []),
     http_do = (\<lambda>i q. Inl (GoErr ''connection refused'')),
     url_Parse = (\<lambda>s. Inl (GoErr ''parse'')),
     url_ParseRequestURI = (\<lambda>s. Inl (GoErr ''parse'')),
     ed25519_GenerateKey = (\<lambda>i. Some (sample_key, sample_key)),
     ed25519_Sign = (\<lambda>priv m. sample_sig),
     ed25519_Verify = (\<lambda>pub m s. pub = sample_key \<and> s = sample_sig),
     rsa_VerifyPKCS1v15 = (\<lambda>k m s. False),
     pem_EncodeToMemory = (\<lambda>t b. b),
     pem_Decode = Some,
     x509_MarshalPKCS8PrivateKey = Inr,
     x509_ParsePKCS8PrivateKey = (\<lambda>b. Inr (Ed25519Key b)),
     x509_MarshalPKIXPublicKey = Inr,
     x509_ParsePKIXPublicKey = (\<lambda>b. Inr (Ed25519Key b)),
     gcm_Seal = (\<lambda>k n p. p @ n),
     gcm_Open = (\<lambda>k n c. if length n \<le> length c \<and> drop (length c - length n) c = n
                         then Some (take (length c - length n) c) else None),
     f64_overflow = (\<lambda>_. 0)\<rparr>"

lemma sample_clock [simp]: "clock sample_env i = time_Unix (1700000000 + int i)"
  by (simp add: sample_env_def)

lemma sample_db_fail [simp]: "db_fail sample_env i = False"
  by (simp add: sample_env_def)

lemma sample_rng [simp]: "rng sample_env i n = Some (replicate n (byte_of (i mod 256)))"
  by (simp add: sample_env_def)

lemma sample_no_faults: "no_faults sample_env"
  by (simp add: no_faults_def)

lemma sample_clock_mono: "clock_mono sample_env"
  by (simp add: clock_mono_def time_Unix_def second_def)

lemma sample_gcm_ok: "gcm_ok sample_env"
  by (simp add: gcm_ok_def sample_env_def)

lemma sample_rng_ok: "rng_ok sample_env"
  by (simp add: rng_ok_def)

lemma sample_ed25519_ok: "ed25519_ok sample_env"
  by (simp add: ed25519_ok_def sample_env_def sample_sig_def sample_key_def)

lemma sample_pem_ok: "pem_ok sample_env"
  by (simp add: pem_ok_def sample_env_def)

definition sample_world :: world where
  "sample_world = \<lparr>w_tick = 0, w_db = empty_db, w_providers = []\<rparr>"

end
