(* ===== verification/Cipher.thy ===== *)
theory Cipher
  imports Sample
begin

text \<open>
  \<^verbatim>\<open>sidecar/internal/crypto/aesgcm.go\<close>: AES-256-GCM with key versioning. An AEAD is identified with its
  raw key; sealing and opening are the parameters \<open>gcm_Seal\<close> and \<open>gcm_Open\<close> of the environment. The
  lemmas show the versioned wire format is a codec, that every ciphertext decrypts under each
  cipher that still holds its key, how legacy ciphertexts are read, and what a cipher built from
  the \<^verbatim>\<open>encryption_keys\<close> table looks like.
\<close>

section \<open>Definitions\<close>

type_synonym aead = bytes

record Cipher =
  ci_keys :: "(string \<times> aead) list"
  ci_activeID :: string
  ci_legacy :: "aead option"

definition nonceSize :: nat where
  "nonceSize = 12"

definition versionedMagic :: bytes where
  "versionedMagic = [CHR 0xC1, CHR 0x70]"

definition bootstrapKeyID :: string where
  "bootstrapKeyID = ''k1''"

text \<open>The regular expression \<^verbatim>\<open>^[A-Za-z0-9_-]{1,63}$\<close>.\<close>

definition keyID_char :: "char \<Rightarrow> bool" where
  "keyID_char c \<longleftrightarrow> is_upper c \<or> is_lower c \<or> is_digit c \<or> c = CHR ''_'' \<or> c = CHR ''-''"

definition keyIDPattern :: "string \<Rightarrow> bool" where
  "keyIDPattern s \<longleftrightarrow> 1 \<le> length s \<and> length s \<le> 63 \<and> list_all keyID_char s"

definition aeadFromRaw :: "bytes \<Rightarrow> aead result" where
  "aeadFromRaw key = (if length key \<noteq> 32 then Inl (GoErr ''key must be 32 bytes'') else Inr key)"

fun try_encodings :: "b64 list \<Rightarrow> string \<Rightarrow> goerr \<Rightarrow> bytes result" where
  "try_encodings [] s lastErr = Inl (GoWrap ''decode key'' lastErr)"
| "try_encodings (enc # encs) s lastErr =
     (case b64_DecodeString enc s of
        Inr key \<Rightarrow> if length key \<noteq> 32 then Inl (GoErr ''key must be 32 bytes'') else Inr key
      | Inl e \<Rightarrow> try_encodings encs s e)"

definition decodeKeyMaterial :: "string \<Rightarrow> bytes result" where
  "decodeKeyMaterial keyBase64 =
     try_encodings [StdEncoding, RawStdEncoding, URLEncoding, RawURLEncoding] (TrimSpace keyBase64) (GoErr [])"

definition aeadFromBase64 :: "string \<Rightarrow> aead result" where
  "aeadFromBase64 keyBase64 =
     (case decodeKeyMaterial keyBase64 of Inl e \<Rightarrow> Inl e | Inr key \<Rightarrow> aeadFromRaw key)"

definition NewCipher :: "string \<Rightarrow> Cipher result" where
  "NewCipher keyBase64 =
     (case aeadFromBase64 keyBase64 of
        Inl e \<Rightarrow> Inl e
      | Inr aead \<Rightarrow> Inr \<lparr>ci_keys = [(bootstrapKeyID, aead)], ci_activeID = bootstrapKeyID, ci_legacy = Some aead\<rparr>)"

text \<open>The loop over the rows of \<^verbatim>\<open>encryption_keys\<close>.\<close>

fun load_rows :: "EncryptionKey list \<Rightarrow> Cipher \<Rightarrow> Cipher result" where
  "load_rows [] c = Inr c"
| "load_rows (row # rows) c =
     (if \<not> keyIDPattern (ek_KeyID row) then Inl (GoErr ''NewCipherWithStore: invalid key_id'')
      else case aeadFromRaw (ek_Material row) of
        Inl e \<Rightarrow> Inl (GoWrap ''NewCipherWithStore load'' e)
      | Inr aead \<Rightarrow>
          let c' = c\<lparr>ci_keys := alist_set (ek_KeyID row) aead (ci_keys c)\<rparr> in
          if ek_Status row = ''active'' then
            (if ci_activeID c' \<noteq> [] then Inl (GoErr ''NewCipherWithStore: multiple active keys'')
             else load_rows rows (c'\<lparr>ci_activeID := ek_KeyID row\<rparr>))
          else load_rows rows c')"

definition NewCipherWithStore :: "env \<Rightarrow> string \<Rightarrow> Cipher result eff" where
  "NewCipherWithStore E bootstrapKeyBase64 =
     (case aeadFromBase64 bootstrapKeyBase64 of
        Inl e \<Rightarrow> State_Monad.return (Inl (GoWrap ''NewCipherWithStore bootstrap'' e))
      | Inr legacyAEAD \<Rightarrow> do {
          r \<leftarrow> ListEncryptionKeys E;
          case r of
            Inl e \<Rightarrow> State_Monad.return (Inl (GoWrap ''NewCipherWithStore list'' e))
          | Inr rows \<Rightarrow>
              let c = \<lparr>ci_keys = [], ci_activeID = [], ci_legacy = Some legacyAEAD\<rparr> in
              if rows = [] then
                (case decodeKeyMaterial bootstrapKeyBase64 of
                   Inl e \<Rightarrow> State_Monad.return (Inl (GoWrap ''NewCipherWithStore decode bootstrap'' e))
                 | Inr mat \<Rightarrow> do {
                     now \<leftarrow> time_Now E;
                     s \<leftarrow> InsertEncryptionKey E
                       \<lparr>ek_KeyID = bootstrapKeyID, ek_Material = mat, ek_Status = ''active'', ek_CreatedAt = now\<rparr>;
                     case s of
                       Inl e \<Rightarrow> State_Monad.return (Inl (GoWrap ''NewCipherWithStore seed'' e))
                     | Inr _ \<Rightarrow> State_Monad.return (Inr (c\<lparr>ci_keys := [(bootstrapKeyID, legacyAEAD)], ci_activeID := bootstrapKeyID\<rparr>)) })
              else
                (case load_rows rows c of
                   Inl e \<Rightarrow> State_Monad.return (Inl e)
                 | Inr c' \<Rightarrow>
                     if ci_activeID c' = [] then State_Monad.return (Inl (GoErr ''NewCipherWithStore: no active key in encryption_keys''))
                     else State_Monad.return (Inr c')) })"

definition versioned_blob :: "string \<times> bytes \<times> bytes \<Rightarrow> bytes" where
  "versioned_blob = (\<lambda>(kid, nonce, ct). versionedMagic @ [byte_of (length kid)] @ kid @ nonce @ ct)"

definition Encrypt :: "env \<Rightarrow> Cipher \<Rightarrow> bytes \<Rightarrow> bytes result eff" where
  "Encrypt E c plaintext =
     (case map_of (ci_keys c) (ci_activeID c) of
        None \<Rightarrow> State_Monad.return (Inl (GoErr ''Encrypt: no active key''))
      | Some aead \<Rightarrow>
          if \<not> keyIDPattern (ci_activeID c) then State_Monad.return (Inl (GoErr ''Encrypt: invalid active key_id''))
          else do {
            r \<leftarrow> rand_Read E nonceSize;
            case r of
              Inl e \<Rightarrow> State_Monad.return (Inl (GoWrap ''Encrypt nonce'' e))
            | Inr nonce \<Rightarrow>
                State_Monad.return (Inr (versioned_blob (ci_activeID c, nonce, gcm_Seal E aead nonce plaintext))) })"

definition parseVersioned :: "bytes \<Rightarrow> (string \<times> bytes \<times> bytes) option" where
  "parseVersioned blob =
     (if length blob < 3 then None
      else if take 2 blob \<noteq> versionedMagic then None
      else let idLen = byte_val (blob ! 2) in
        if idLen < 1 \<or> idLen > 63 then None
        else if length blob < 3 + idLen + nonceSize then None
        else let kid = take idLen (drop 3 blob) in
          if \<not> keyIDPattern kid then None
          else Some (kid, take nonceSize (drop (3 + idLen) blob), drop (3 + idLen + nonceSize) blob))"

definition Decrypt :: "env \<Rightarrow> Cipher \<Rightarrow> bytes \<Rightarrow> bytes result" where
  "Decrypt E c blob =
     (case parseVersioned blob of
        Some (kid, nonce, ct) \<Rightarrow>
          (case map_of (ci_keys c) kid of
             None \<Rightarrow> Inl (GoErr ''Decrypt: unknown key_id'')
           | Some aead \<Rightarrow>
               (case gcm_Open E aead nonce ct of
                  None \<Rightarrow> Inl (GoWrap ''Decrypt versioned'' (GoErr ''cipher: message authentication failed''))
                | Some pt \<Rightarrow> Inr pt))
      | None \<Rightarrow>
          (case ci_legacy c of
             None \<Rightarrow> Inl (GoErr ''Decrypt: no legacy key available'')
           | Some aead \<Rightarrow>
               if length blob < nonceSize then Inl (GoErr ''Decrypt legacy: blob too short'')
               else (case gcm_Open E aead (take nonceSize blob) (drop nonceSize blob) of
                  None \<Rightarrow> Inl (GoWrap ''Decrypt legacy'' (GoErr ''cipher: message authentication failed''))
                | Some pt \<Rightarrow> Inr pt)))"

definition ActiveKeyID :: "Cipher \<Rightarrow> string" where
  "ActiveKeyID c = ci_activeID c"

text \<open>\<^verbatim>\<open>RandomKey\<close> panics when the random source fails: \<open>None\<close>.\<close>

definition RandomKey :: "env \<Rightarrow> string option eff" where
  "RandomKey E = do {
     r \<leftarrow> rand_Read E 32;
     State_Monad.return (case r of Inl _ \<Rightarrow> None | Inr key \<Rightarrow> Some (b64_EncodeToString StdEncoding key)) }"

section \<open>The wire format\<close>

definition blob_ok :: "string \<times> bytes \<times> bytes \<Rightarrow> bool" where
  "blob_ok = (\<lambda>(kid, nonce, ct). keyIDPattern kid \<and> length nonce = nonceSize)"

lemma parseVersioned_blob: "blob_ok x \<Longrightarrow> parseVersioned (versioned_blob x) = Some x"
proof -
  obtain kid nonce ct where x: "x = (kid, nonce, ct)" by (cases x)
  assume "blob_ok x"
  with x have kid: "keyIDPattern kid" and n: "length nonce = nonceSize" by (auto simp: blob_ok_def)
  from kid have len: "1 \<le> length kid" "length kid \<le> 63" by (auto simp: keyIDPattern_def)
  then have b: "byte_val (byte_of (length kid)) = length kid" "kid \<noteq> []" by auto
  have d: "drop (3 + n) (a # b # c # xs) = drop n xs" for n and a b c :: char and xs
    by (simp add: numeral_3_eq_3)
  have "drop 3 (versioned_blob x) = kid @ nonce @ ct" "versioned_blob x ! 2 = byte_of (length kid)"
    "take 2 (versioned_blob x) = versionedMagic"
    by (simp_all add: x versioned_blob_def versionedMagic_def numeral_3_eq_3 numeral_2_eq_2)
  moreover have "drop (3 + m) (versioned_blob x) = drop m (kid @ nonce @ ct)" for m
    by (simp add: x versioned_blob_def versionedMagic_def d)
  moreover have "length (versioned_blob x) = 3 + length kid + nonceSize + length ct"
    by (simp add: x n versioned_blob_def versionedMagic_def)
  ultimately show ?thesis
    using kid n len b by (simp add: parseVersioned_def Let_def x add.assoc)
qed

interpretation versioned: codec versioned_blob parseVersioned blob_ok
  by unfold_locales (rule parseVersioned_blob)

lemma Encrypt_ok:
  assumes "run_state (Encrypt E c p) w = (Inr ct, w')" "rng_ok E"
  shows "\<exists>aead nonce. map_of (ci_keys c) (ci_activeID c) = Some aead \<and>
    blob_ok (ci_activeID c, nonce, gcm_Seal E aead nonce p) \<and>
    ct = versioned_blob (ci_activeID c, nonce, gcm_Seal E aead nonce p)"
  using assms
  by (fastforce simp: Encrypt_def blob_ok_def rng_ok_def split: option.splits if_splits sum.splits)

lemma Decrypt_versioned:
  assumes "gcm_ok E" "blob_ok (kid, nonce, gcm_Seal E aead nonce p)" "map_of (ci_keys c) kid = Some aead"
    "length aead = 32"
  shows "Decrypt E c (versioned_blob (kid, nonce, gcm_Seal E aead nonce p)) = Inr p"
  using assms parseVersioned_blob [OF assms(2)] by (simp add: Decrypt_def gcm_ok_def blob_ok_def nonceSize_def)

lemma Encrypt_db: "run_state (Encrypt E c p) w = (x, w') \<Longrightarrow> w_db w' = w_db w"
  by (auto simp: Encrypt_def split: option.splits if_splits sum.splits)

lemma keeps_Encrypt [hoare_rules]: "keeps (\<lambda>w. I (w_db w)) (Encrypt E c p)"
  by (rule hoareI) (simp add: Encrypt_db)

section \<open>A cipher built from the table\<close>

definition cipher_wf :: "Cipher \<Rightarrow> bool" where
  "cipher_wf c \<longleftrightarrow> keyIDPattern (ci_activeID c) \<and> ci_activeID c \<in> dom (map_of (ci_keys c)) \<and>
     (\<exists>aead. ci_legacy c = Some aead \<and> length aead = 32) \<and> (\<forall>k \<in> ran (map_of (ci_keys c)). length k = 32)"

lemma bootstrap_pattern [simp]: "keyIDPattern bootstrapKeyID"
  by (simp add: keyIDPattern_def bootstrapKeyID_def keyID_char_def is_digit_def is_lower_def)

lemma aeadFromRaw_ok: "aeadFromRaw k = Inr a \<longleftrightarrow> a = k \<and> length k = 32"
  by (auto simp: aeadFromRaw_def)

lemma aeadFromBase64_ok: "aeadFromBase64 s = Inr a \<Longrightarrow> decodeKeyMaterial s = Inr a \<and> length a = 32"
  by (auto simp: aeadFromBase64_def aeadFromRaw_ok split: sum.splits)

lemma NewCipher_wf: "NewCipher s = Inr c \<Longrightarrow> cipher_wf c"
  by (auto simp: NewCipher_def cipher_wf_def aeadFromBase64_ok split: sum.splits)

text \<open>What the loop leaves: every row's key under its id, the one active row's id, nothing else.\<close>

definition active_ids :: "EncryptionKey list \<Rightarrow> string list" where
  "active_ids rows = map ek_KeyID (filter (\<lambda>r. ek_Status r = ''active'') rows)"

lemma load_rows_ok:
  "load_rows rows c = Inr c' \<Longrightarrow> unique_key ek_KeyID rows \<Longrightarrow>
   ci_legacy c' = ci_legacy c \<and>
   map_of (ci_keys c') = map_of (ci_keys c) ++ map_of (map (\<lambda>r. (ek_KeyID r, ek_Material r)) rows) \<and>
   (\<forall>r \<in> set rows. keyIDPattern (ek_KeyID r) \<and> length (ek_Material r) = 32) \<and>
   (if active_ids rows = [] then ci_activeID c' = ci_activeID c
    else ci_activeID c = [] \<and> active_ids rows = [ci_activeID c'])"
proof (induction rows arbitrary: c)
  case Nil
  then show ?case by (simp add: active_ids_def)
next
  case (Cons row rows)
  let ?c1 = "c\<lparr>ci_keys := alist_set (ek_KeyID row) (ek_Material row) (ci_keys c)\<rparr>"
  let ?c2 = "if ek_Status row = ''active'' then ?c1\<lparr>ci_activeID := ek_KeyID row\<rparr> else ?c1"
  from Cons.prems have pat: "keyIDPattern (ek_KeyID row)" and mat: "length (ek_Material row) = 32"
    and act: "ek_Status row = ''active'' \<Longrightarrow> ci_activeID c = []"
    and rest: "load_rows rows ?c2 = Inr c'"
    by (auto simp: aeadFromRaw_ok Let_def split: if_splits sum.splits)
  from pat have kid: "ek_KeyID row \<noteq> []" by (auto simp: keyIDPattern_def)
  from Cons.prems(2) have new: "ek_KeyID row \<notin> ek_KeyID ` set rows" and u: "unique_key ek_KeyID rows" by auto
  have upd: "(map_of (ci_keys c))(k \<mapsto> v) ++ map_of (map (\<lambda>r. (ek_KeyID r, ek_Material r)) rows) =
      map_of (ci_keys c) ++ (map_of (map (\<lambda>r. (ek_KeyID r, ek_Material r)) rows))(k \<mapsto> v)"
    if "k \<notin> ek_KeyID ` set rows" for k v
  proof -
    from that have "map_of (map (\<lambda>r. (ek_KeyID r, ek_Material r)) rows) k = None"
      by (auto simp: map_of_eq_None_iff)
    then show ?thesis by (auto simp: map_add_def fun_eq_iff split: option.split)
  qed
  from Cons.IH [OF rest u] show ?case
    using pat mat act kid upd [OF new] upd [OF new, unfolded fun_upd_def] by (auto simp: active_ids_def split: if_splits)
qed

lemma NewCipherWithStore_loaded:
  assumes "run_state (NewCipherWithStore E kb) w = (Inr c, w')" "encryption_keys (w_db w) \<noteq> []"
  shows "\<exists>aead. aeadFromBase64 kb = Inr aead \<and> w_db w' = w_db w \<and> ci_activeID c \<noteq> [] \<and>
    load_rows (encryption_keys (w_db w)) \<lparr>ci_keys = [], ci_activeID = [], ci_legacy = Some aead\<rparr> = Inr c"
  using assms
  by (fastforce simp: NewCipherWithStore_def ListEncryptionKeys_def run_db_stmt Let_def
      split: sum.splits if_splits)

lemma NewCipherWithStore_seeded:
  assumes "run_state (NewCipherWithStore E kb) w = (Inr c, w')" "encryption_keys (w_db w) = []"
  shows "\<exists>aead now. aeadFromBase64 kb = Inr aead \<and>
    c = \<lparr>ci_keys = [(bootstrapKeyID, aead)], ci_activeID = bootstrapKeyID, ci_legacy = Some aead\<rparr> \<and>
    w_db w' = (w_db w)\<lparr>encryption_keys :=
      [\<lparr>ek_KeyID = bootstrapKeyID, ek_Material = aead, ek_Status = ''active'', ek_CreatedAt = stored_time now\<rparr>]\<rparr>"
  using assms
  by (fastforce simp: NewCipherWithStore_def ListEncryptionKeys_def InsertEncryptionKey_def run_db_stmt Let_def
      sql_insert_def encryption_status_ok_def aeadFromBase64_ok dest: aeadFromBase64_ok
      split: sum.splits if_splits)

text \<open>The keys of a cipher built from the table are the rows of the table it leaves behind.\<close>

definition table_keys :: "EncryptionKey list \<Rightarrow> string \<rightharpoonup> bytes" where
  "table_keys rows = map_of (map (\<lambda>r. (ek_KeyID r, ek_Material r)) rows)"

lemma NewCipherWithStore_keys:
  assumes run: "run_state (NewCipherWithStore E kb) w = (Inr c, w')"
    and u: "unique_key ek_KeyID (encryption_keys (w_db w))"
  shows "map_of (ci_keys c) = table_keys (encryption_keys (w_db w')) \<and> cipher_wf c \<and>
    active_ids (encryption_keys (w_db w')) = [ci_activeID c]"
proof (cases "encryption_keys (w_db w) = []")
  case True
  from NewCipherWithStore_seeded [OF run True] show ?thesis
    by (auto simp: table_keys_def cipher_wf_def active_ids_def dest: aeadFromBase64_ok)
next
  case False
  from NewCipherWithStore_loaded [OF run False] obtain aead where a: "aeadFromBase64 kb = Inr aead"
    and db: "w_db w' = w_db w" and act: "ci_activeID c \<noteq> []"
    and l: "load_rows (encryption_keys (w_db w)) \<lparr>ci_keys = [], ci_activeID = [], ci_legacy = Some aead\<rparr> = Inr c"
    by blast
  let ?rows = "encryption_keys (w_db w)"
  from load_rows_ok [OF l u] act
  have leg: "ci_legacy c = Some aead" and keys: "map_of (ci_keys c) = table_keys ?rows"
    and rows: "\<forall>r \<in> set ?rows. keyIDPattern (ek_KeyID r) \<and> length (ek_Material r) = 32"
    and ids: "active_ids ?rows = [ci_activeID c]"
    by (auto simp: table_keys_def split: if_splits)
  from ids have "ci_activeID c \<in> set (active_ids ?rows)" by simp
  then obtain r where r: "r \<in> set ?rows" "ek_KeyID r = ci_activeID c" by (auto simp: active_ids_def)
  have "ci_activeID c \<in> dom (table_keys ?rows)"
    unfolding table_keys_def r(2) [symmetric] dom_map_of_conv_image_fst using r(1) by (simp add: image_image)
  moreover have "\<forall>k \<in> ran (table_keys ?rows). length k = 32"
    using rows by (auto simp: table_keys_def ran_def dest!: map_of_SomeD)
  ultimately have "cipher_wf c"
    using r rows leg keys aeadFromBase64_ok [OF a] by (auto simp: cipher_wf_def)
  with keys ids db show ?thesis by simp
qed

lemma decrypt_encrypt_aux:
  assumes "gcm_ok E" "rng_ok E" "cipher_wf c"
    and "run_state (Encrypt E c p) w = (Inr ct, w')"
    and "map_of (ci_keys c') (ci_activeID c) = map_of (ci_keys c) (ci_activeID c)"
  shows "Decrypt E c' ct = Inr p"
proof -
  from Encrypt_ok [OF assms(4,2)] obtain aead nonce where
    k: "map_of (ci_keys c) (ci_activeID c) = Some aead" and
    b: "blob_ok (ci_activeID c, nonce, gcm_Seal E aead nonce p)" and
    ct: "ct = versioned_blob (ci_activeID c, nonce, gcm_Seal E aead nonce p)" by blast
  from k assms(3) have "length aead = 32" by (auto simp: cipher_wf_def ran_def)
  with k assms(5) ct Decrypt_versioned [OF assms(1) b, of c'] show ?thesis by simp
qed

section \<open>Properties\<close>

text \<open>
  Property C14. A cipher decrypts what any cipher encrypted whose active key it still holds: the plaintext comes
  back whole, whichever key is active by then and whatever else the key map gained.
\<close>

theorem decrypt_encrypt:
  assumes "gcm_ok E" "rng_ok E" "cipher_wf c"
    and "run_state (Encrypt E c p) w = (Inr ct, w')"
    and "map_of (ci_keys c') (ci_activeID c) = map_of (ci_keys c) (ci_activeID c)"
  shows "Decrypt E c' ct = Inr p"
  by (rule decrypt_encrypt_aux [OF assms])

definition sample_cipher :: Cipher where
  "sample_cipher = \<lparr>ci_keys = [(''k1'', sample_key)], ci_activeID = ''k1'', ci_legacy = Some sample_key\<rparr>"

lemma sample_cipher_wf: "cipher_wf sample_cipher"
  using bootstrap_pattern by (simp add: cipher_wf_def sample_cipher_def sample_key_def bootstrapKeyID_def)

definition sample_rotated :: Cipher where
  "sample_rotated = \<lparr>ci_keys = [(''k1'', sample_key), (''k2'', replicate 32 CHR ''z'')], ci_activeID = ''k2'',
     ci_legacy = Some sample_key\<rparr>"

theorem decrypt_encrypt_witness:
  "\<exists>ct w'. run_state (Encrypt sample_env sample_cipher ''secret'') sample_world = (Inr ct, w') \<and>
     Decrypt sample_env sample_rotated ct = Inr ''secret''"
proof -
  obtain ct w' where r: "run_state (Encrypt sample_env sample_cipher ''secret'') sample_world = (Inr ct, w')"
    using bootstrap_pattern
    by (simp add: Encrypt_def sample_cipher_def bootstrapKeyID_def)
  have "map_of (ci_keys sample_rotated) (ci_activeID sample_cipher) = map_of (ci_keys sample_cipher) (ci_activeID sample_cipher)"
    by (simp add: sample_cipher_def sample_rotated_def)
  from decrypt_encrypt [OF sample_gcm_ok sample_rng_ok sample_cipher_wf r this] r show ?thesis by blast
qed

text \<open>
  Property C13. Key rotation loses nothing. Take the cipher \<open>c\<close> of one start of the sidecar and the cipher \<open>c'\<close>
  of a later start, between which operators only added rows to \<^verbatim>\<open>encryption_keys\<close> or changed the
  status of rows: the later one reads every ciphertext of the earlier one, encrypts with the one row
  that is active now, and the table keeps exactly one active row.
\<close>

theorem rotation_keeps_ciphertexts:
  assumes "gcm_ok E" "rng_ok E"
    and "run_state (NewCipherWithStore E kb) w1 = (Inr c, w2)" "unique_key ek_KeyID (encryption_keys (w_db w1))"
    and "run_state (Encrypt E c p) w3 = (Inr ct, w4)"
    and "run_state (NewCipherWithStore E' kb') w5 = (Inr c', w6)" "unique_key ek_KeyID (encryption_keys (w_db w5))"
    and "table_keys (encryption_keys (w_db w2)) \<subseteq>\<^sub>m table_keys (encryption_keys (w_db w5))"
  shows "Decrypt E c' ct = Inr p \<and> active_ids (encryption_keys (w_db w6)) = [ActiveKeyID c']"
proof -
  from NewCipherWithStore_keys [OF assms(3,4)] have c: "map_of (ci_keys c) = table_keys (encryption_keys (w_db w2))"
    "cipher_wf c" "active_ids (encryption_keys (w_db w2)) = [ci_activeID c]" by auto
  from NewCipherWithStore_keys [OF assms(6,7)] have c': "map_of (ci_keys c') = table_keys (encryption_keys (w_db w6))"
    and act: "active_ids (encryption_keys (w_db w6)) = [ci_activeID c']" by auto
  from c(2) have d: "ci_activeID c \<in> dom (table_keys (encryption_keys (w_db w2)))"
    unfolding c(1) [symmetric] by (simp add: cipher_wf_def)
  then have "table_keys (encryption_keys (w_db w5)) \<noteq> Map.empty"
    using map_le_implies_dom_le [OF assms(8)] by auto
  then have "encryption_keys (w_db w5) \<noteq> []" by (auto simp: table_keys_def)
  with NewCipherWithStore_loaded [OF assms(6)] have "w_db w6 = w_db w5" by blast
  with c(1) c' d assms(8) have "map_of (ci_keys c') (ci_activeID c) = map_of (ci_keys c) (ci_activeID c)"
    by (simp add: map_le_def)
  from decrypt_encrypt_aux [OF assms(1,2) c(2) assms(5) this] act show ?thesis by (simp add: ActiveKeyID_def)
qed

definition sample_kb :: string where
  "sample_kb = ''a2tra2tra2tra2tra2tra2tra2tra2tra2tra2tra2s=''"

lemma sample_kb_ok: "decodeKeyMaterial sample_kb = Inr sample_key" "aeadFromBase64 sample_kb = Inr sample_key"
  by code_simp+

definition sample_ek :: "string \<Rightarrow> bytes \<Rightarrow> string \<Rightarrow> EncryptionKey" where
  "sample_ek i m s = \<lparr>ek_KeyID = i, ek_Material = m, ek_Status = s, ek_CreatedAt = 0\<rparr>"

definition sample_rotated_world :: world where
  "sample_rotated_world = sample_world\<lparr>w_db := empty_db\<lparr>encryption_keys :=
     [sample_ek ''k1'' sample_key ''retired'', sample_ek ''k2'' (replicate 32 CHR ''z'') ''active'']\<rparr>\<rparr>"

lemma sample_boot: "\<exists>w2. run_state (NewCipherWithStore sample_env sample_kb) sample_world = (Inr sample_cipher, w2) \<and>
    table_keys (encryption_keys (w_db w2)) = [''k1'' \<mapsto> sample_key]"
  by (simp add: NewCipherWithStore_def sample_kb_ok ListEncryptionKeys_def InsertEncryptionKey_def run_db_stmt
      sample_world_def empty_db_def Let_def sql_insert_def encryption_status_ok_def sample_cipher_def
      bootstrapKeyID_def table_keys_def)

lemma sample_reboot:
  "\<exists>w6. run_state (NewCipherWithStore sample_env sample_kb) sample_rotated_world = (Inr sample_rotated, w6)"
  by (simp add: NewCipherWithStore_def sample_kb_ok ListEncryptionKeys_def run_db_stmt
      sample_rotated_world_def sample_world_def empty_db_def Let_def sample_ek_def keyIDPattern_def keyID_char_def
      is_lower_def is_digit_def aeadFromRaw_def sample_key_def sample_rotated_def)

theorem rotation_keeps_ciphertexts_witness:
  "\<exists>ct w4. run_state (Encrypt sample_env sample_cipher ''secret'') sample_world = (Inr ct, w4) \<and>
     Decrypt sample_env sample_rotated ct = Inr ''secret''"
proof -
  from sample_boot obtain w2 where w2: "run_state (NewCipherWithStore sample_env sample_kb) sample_world = (Inr sample_cipher, w2)"
    "table_keys (encryption_keys (w_db w2)) = [''k1'' \<mapsto> sample_key]" by blast
  from sample_reboot obtain w6 where w6:
    "run_state (NewCipherWithStore sample_env sample_kb) sample_rotated_world = (Inr sample_rotated, w6)" by blast
  obtain ct w4 where r: "run_state (Encrypt sample_env sample_cipher ''secret'') sample_world = (Inr ct, w4)"
    using bootstrap_pattern by (simp add: Encrypt_def sample_cipher_def bootstrapKeyID_def)
  have u: "unique_key ek_KeyID (encryption_keys (w_db sample_world))"
    "unique_key ek_KeyID (encryption_keys (w_db sample_rotated_world))"
    by (simp_all add: sample_world_def sample_rotated_world_def empty_db_def sample_ek_def)
  have le: "table_keys (encryption_keys (w_db w2)) \<subseteq>\<^sub>m table_keys (encryption_keys (w_db sample_rotated_world))"
    unfolding w2(2) by (simp add: map_le_def table_keys_def sample_rotated_world_def empty_db_def sample_ek_def)
  from rotation_keeps_ciphertexts [OF sample_gcm_ok sample_rng_ok w2(1) u(1) r w6 u(2) le] r show ?thesis by blast
qed

lemma load_rows_legacy: "load_rows rows c = Inr c' \<Longrightarrow> ci_legacy c' = ci_legacy c"
  by (induction rows c rule: load_rows.induct) (auto simp: Let_def split: if_splits sum.splits)

lemma NewCipherWithStore_legacy:
  assumes "run_state (NewCipherWithStore E kb) w = (Inr c, w')" "aeadFromBase64 kb = Inr key"
  shows "ci_legacy c = Some key \<and> length key = 32"
proof (cases "encryption_keys (w_db w) = []")
  case True
  from NewCipherWithStore_seeded [OF assms(1) True] assms(2) show ?thesis by (auto dest: aeadFromBase64_ok)
next
  case False
  from NewCipherWithStore_loaded [OF assms(1) False] assms(2) show ?thesis by (auto dest!: load_rows_legacy aeadFromBase64_ok)
qed

lemma parseVersioned_header:
  assumes "parseVersioned blob = Some (kid, n, ct)"
  shows "blob = [CHR 0xC1, CHR 0x70, byte_of (length kid)] @ kid @ n @ ct \<and> keyIDPattern kid \<and> length n = 12"
proof -
  have l: "3 \<le> length blob" and m: "take 2 blob = [CHR 0xC1, CHR 0x70]"
    using assms by (auto simp: parseVersioned_def versionedMagic_def Let_def split: if_splits)
  obtain a b c t where abc: "blob = a # b # c # t"
    using l by (cases blob; cases "tl blob"; cases "tl (tl blob)") auto
  have d: "drop (3 + k) blob = drop k t" for k by (simp add: abc numeral_3_eq_3)
  let ?k = "byte_val c"
  have k: "kid = take ?k t" "n = take 12 (drop ?k t)" "ct = drop (?k + 12) t" "?k + 12 \<le> length t" "keyIDPattern kid"
    using assms d [of 0] d [of ?k] d [of "?k + 12"]
    by (auto simp: parseVersioned_def abc nonceSize_def Let_def add.assoc split: if_splits)
  have "byte_of (length kid) = c" using k(1,4) byte_val_eqD [of c "length kid"] by simp
  moreover have "t = kid @ n @ ct" using k(1-3) by (metis append_take_drop_id drop_drop add.commute)
  moreover have "[a, b] = [CHR 0xC1, CHR 0x70]" using m by (simp add: abc)
  ultimately show ?thesis using k(2,4,5) by (simp add: abc)
qed

text \<open>
  Property C36. The legacy format stays readable after the upgrade and through key rotations: a blob
  \<open>nonce || sealed\<close> which a build without key versions wrote under the bootstrap key decrypts with every cipher
  built from that key and the table, whatever keys the table holds, unless the blob happens to begin with a
  complete versioned header: the bytes C1 70, a length between 1 and 63, as many letters, digits,
  underscores and dashes, and at least 12 more bytes.
\<close>

theorem legacy_decrypts:
  assumes "gcm_ok E" "aeadFromBase64 boot = Inr key" "run_state (NewCipherWithStore E boot) w = (Inr c, w')" "length nonce = 12"
    and "\<nexists>kid rest. nonce @ gcm_Seal E key nonce p = [CHR 0xC1, CHR 0x70, byte_of (length kid)] @ kid @ rest \<and>
      1 \<le> length kid \<and> length kid \<le> 63 \<and> (\<forall>ch \<in> set kid. is_upper ch \<or> is_lower ch \<or> is_digit ch \<or> ch \<in> {CHR ''_'', CHR ''-''}) \<and>
      12 \<le> length rest"
  shows "Decrypt E c (nonce @ gcm_Seal E key nonce p) = Inr p"
proof -
  from NewCipherWithStore_legacy [OF assms(3,2)] have leg: "ci_legacy c = Some key" "length key = 32" by simp_all
  have "parseVersioned (nonce @ gcm_Seal E key nonce p) = None"
  proof (rule ccontr)
    assume "parseVersioned (nonce @ gcm_Seal E key nonce p) \<noteq> None"
    then obtain kid n ct where "parseVersioned (nonce @ gcm_Seal E key nonce p) = Some (kid, n, ct)" by auto
    from parseVersioned_header [OF this] have b: "nonce @ gcm_Seal E key nonce p = [CHR 0xC1, CHR 0x70, byte_of (length kid)] @ kid @ n @ ct"
      and k: "keyIDPattern kid" "length n = 12" by blast+
    have "\<forall>ch \<in> set kid. is_upper ch \<or> is_lower ch \<or> is_digit ch \<or> ch \<in> {CHR ''_'', CHR ''-''}"
      using k(1) by (auto simp: keyIDPattern_def keyID_char_def list_all_iff)
    with b k assms(5) show False by (auto simp: keyIDPattern_def)
  qed
  with assms(1,4) leg show ?thesis by (simp add: Decrypt_def gcm_ok_def nonceSize_def)
qed

theorem legacy_decrypts_witness:
  "Decrypt sample_env sample_rotated (''abcdefghijkl'' @ gcm_Seal sample_env sample_key ''abcdefghijkl'' ''pw'') = Inr ''pw''"
proof -
  from sample_reboot obtain w6 where w6: "run_state (NewCipherWithStore sample_env sample_kb) sample_rotated_world = (Inr sample_rotated, w6)" by blast
  from legacy_decrypts [OF sample_gcm_ok sample_kb_ok(2) w6, of "''abcdefghijkl''" "''pw''"] show ?thesis by simp
qed

end
