(* ===== verification/Go_Http.thy ===== *)
theory Go_Http
  imports Store
begin

text \<open>
  What the handlers use of \<^verbatim>\<open>net/http\<close>, and decoding JSON objects into structs. A request carries the
  library's parse of its query and of its form body; a response is a status, the headers the
  handler set, and a body. A redirect keeps its target as the parsed URL with its query, and a JSON
  body as the encoded value.
\<close>

section \<open>Requests\<close>

record request =
  rq_Method :: string
  rq_Path :: string
  rq_Host :: string
  rq_RemoteAddr :: string
  rq_TLS :: bool
  rq_Header :: header
  rq_Query :: "(string \<times> string) list"
  rq_FormError :: bool
  rq_PostForm :: "(string \<times> string) list"
  rq_Body :: "bytes result"

definition first_value :: "(string \<times> string) list \<Rightarrow> string \<Rightarrow> string" where
  "first_value ps k = (case map_of ps k of None \<Rightarrow> [] | Some v \<Rightarrow> v)"

text \<open>\<^verbatim>\<open>r.URL.Query().Get(k)\<close> and \<^verbatim>\<open>r.FormValue(k)\<close>: body parameters come before query parameters.\<close>

definition QueryGet :: "request \<Rightarrow> string \<Rightarrow> string" where
  "QueryGet r k = first_value (rq_Query r) k"

definition FormValue :: "request \<Rightarrow> string \<Rightarrow> string" where
  "FormValue r k = first_value (rq_PostForm r @ rq_Query r) k"

definition ReqGet :: "request \<Rightarrow> string \<Rightarrow> string" where
  "ReqGet r k = hdr_Get (rq_Header r) k"

text \<open>\<^verbatim>\<open>r.BasicAuth()\<close>: the scheme in any case, then base64 of user, colon, password.\<close>

definition BasicAuth :: "request \<Rightarrow> (string \<times> string) option" where
  "BasicAuth r =
     (let auth = ReqGet r ''Authorization'' in
      if length auth < 6 \<or> ToLower (take 6 auth) \<noteq> ''basic '' then None
      else case b64_DecodeString StdEncoding (drop 6 auth) of
        Inl e \<Rightarrow> None
      | Inr c \<Rightarrow> if CHR '':'' \<in> set c then Some (before_byte CHR '':'' c, drop (Suc (length (before_byte CHR '':'' c))) c)
                 else None)"

text \<open>\<^verbatim>\<open>b, _ := strconv.ParseBool(s)\<close>\<close>

definition ParseBool :: "string \<Rightarrow> bool" where
  "ParseBool s \<longleftrightarrow> s \<in> {''1'', ''t'', ''T'', ''TRUE'', ''true'', ''True''}"

definition limit_read :: "nat \<Rightarrow> bytes \<Rightarrow> bytes" where
  "limit_read n b = (if length b \<le> n then b else take n b)"

section \<open>Responses\<close>

datatype body = NoBody | TextBody string | JsonBody json | RedirectBody url

record response =
  rs_Status :: int
  rs_Header :: header
  rs_Body :: body

text \<open>A JSON body is kept as the value; the bytes on the wire are its indented form, \<open>encode_indented\<close> of theory \<open>Go_Indent\<close>.\<close>

definition json_resp :: "header \<Rightarrow> int \<Rightarrow> json \<Rightarrow> response" where
  "json_resp h status v = \<lparr>rs_Status = status, rs_Header = hdr_Set h ''Content-Type'' ''application/json'', rs_Body = JsonBody v\<rparr>"

definition writeJSON :: "int \<Rightarrow> json \<Rightarrow> response" where
  "writeJSON status v = json_resp [] status v"

definition error_json :: "string \<Rightarrow> string \<Rightarrow> json" where
  "error_json errCode description = JObj [(''error'', JStr errCode), (''error_description'', JStr description)]"

definition writeError :: "int \<Rightarrow> string \<Rightarrow> string \<Rightarrow> response" where
  "writeError status errCode description = writeJSON status (error_json errCode description)"

text \<open>An error written after \<^verbatim>\<open>w.Header().Set(k, v)\<close>.\<close>

definition writeErrorWith :: "string \<Rightarrow> string \<Rightarrow> int \<Rightarrow> string \<Rightarrow> string \<Rightarrow> response" where
  "writeErrorWith k v status errCode description = json_resp (hdr_Set [] k v) status (error_json errCode description)"

definition WriteHeader :: "int \<Rightarrow> response" where
  "WriteHeader status = \<lparr>rs_Status = status, rs_Header = [], rs_Body = NoBody\<rparr>"

definition http_Error :: "string \<Rightarrow> int \<Rightarrow> response" where
  "http_Error msg status = \<lparr>rs_Status = status, rs_Header = [(''Content-Type'', [''text/plain; charset=utf-8''])], rs_Body = TextBody msg\<rparr>"

definition http_Redirect :: "url \<Rightarrow> response" where
  "http_Redirect u = \<lparr>rs_Status = 302, rs_Header = [], rs_Body = RedirectBody u\<rparr>"

lemma status_simps [simp]:
  "rs_Status (json_resp h st v) = st" "rs_Status (writeJSON st v) = st" "rs_Status (writeError st c d) = st"
  "rs_Status (writeErrorWith k v' st c d) = st" "rs_Status (WriteHeader st) = st" "rs_Status (http_Error m st) = st"
  "rs_Status (http_Redirect u) = 302"
  by (simp_all add: json_resp_def writeJSON_def writeError_def writeErrorWith_def WriteHeader_def http_Error_def http_Redirect_def)

lemma body_simps [simp]:
  "rs_Body (json_resp h st v) = JsonBody v" "rs_Body (writeJSON st v) = JsonBody v"
  "rs_Body (writeError st c d) = JsonBody (error_json c d)" "rs_Body (writeErrorWith k v' st c d) = JsonBody (error_json c d)"
  "rs_Body (WriteHeader st) = NoBody" "rs_Body (http_Error m st) = TextBody m" "rs_Body (http_Redirect u) = RedirectBody u"
  by (simp_all add: json_resp_def writeJSON_def writeError_def writeErrorWith_def WriteHeader_def http_Error_def http_Redirect_def)

text \<open>\<^verbatim>\<open>url.Values.Set\<close> on the query of a parsed URL, whose \<^verbatim>\<open>RawQuery\<close> is then replaced.\<close>

definition url_Set :: "string \<Rightarrow> string \<Rightarrow> url \<Rightarrow> url" where
  "url_Set k v u = u\<lparr>u_Query := alist_set k [v] (u_Query u)\<rparr>"

definition url_Get :: "url \<Rightarrow> string \<Rightarrow> string" where
  "url_Get u k = (case map_of (u_Query u) k of Some (v # _) \<Rightarrow> v | _ \<Rightarrow> [])"

lemma url_Get_Set [simp]: "url_Get (url_Set k v u) k' = (if k' = k then v else url_Get u k')"
  by (simp add: url_Get_def url_Set_def)

lemma url_Set_other [simp]:
  "u_Scheme (url_Set k v u) = u_Scheme u" "u_Host (url_Set k v u) = u_Host u" "u_Path (url_Set k v u) = u_Path u"
  by (simp_all add: url_Set_def)

section \<open>Decoding an object into a struct\<close>

text \<open>
  The values whose key matches a field name without regard to case, in document order. A string
  field keeps its value at null and takes the last string; a value of another type is an error.
  The value of an integer field is not used by the source, only whether it decodes.
\<close>

definition field_values :: "jmap \<Rightarrow> string \<Rightarrow> json list" where
  "field_values m name = map snd (filter (\<lambda>(k, v). ToLower k = ToLower name) m)"

fun last_string :: "json list \<Rightarrow> string \<Rightarrow> string result" where
  "last_string [] acc = Inr acc"
| "last_string (JStr s # vs) acc = last_string vs s"
| "last_string (JNull # vs) acc = last_string vs acc"
| "last_string (_ # vs) acc = Inl (GoErr ''json type'')"

fun last_strings :: "json list \<Rightarrow> string list \<Rightarrow> string list result" where
  "last_strings [] acc = Inr acc"
| "last_strings (v # vs) acc = (case as_string_slice v of Inl e \<Rightarrow> Inl e | Inr ss \<Rightarrow> last_strings vs ss)"

fun int_value_ok :: "json \<Rightarrow> bool" where
  "int_value_ok (JFloat m e) = (0 \<le> e \<and> in_int64 (f64_int m e))"
| "int_value_ok JNull = True"
| "int_value_ok _ = False"

definition struct_str :: "jmap \<Rightarrow> string \<Rightarrow> string result" where
  "struct_str m name = last_string (field_values m name) []"

definition struct_strs :: "jmap \<Rightarrow> string \<Rightarrow> string list result" where
  "struct_strs m name = last_strings (field_values m name) []"

definition struct_int_ok :: "jmap \<Rightarrow> string \<Rightarrow> bool" where
  "struct_int_ok m name \<longleftrightarrow> list_all int_value_ok (field_values m name)"

end
