(* ===== verification/Config.thy ===== *)
theory Config
  imports Cipher Go_Http
begin

text \<open>
  \<^verbatim>\<open>sidecar/internal/config/context.go\<close>: the per-resource configuration that the plugin passes in
  X-MCPB-* headers, its encrypted copy in the database and the way back.
\<close>

record ResourceConfig =
  rc_Name :: string
  rc_PublicBase :: string
  rc_ProviderIssuer :: string
  rc_ClientID :: string
  rc_ClientSecret :: string
  rc_Scopes :: string
  rc_Audience :: string

text \<open>The source loops over a Go map, so which missing header the error names is not determined; the
  model's error names none.\<close>

definition FromRequest :: "request \<Rightarrow> ResourceConfig result" where
  "FromRequest r =
     (let rc = \<lparr>rc_Name = ReqGet r ''X-MCPB-Resource'', rc_PublicBase = ReqGet r ''X-MCPB-Public-Base'',
            rc_ProviderIssuer = ReqGet r ''X-MCPB-Provider-Issuer'', rc_ClientID = ReqGet r ''X-MCPB-Client-ID'',
            rc_ClientSecret = ReqGet r ''X-MCPB-Client-Secret'', rc_Scopes = ReqGet r ''X-MCPB-Scopes'',
            rc_Audience = ReqGet r ''X-MCPB-Audience''\<rparr> in
      if list_ex (\<lambda>v. v = []) [rc_Name rc, rc_PublicBase rc, rc_ProviderIssuer rc, rc_ClientID rc, rc_ClientSecret rc,
           rc_Scopes rc, rc_Audience rc]
      then Inl (GoErr ''config.FromRequest: missing required header'')
      else Inr rc)"

definition PersistEncrypted :: "env \<Rightarrow> Cipher \<Rightarrow> ResourceConfig \<Rightarrow> unit result eff" where
  "PersistEncrypted E c rc = do {
     e \<leftarrow> Encrypt E c (rc_ClientSecret rc);
     case e of
       Inl err \<Rightarrow> State_Monad.return (Inl (GoWrap ''PersistEncrypted encrypt'' err))
     | Inr enc \<Rightarrow> do {
         now \<leftarrow> time_Now E;
         UpsertResourceConfig E \<lparr>rr_Name = rc_Name rc, rr_ProviderIssuer = rc_ProviderIssuer rc, rr_ClientID = rc_ClientID rc,
           rr_ClientSecretEnc = enc, rr_Scopes = rc_Scopes rc, rr_Audience = rc_Audience rc, rr_UpdatedAt = now\<rparr> } }"

definition LoadResourceConfig :: "env \<Rightarrow> Cipher \<Rightarrow> string \<Rightarrow> ResourceConfig option result eff" where
  "LoadResourceConfig E c name = do {
     g \<leftarrow> GetResourceConfig E name;
     State_Monad.return (case g of
       Inl e \<Rightarrow> Inl (GoWrap ''LoadResourceConfig'' e)
     | Inr None \<Rightarrow> Inr None
     | Inr (Some row) \<Rightarrow>
         (case Decrypt E c (rr_ClientSecretEnc row) of
            Inl e \<Rightarrow> Inl (GoWrap ''LoadResourceConfig decrypt'' e)
          | Inr secret \<Rightarrow> Inr (Some \<lparr>rc_Name = rr_Name row, rc_PublicBase = [], rc_ProviderIssuer = rr_ProviderIssuer row,
              rc_ClientID = rr_ClientID row, rc_ClientSecret = secret, rc_Scopes = rr_Scopes row,
              rc_Audience = rr_Audience row\<rparr>))) }"

section \<open>Lemmas\<close>

definition rc_complete :: "ResourceConfig \<Rightarrow> bool" where
  "rc_complete rc \<longleftrightarrow> rc_Name rc \<noteq> [] \<and> rc_PublicBase rc \<noteq> [] \<and> rc_ProviderIssuer rc \<noteq> [] \<and> rc_ClientID rc \<noteq> [] \<and>
     rc_ClientSecret rc \<noteq> [] \<and> rc_Scopes rc \<noteq> [] \<and> rc_Audience rc \<noteq> []"

lemma FromRequest_complete: "FromRequest r = Inr rc \<Longrightarrow> rc_complete rc"
  by (auto simp: FromRequest_def Let_def rc_complete_def split: if_splits)

lemma sql_get_replace:
  "k \<in> key ` set t \<Longrightarrow> key r' = k \<Longrightarrow> sql_get key k (sql_update (\<lambda>r. key r = k) (\<lambda>_. r') t) = Some r'"
  by (induction t) (auto simp: sql_get_def sql_update_def)

lemma UpsertResourceConfig_get:
  assumes "run_state (UpsertResourceConfig E row) w = (Inr (), w')"
  shows "sql_get rr_Name (rr_Name row) (resource_configs (w_db w')) = Some (row\<lparr>rr_UpdatedAt := stored_time (rr_UpdatedAt row)\<rparr>)"
proof -
  let ?row = "row\<lparr>rr_UpdatedAt := stored_time (rr_UpdatedAt row)\<rparr>"
  let ?t = "resource_configs (w_db w)"
  have w': "resource_configs (w_db w') = (case sql_insert rr_Name ?row ?t of Some t \<Rightarrow> t
      | None \<Rightarrow> sql_update (\<lambda>r. rr_Name r = rr_Name row) (\<lambda>_. ?row) ?t)"
    using assms by (auto simp: UpsertResourceConfig_def run_db_stmt Let_def split: if_splits)
  show ?thesis
  proof (cases "sql_insert rr_Name ?row ?t")
    case None
    then have "rr_Name row \<in> rr_Name ` set ?t" by (auto simp: sql_insert_def split: if_splits)
    then have "sql_get rr_Name (rr_Name row) (sql_update (\<lambda>r. rr_Name r = rr_Name row) (\<lambda>_. ?row) ?t) = Some ?row"
      by (rule sql_get_replace) simp
    with w' None show ?thesis by simp
  next
    case (Some t)
    with w' sql_get_insert [OF Some, of "rr_Name row"] show ?thesis by simp
  qed
qed

lemma UpsertResourceConfig_db:
  "run_state (UpsertResourceConfig E row) w = (x, w') \<Longrightarrow> \<exists>t. w_db w' = (w_db w)\<lparr>resource_configs := t\<rparr>"
proof (cases "db_fail E (w_tick w)")
  case True
  then show "run_state (UpsertResourceConfig E row) w = (x, w') \<Longrightarrow> ?thesis"
    by (intro exI [of _ "resource_configs (w_db w)"]) (auto simp: UpsertResourceConfig_def run_db_stmt)
qed (auto simp: UpsertResourceConfig_def run_db_stmt Let_def)

lemma PersistEncrypted_db:
  "run_state (PersistEncrypted E c rc) w = (x, w') \<Longrightarrow> \<exists>t. w_db w' = (w_db w)\<lparr>resource_configs := t\<rparr>"
proof -
  assume r: "run_state (PersistEncrypted E c rc) w = (x, w')"
  obtain y w1 where e: "run_state (Encrypt E c (rc_ClientSecret rc)) w = (y, w1)" by fastforce
  from Encrypt_db [OF e] have w1: "w_db w1 = w_db w" .
  show ?thesis
  proof (cases y)
    case (Inl err)
    with r e w1 have "w_db w' = w_db w" by (auto simp: PersistEncrypted_def)
    then show ?thesis by (intro exI [of _ "resource_configs (w_db w)"]) simp
  next
    case (Inr enc)
    then obtain row where "run_state (UpsertResourceConfig E row) (bump w1) = (x, w')"
      using r e by (auto simp: PersistEncrypted_def)
    from UpsertResourceConfig_db [OF this] w1 show ?thesis by simp
  qed
qed

section \<open>Properties\<close>

text \<open>
  Property C30. The stored copy of a configuration loads back: after a successful \<^verbatim>\<open>PersistEncrypted\<close>, and as long as
  the row is not overwritten, \<^verbatim>\<open>LoadResourceConfig\<close> with any cipher that still holds the key returns
  the same configuration, client secret included, only without the public base, which is not stored.
\<close>

theorem persist_load_roundtrip:
  assumes "gcm_ok E" "rng_ok E" "cipher_wf c"
    and "run_state (PersistEncrypted E c rc) w = (Inr (), w1)"
    and "map_of (ci_keys c') (ci_activeID c) = map_of (ci_keys c) (ci_activeID c)"
    and "resource_configs (w_db w2) = resource_configs (w_db w1)" "\<not> db_fail E (w_tick w2)"
  shows "fst (run_state (LoadResourceConfig E c' (rc_Name rc)) w2) = Inr (Some (rc\<lparr>rc_PublicBase := []\<rparr>))"
proof -
  from assms(4) obtain enc wa wb now where e: "run_state (Encrypt E c (rc_ClientSecret rc)) w = (Inr enc, wa)"
    and u: "run_state (UpsertResourceConfig E \<lparr>rr_Name = rc_Name rc, rr_ProviderIssuer = rc_ProviderIssuer rc, rr_ClientID = rc_ClientID rc,
           rr_ClientSecretEnc = enc, rr_Scopes = rc_Scopes rc, rr_Audience = rc_Audience rc, rr_UpdatedAt = now\<rparr>) wb = (Inr (), w1)"
    by (auto simp: PersistEncrypted_def split: sum.splits prod.splits)
  from decrypt_encrypt_aux [OF assms(1-3) e assms(5)] have "Decrypt E c' enc = Inr (rc_ClientSecret rc)" .
  with UpsertResourceConfig_get [OF u] assms(6,7) show ?thesis
    by (simp add: LoadResourceConfig_def GetResourceConfig_def run_db_stmt)
qed

definition sample_rc :: ResourceConfig where
  "sample_rc = \<lparr>rc_Name = ''wiki'', rc_PublicBase = ''https://h'', rc_ProviderIssuer = ''https://idp'', rc_ClientID = ''up'',
     rc_ClientSecret = ''s3cret'', rc_Scopes = ''openid'', rc_Audience = ''wiki''\<rparr>"

theorem persist_load_roundtrip_witness:
  "\<exists>w1. run_state (PersistEncrypted sample_env sample_cipher sample_rc) sample_world = (Inr (), w1) \<and>
     fst (run_state (LoadResourceConfig sample_env sample_rotated ''wiki'') w1) = Inr (Some (sample_rc\<lparr>rc_PublicBase := []\<rparr>))"
proof -
  obtain w1 where r: "run_state (PersistEncrypted sample_env sample_cipher sample_rc) sample_world = (Inr (), w1)"
    using bootstrap_pattern
    by (simp add: PersistEncrypted_def Encrypt_def sample_cipher_def bootstrapKeyID_def UpsertResourceConfig_def run_db_stmt Let_def)
  have k: "map_of (ci_keys sample_rotated) (ci_activeID sample_cipher) = map_of (ci_keys sample_cipher) (ci_activeID sample_cipher)"
    by (simp add: sample_cipher_def sample_rotated_def)
  from persist_load_roundtrip [OF sample_gcm_ok sample_rng_ok sample_cipher_wf r k refl] r show ?thesis
    by (simp add: sample_rc_def)
qed

end
