(* ===== verification/Oidc.thy ===== *)
theory Oidc
  imports Config
begin

text \<open>
  \<^verbatim>\<open>sidecar/internal/oidc/upstream.go\<close>: discovery of the upstream provider with its cache, the two
  token requests, the userinfo request and the decoding of an ID token. The upstream servers are
  the parameter \<open>http_do\<close> of the environment.
\<close>

record TokenResponse =
  tr_AccessToken :: string
  tr_RefreshToken :: string
  tr_IDToken :: string
  tr_TokenType :: string
  tr_Scope :: string

definition get_req :: "string \<Rightarrow> header \<Rightarrow> http_req" where
  "get_req u h = \<lparr>hq_Method = ''GET'', hq_URL = u, hq_Header = h, hq_Form = []\<rparr>"

definition body_limit :: nat where
  "body_limit = 1048576"

text \<open>\<^verbatim>\<open>json.Unmarshal(body, &meta)\<close>\<close>

definition parse_meta :: "bytes \<Rightarrow> Provider result" where
  "parse_meta b =
     (case unmarshal_map b of
        Inl e \<Rightarrow> Inl e
      | Inr m \<Rightarrow>
          (case (struct_str m ''issuer'', struct_str m ''authorization_endpoint'', struct_str m ''token_endpoint'',
                 struct_str m ''userinfo_endpoint'', struct_str m ''jwks_uri'') of
             (Inr i, Inr a, Inr t, Inr u, Inr j) \<Rightarrow>
               Inr \<lparr>pr_Issuer = i, pr_AuthEndpoint = a, pr_TokenEndpoint = t, pr_UserinfoEndpoint = u, pr_JWKSURI = j\<rparr>
           | _ \<Rightarrow> Inl (GoErr ''json type'')))"

definition cache_provider :: "string \<Rightarrow> Provider \<Rightarrow> unit eff" where
  "cache_provider issuer p = State (\<lambda>w. ((), w\<lparr>w_providers := alist_set issuer p (w_providers w)\<rparr>))"

definition cached_provider :: "string \<Rightarrow> Provider option eff" where
  "cached_provider issuer = State (\<lambda>w. (map_of (w_providers w) issuer, w))"

definition Discover :: "env \<Rightarrow> string \<Rightarrow> Provider result eff" where
  "Discover E issuer = do {
     c \<leftarrow> cached_provider issuer;
     case c of
       Some p \<Rightarrow> State_Monad.return (Inr p)
     | None \<Rightarrow>
         let wellKnown = TrimRight issuer ''/'' @ ''/.well-known/openid-configuration'' in
         (case url_Parse E wellKnown of
            Inl e \<Rightarrow> State_Monad.return (Inl (GoWrap ''Discover new request'' e))
          | Inr _ \<Rightarrow> do {
              resp \<leftarrow> http_Do E (get_req wellKnown []);
              case resp of
                Inl e \<Rightarrow> State_Monad.return (Inl (GoWrap ''Discover fetch'' e))
              | Inr rsp \<Rightarrow>
                  if hp_Status rsp \<noteq> 200 then State_Monad.return (Inl (GoErr ''Discover: unexpected status''))
                  else case hp_Body rsp of
                    Inl e \<Rightarrow> State_Monad.return (Inl (GoWrap ''Discover read'' e))
                  | Inr b \<Rightarrow>
                      (case parse_meta (limit_read body_limit b) of
                         Inl e \<Rightarrow> State_Monad.return (Inl (GoWrap ''Discover parse'' e))
                       | Inr p \<Rightarrow>
                           if pr_Issuer p \<noteq> issuer then State_Monad.return (Inl (GoErr ''Discover: issuer mismatch''))
                           else do { _ \<leftarrow> cache_provider issuer p; State_Monad.return (Inr p) }) }) }"

text \<open>\<^verbatim>\<open>json.Unmarshal(body, &tr)\<close>\<close>

definition parse_token_response :: "bytes \<Rightarrow> TokenResponse result" where
  "parse_token_response b =
     (case unmarshal_map b of
        Inl e \<Rightarrow> Inl e
      | Inr m \<Rightarrow>
          (case (struct_str m ''access_token'', struct_str m ''refresh_token'', struct_str m ''id_token'',
                 struct_str m ''token_type'', struct_str m ''scope'', struct_int_ok m ''expires_in'') of
             (Inr a, Inr r, Inr i, Inr t, Inr s, True) \<Rightarrow>
               Inr \<lparr>tr_AccessToken = a, tr_RefreshToken = r, tr_IDToken = i, tr_TokenType = t, tr_Scope = s\<rparr>
           | _ \<Rightarrow> Inl (GoErr ''json type'')))"

definition postToken :: "env \<Rightarrow> string \<Rightarrow> (string \<times> string) list \<Rightarrow> TokenResponse result eff" where
  "postToken E endpoint params =
     (case url_Parse E endpoint of
        Inl e \<Rightarrow> State_Monad.return (Inl (GoWrap ''postToken new request'' e))
      | Inr _ \<Rightarrow> do {
          resp \<leftarrow> http_Do E \<lparr>hq_Method = ''POST'', hq_URL = endpoint,
            hq_Header = hdr_Set [] ''Content-Type'' ''application/x-www-form-urlencoded'', hq_Form = params\<rparr>;
          case resp of
            Inl e \<Rightarrow> State_Monad.return (Inl (GoWrap ''postToken do'' e))
          | Inr rsp \<Rightarrow>
              (case hp_Body rsp of
                 Inl e \<Rightarrow> State_Monad.return (Inl (GoWrap ''postToken read'' e))
               | Inr b \<Rightarrow>
                   let body = limit_read body_limit b in
                   if hp_Status rsp \<noteq> 200 then State_Monad.return (Inl (GoErr (''postToken: status '' @ show_int (hp_Status rsp) @ '': '' @ body)))
                   else case parse_token_response body of
                     Inl e \<Rightarrow> State_Monad.return (Inl (GoWrap ''postToken parse'' e))
                   | Inr tr \<Rightarrow> State_Monad.return (Inr tr)) })"

definition ExchangeCode :: "env \<Rightarrow> Provider \<Rightarrow> string \<Rightarrow> string \<Rightarrow> string \<Rightarrow> string \<Rightarrow> string \<Rightarrow> TokenResponse result eff" where
  "ExchangeCode E p clientID clientSecret code redirectURI codeVerifier =
     postToken E (pr_TokenEndpoint p)
       ([(''grant_type'', ''authorization_code''), (''code'', code), (''redirect_uri'', redirectURI),
         (''client_id'', clientID), (''client_secret'', clientSecret)] @
        (if codeVerifier \<noteq> [] then [(''code_verifier'', codeVerifier)] else []))"

definition RefreshTokens :: "env \<Rightarrow> Provider \<Rightarrow> string \<Rightarrow> string \<Rightarrow> string \<Rightarrow> TokenResponse result eff" where
  "RefreshTokens E p clientID clientSecret refreshToken =
     postToken E (pr_TokenEndpoint p)
       [(''grant_type'', ''refresh_token''), (''refresh_token'', refreshToken),
        (''client_id'', clientID), (''client_secret'', clientSecret)]"

text \<open>A decoded \<^verbatim>\<open>map[string]any\<close>: \<open>None\<close> is the nil map that \<^verbatim>\<open>null\<close> decodes to.\<close>

definition unmarshal_claims :: "bytes \<Rightarrow> jmap option result" where
  "unmarshal_claims b =
     (case json_unmarshal b of
        Inl e \<Rightarrow> Inl e
      | Inr JNull \<Rightarrow> Inr None
      | Inr v \<Rightarrow> (case as_map v of Inl e \<Rightarrow> Inl e | Inr m \<Rightarrow> Inr (Some m)))"

definition oidc_Userinfo :: "env \<Rightarrow> Provider \<Rightarrow> string \<Rightarrow> jmap option result eff" where
  "oidc_Userinfo E p accessToken =
     (if pr_UserinfoEndpoint p = [] then State_Monad.return (Inr (Some []))
      else case url_Parse E (pr_UserinfoEndpoint p) of
        Inl e \<Rightarrow> State_Monad.return (Inl (GoWrap ''Userinfo new request'' e))
      | Inr _ \<Rightarrow> do {
          resp \<leftarrow> http_Do E (get_req (pr_UserinfoEndpoint p) (hdr_Set [] ''Authorization'' (''Bearer '' @ accessToken)));
          case resp of
            Inl e \<Rightarrow> State_Monad.return (Inl (GoWrap ''Userinfo do'' e))
          | Inr rsp \<Rightarrow>
              (case hp_Body rsp of
                 Inl e \<Rightarrow> State_Monad.return (Inl (GoWrap ''Userinfo read'' e))
               | Inr b \<Rightarrow>
                   if hp_Status rsp \<noteq> 200 then State_Monad.return (Inr (Some []))
                   else case unmarshal_claims (limit_read body_limit b) of
                     Inl e \<Rightarrow> State_Monad.return (Inr (Some []))
                   | Inr claims \<Rightarrow> State_Monad.return (Inr claims)) })"

definition DecodeIDToken :: "string \<Rightarrow> jmap option result" where
  "DecodeIDToken idToken =
     (case Split idToken CHR ''.'' of
        [h, p, s] \<Rightarrow>
          (case b64_DecodeString RawURLEncoding p of
             Inl e \<Rightarrow> Inl (GoWrap ''DecodeIDToken decode payload'' e)
           | Inr payload \<Rightarrow>
               (case unmarshal_claims payload of
                  Inl e \<Rightarrow> Inl (GoWrap ''DecodeIDToken parse claims'' e)
                | Inr claims \<Rightarrow> Inr claims))
      | _ \<Rightarrow> Inl (GoErr ''DecodeIDToken: malformed JWT''))"

section \<open>Lemmas\<close>

text \<open>Upstream traffic never touches the database.\<close>

lemma run_cached_provider [simp]: "run_state (cached_provider i) w = (map_of (w_providers w) i, w)"
  by (simp add: cached_provider_def)

lemma run_cache_provider [simp]: "run_state (cache_provider i p) w = ((), w\<lparr>w_providers := alist_set i p (w_providers w)\<rparr>)"
  by (simp add: cache_provider_def)

lemma keeps_cached [hoare_rules]: "keeps (\<lambda>w. I (w_db w)) (cached_provider i)" "keeps (\<lambda>w. I (w_db w)) (cache_provider i p)"
  by (simp_all add: hoare_def)

lemma keeps_Discover [hoare_rules]: "keeps (\<lambda>w. I (w_db w)) (Discover E issuer)"
  unfolding Discover_def by (intro hoare_rules) auto

lemma keeps_postToken [hoare_rules]: "keeps (\<lambda>w. I (w_db w)) (postToken E ep ps)"
  unfolding postToken_def by (intro hoare_rules) auto

lemma keeps_oidc_Userinfo [hoare_rules]: "keeps (\<lambda>w. I (w_db w)) (oidc_Userinfo E p t)"
  unfolding oidc_Userinfo_def by (intro hoare_rules) auto

lemma keeps_ExchangeCode [hoare_rules]: "keeps (\<lambda>w. I (w_db w)) (ExchangeCode E p a b c d e)"
  unfolding ExchangeCode_def by (rule keeps_postToken)

lemma keeps_RefreshTokens [hoare_rules]: "keeps (\<lambda>w. I (w_db w)) (RefreshTokens E p a b c)"
  unfolding RefreshTokens_def by (rule keeps_postToken)

lemma keeps_db_eq: "(\<And>I. keeps (\<lambda>w. I (w_db w)) m) \<Longrightarrow> run_state m w = (x, w') \<Longrightarrow> w_db w' = w_db w"
proof -
  assume k: "\<And>I. keeps (\<lambda>w. I (w_db w)) m" and r: "run_state m w = (x, w')"
  from hoareD [OF k [of "\<lambda>d. d = w_db w"] _ r] show ?thesis by simp
qed

lemmas upstream_db = keeps_db_eq [OF keeps_Discover] keeps_db_eq [OF keeps_ExchangeCode] keeps_db_eq [OF keeps_RefreshTokens]
  keeps_db_eq [OF keeps_oidc_Userinfo] keeps_db_eq [OF keeps_Encrypt]

text \<open>Every cached provider is filed under its own issuer.\<close>

definition providers_ok :: "world \<Rightarrow> bool" where
  "providers_ok w \<longleftrightarrow> (\<forall>i p. map_of (w_providers w) i = Some p \<longrightarrow> pr_Issuer p = i)"

lemma Discover_issuer:
  assumes "run_state (Discover E issuer) w = (x, w')" "providers_ok w"
  shows "providers_ok w' \<and> (\<forall>p. x = Inr p \<longrightarrow> pr_Issuer p = issuer \<and> map_of (w_providers w') issuer = Some p)"
  using assms
  by (auto simp: Discover_def providers_ok_def Let_def bump_def split: option.splits sum.splits if_splits)

end
