(* ===== verification/Keys.thy ===== *)
theory Keys
  imports Sample
begin

text \<open>
  \<^verbatim>\<open>sidecar/internal/keys\<close>: the signing-key rotator and the JWKS it publishes. The key life cycle is
  next, active, retiring, deleted. The lemmas show that the table never holds two active or two
  next keys, that a rotation without database faults leaves exactly one active key, that a key
  which signed a token stays published until the token has expired, and what a fault between the
  two status updates of a promotion does.
\<close>

section \<open>Definitions\<close>

record Rotator =
  ro_rotationInterval :: int
  ro_overlap :: int
  ro_maxTokenTTL :: int

definition generateEd25519 :: "env \<Rightarrow> (bytes \<times> bytes \<times> string) result eff" where
  "generateEd25519 E = State (\<lambda>w.
     ((case ed25519_GenerateKey E (w_tick w) of
         None \<Rightarrow> Inl (GoWrap ''generateEd25519'' (GoErr ''rand''))
       | Some (pub, priv) \<Rightarrow>
           (case x509_MarshalPKCS8PrivateKey E priv of
              Inl e \<Rightarrow> Inl (GoWrap ''generateEd25519 marshal priv'' e)
            | Inr privDER \<Rightarrow>
                (case x509_MarshalPKIXPublicKey E pub of
                   Inl e \<Rightarrow> Inl (GoWrap ''generateEd25519 marshal pub'' e)
                 | Inr pubDER \<Rightarrow>
                     let pubPEM = pem_EncodeToMemory E ''PUBLIC KEY'' pubDER in
                     Inr (pem_EncodeToMemory E ''PRIVATE KEY'' privDER, pubPEM,
                          hex_EncodeToString (take 8 (sha256_Sum256 pubPEM)))))),
      bump w))"

definition decodePrivatePEM :: "env \<Rightarrow> bytes \<Rightarrow> bytes result" where
  "decodePrivatePEM E pemBytes =
     (case pem_Decode E pemBytes of
        None \<Rightarrow> Inl (GoErr ''decodePrivatePEM: no PEM block'')
      | Some der \<Rightarrow>
          (case x509_ParsePKCS8PrivateKey E der of
             Inl e \<Rightarrow> Inl (GoWrap ''decodePrivatePEM parse'' e)
           | Inr OtherKey \<Rightarrow> Inl (GoErr ''decodePrivatePEM: not Ed25519'')
           | Inr (Ed25519Key priv) \<Rightarrow> Inr priv))"

definition Ensure :: "env \<Rightarrow> Rotator \<Rightarrow> unit result eff" where
  "Ensure E r = do {
     a \<leftarrow> GetActiveSigningKey E;
     case a of
       Inl e \<Rightarrow> State_Monad.return (Inl (GoWrap ''Ensure'' e))
     | Inr (Some active) \<Rightarrow> State_Monad.return (Inr ())
     | Inr None \<Rightarrow> do {
         g \<leftarrow> generateEd25519 E;
         case g of
           Inl e \<Rightarrow> State_Monad.return (Inl (GoWrap ''Ensure generate'' e))
         | Inr (privPEM, pubPEM, kid) \<Rightarrow> do {
             now \<leftarrow> time_Now E;
             InsertSigningKey E kid ''EdDSA'' privPEM pubPEM
               (now + wrap64 (ro_rotationInterval r + ro_maxTokenTTL r + 48 * hour)) ''active'' } } }"

text \<open>The scan of the key list keeps the last key of a status.\<close>

definition last_with :: "string \<Rightarrow> SigningKey list \<Rightarrow> SigningKey option" where
  "last_with st ks = fold (\<lambda>k acc. if sk_Status k = st then Some k else acc) ks None"

definition promote :: "env \<Rightarrow> Rotator \<Rightarrow> time \<Rightarrow> SigningKey \<Rightarrow> SigningKey \<Rightarrow> unit result eff" where
  "promote E r now active nxt = do {
     u \<leftarrow> UpdateSigningKeyStatus E (sk_Kid active) ''retiring'' (now + wrap64 (ro_maxTokenTTL r + hour));
     case u of
       Inl e \<Rightarrow> State_Monad.return (Inl (GoWrap ''rotate retire old'' e))
     | Inr _ \<Rightarrow> do {
         v \<leftarrow> UpdateSigningKeyStatus E (sk_Kid nxt) ''active'' (sk_RetiresAt nxt);
         case v of
           Inl e \<Rightarrow> State_Monad.return (Inl (GoWrap ''rotate promote next'' e))
         | Inr _ \<Rightarrow> State_Monad.return (Inr ()) } }"

definition promote_due :: "env \<Rightarrow> Rotator \<Rightarrow> time \<Rightarrow> SigningKey option \<Rightarrow> SigningKey option \<Rightarrow>
    (SigningKey option \<times> SigningKey option) result eff" where
  "promote_due E r now act nxt =
     (case (act, nxt) of
        (Some a, Some n) \<Rightarrow>
          if sk_CreatedAt n + ro_overlap r < now then do {
            p \<leftarrow> promote E r now a n;
            case p of Inl e \<Rightarrow> State_Monad.return (Inl e) | Inr _ \<Rightarrow> State_Monad.return (Inr (Some n, None)) }
          else State_Monad.return (Inr (act, nxt))
      | _ \<Rightarrow> State_Monad.return (Inr (act, nxt)))"

definition generate_due :: "env \<Rightarrow> Rotator \<Rightarrow> time \<Rightarrow> SigningKey option \<Rightarrow> SigningKey option \<Rightarrow> unit result eff" where
  "generate_due E r now act nxt =
     (case (act, nxt) of
        (Some a, None) \<Rightarrow>
          if sk_CreatedAt a + ro_rotationInterval r < now then do {
            g \<leftarrow> generateEd25519 E;
            case g of
              Inl e \<Rightarrow> State_Monad.return (Inl (GoWrap ''rotate generate'' e))
            | Inr (privPEM, pubPEM, kid) \<Rightarrow> do {
                i \<leftarrow> InsertSigningKey E kid ''EdDSA'' privPEM pubPEM
                  (now + wrap64 (ro_rotationInterval r + ro_maxTokenTTL r + 48 * hour)) ''next'';
                case i of
                  Inl e \<Rightarrow> State_Monad.return (Inl (GoWrap ''rotate insert next'' e))
                | Inr _ \<Rightarrow> State_Monad.return (Inr ()) } }
          else State_Monad.return (Inr ())
      | _ \<Rightarrow> State_Monad.return (Inr ()))"

definition rotate_keys :: "env \<Rightarrow> Rotator \<Rightarrow> unit result eff" where
  "rotate_keys E r = do {
     now \<leftarrow> time_Now E;
     l \<leftarrow> ListSigningKeys E;
     case l of
       Inl e \<Rightarrow> State_Monad.return (Inl (GoWrap ''rotate list'' e))
     | Inr ks \<Rightarrow> do {
         p \<leftarrow> promote_due E r now (last_with ''active'' ks) (last_with ''next'' ks);
         case p of
           Inl e \<Rightarrow> State_Monad.return (Inl e)
         | Inr (act, nxt) \<Rightarrow> do {
             g \<leftarrow> generate_due E r now act nxt;
             case g of
               Inl e \<Rightarrow> State_Monad.return (Inl e)
             | Inr _ \<Rightarrow> DeleteExpiredSigningKeys E } } }"

text \<open>The same tick in the steps between which other goroutines run: each step is one statement on the table,
  and the constructor holds the local variables of \<^verbatim>\<open>rotate\<close> at that point. \<open>RotDone\<close> waits for the next tick;
  \<open>RotRetired\<close> stands between the two updates of a promotion.\<close>

datatype rot_pc =
    RotDone "unit result"
  | RotListed time "SigningKey option" "SigningKey option"
  | RotRetired time SigningKey
  | RotPromoted time "SigningKey option" "SigningKey option"
  | RotCleaning

fun rot_step :: "env \<Rightarrow> Rotator \<Rightarrow> rot_pc \<Rightarrow> rot_pc eff" where
  "rot_step E r (RotDone x) = do {
     now \<leftarrow> time_Now E;
     l \<leftarrow> ListSigningKeys E;
     State_Monad.return (case l of
       Inl e \<Rightarrow> RotDone (Inl (GoWrap ''rotate list'' e))
     | Inr ks \<Rightarrow> RotListed now (last_with ''active'' ks) (last_with ''next'' ks)) }"
| "rot_step E r (RotListed now act nxt) =
     (case (act, nxt) of
        (Some a, Some n) \<Rightarrow>
          if sk_CreatedAt n + ro_overlap r < now then do {
            u \<leftarrow> UpdateSigningKeyStatus E (sk_Kid a) ''retiring'' (now + wrap64 (ro_maxTokenTTL r + hour));
            State_Monad.return (case u of
              Inl e \<Rightarrow> RotDone (Inl (GoWrap ''rotate retire old'' e))
            | Inr _ \<Rightarrow> RotRetired now n) }
          else State_Monad.return (RotPromoted now act nxt)
      | _ \<Rightarrow> State_Monad.return (RotPromoted now act nxt))"
| "rot_step E r (RotRetired now n) = do {
     v \<leftarrow> UpdateSigningKeyStatus E (sk_Kid n) ''active'' (sk_RetiresAt n);
     State_Monad.return (case v of
       Inl e \<Rightarrow> RotDone (Inl (GoWrap ''rotate promote next'' e))
     | Inr _ \<Rightarrow> RotPromoted now (Some n) None) }"
| "rot_step E r (RotPromoted now act nxt) = do {
     g \<leftarrow> generate_due E r now act nxt;
     State_Monad.return (case g of Inl e \<Rightarrow> RotDone (Inl e) | Inr _ \<Rightarrow> RotCleaning) }"
| "rot_step E r RotCleaning = do {
     d \<leftarrow> DeleteExpiredSigningKeys E;
     State_Monad.return (RotDone d) }"

fun rot_iter :: "env \<Rightarrow> Rotator \<Rightarrow> nat \<Rightarrow> rot_pc \<Rightarrow> rot_pc eff" where
  "rot_iter E r 0 pc = State_Monad.return pc"
| "rot_iter E r (Suc n) pc =
     (case pc of RotDone x \<Rightarrow> State_Monad.return pc | _ \<Rightarrow> do { pc' \<leftarrow> rot_step E r pc; rot_iter E r n pc' })"

definition ActiveKey :: "env \<Rightarrow> (SigningKey \<times> bytes) result eff" where
  "ActiveKey E = do {
     a \<leftarrow> GetActiveSigningKey E;
     case a of
       Inl e \<Rightarrow> State_Monad.return (Inl (GoWrap ''ActiveKey'' e))
     | Inr None \<Rightarrow> State_Monad.return (Inl (GoErr ''ActiveKey: no active key''))
     | Inr (Some k) \<Rightarrow>
         (case decodePrivatePEM E (sk_PrivatePEM k) of
            Inl e \<Rightarrow> State_Monad.return (Inl (GoWrap ''ActiveKey decode'' e))
          | Inr priv \<Rightarrow> State_Monad.return (Inr (k, priv))) }"

definition AllPublishableKeys :: "env \<Rightarrow> SigningKey list result eff" where
  "AllPublishableKeys E = ListSigningKeys E"

record JWK =
  jk_Kty :: string
  jk_Crv :: string
  jk_Kid :: string
  jk_Alg :: string
  jk_Use :: string
  jk_X :: string
  jk_N :: string
  jk_E :: string

definition signingKeyToJWK :: "env \<Rightarrow> SigningKey \<Rightarrow> JWK result" where
  "signingKeyToJWK E k =
     (case pem_Decode E (sk_PublicPEM k) of
        None \<Rightarrow> Inl (GoErr ''signingKeyToJWK: no PEM block'')
      | Some der \<Rightarrow>
          (case x509_ParsePKIXPublicKey E der of
             Inl e \<Rightarrow> Inl (GoWrap ''signingKeyToJWK parse'' e)
           | Inr (Ed25519Key p) \<Rightarrow>
               Inr \<lparr>jk_Kty = ''OKP'', jk_Crv = ''Ed25519'', jk_Kid = sk_Kid k, jk_Alg = ''EdDSA'', jk_Use = ''sig'',
                 jk_X = b64_EncodeToString RawURLEncoding p, jk_N = [], jk_E = []\<rparr>
           | Inr OtherKey \<Rightarrow> Inl (GoErr ''signingKeyToJWK: unsupported key type'')))"

fun PublishableJWKS :: "env \<Rightarrow> SigningKey list \<Rightarrow> JWK list result" where
  "PublishableJWKS E [] = Inr []"
| "PublishableJWKS E (k # ks) =
     (case signingKeyToJWK E k of
        Inl e \<Rightarrow> Inl (GoWrap ''PublishableJWKS key'' e)
      | Inr jwk \<Rightarrow> (case PublishableJWKS E ks of Inl e \<Rightarrow> Inl e | Inr jwks \<Rightarrow> Inr (jwk # jwks)))"

text \<open>The JSON of a key set; empty fields marked \<^verbatim>\<open>omitempty\<close> are left out and a nil slice is null.\<close>

definition opt_field :: "string \<Rightarrow> string \<Rightarrow> jmap" where
  "opt_field k v = (if v = [] then [] else [(k, JStr v)])"

definition jwk_json :: "JWK \<Rightarrow> json" where
  "jwk_json j = JObj ([(''kty'', JStr (jk_Kty j))] @ opt_field ''crv'' (jk_Crv j) @ [(''kid'', JStr (jk_Kid j)),
     (''alg'', JStr (jk_Alg j)), (''use'', JStr (jk_Use j))] @ opt_field ''x'' (jk_X j) @ opt_field ''n'' (jk_N j) @
     opt_field ''e'' (jk_E j))"

definition jwks_json :: "JWK list \<Rightarrow> json" where
  "jwks_json ks = JObj [(''keys'', if ks = [] then JNull else JArr (map jwk_json ks))]"

section \<open>The key table\<close>

abbreviation with_status :: "string \<Rightarrow> SigningKey list \<Rightarrow> SigningKey list" where
  "with_status st ks \<equiv> filter (\<lambda>k. sk_Status k = st) ks"

definition keys_inv :: "SigningKey list \<Rightarrow> bool" where
  "keys_inv ks \<longleftrightarrow> unique_key sk_Kid ks \<and> length (with_status ''active'' ks) \<le> 1 \<and>
     length (with_status ''next'' ks) \<le> 1 \<and> (\<forall>k \<in> set ks. signing_status_ok (sk_Status k))"

abbreviation set_status :: "string \<Rightarrow> string \<Rightarrow> time \<Rightarrow> SigningKey list \<Rightarrow> SigningKey list" where
  "set_status kid st t ks \<equiv> sql_update (\<lambda>k. sk_Kid k = kid) (\<lambda>k. k\<lparr>sk_Status := st, sk_RetiresAt := stored_time t\<rparr>) ks"

lemma last_with_Some: "last_with st ks = Some k \<Longrightarrow> k \<in> set ks \<and> sk_Status k = st"
proof -
  have "fold (\<lambda>k acc. if sk_Status k = st then Some k else acc) ks a = Some k \<Longrightarrow>
      a = Some k \<or> k \<in> set ks \<and> sk_Status k = st" for a
    by (induction ks arbitrary: a) (auto split: if_splits)
  then show "last_with st ks = Some k \<Longrightarrow> ?thesis" unfolding last_with_def by blast
qed

lemma last_with_None: "last_with st ks = None \<longleftrightarrow> with_status st ks = []"
proof -
  have "fold (\<lambda>k acc. if sk_Status k = st then Some k else acc) ks a = None \<longleftrightarrow> a = None \<and> with_status st ks = []" for a
    by (induction ks arbitrary: a) auto
  then show ?thesis unfolding last_with_def by simp
qed

lemma set_status_other: "s \<noteq> st \<Longrightarrow> with_status s (set_status kid st t ks) = filter (\<lambda>k. sk_Status k = s \<and> sk_Kid k \<noteq> kid) ks"
  by (induction ks) (auto simp: sql_update_def)

lemma set_status_same:
  "unique_key sk_Kid ks \<Longrightarrow> length (with_status st (set_status kid st t ks)) \<le> Suc (length (filter (\<lambda>k. sk_Status k = st \<and> sk_Kid k \<noteq> kid) ks))"
proof (induction ks)
  case (Cons k ks)
  have "with_status st (set_status kid st t ks) = filter (\<lambda>k. sk_Status k = st \<and> sk_Kid k \<noteq> kid) ks" if "kid \<notin> sk_Kid ` set ks" for ks
    using that by (induction ks) (auto simp: sql_update_def)
  with Cons show ?case by (cases "sk_Kid k = kid") (auto simp: sql_update_def)
qed (simp add: sql_update_def)

lemma one_left: "length (filter P ks) \<le> 1 \<Longrightarrow> k \<in> set ks \<Longrightarrow> P k \<Longrightarrow> P k' \<Longrightarrow> k' \<in> set ks \<Longrightarrow> k' = k"
proof -
  assume l: "length (filter P ks) \<le> 1" and k: "k \<in> set ks" "P k" "P k'" "k' \<in> set ks"
  then have "k \<in> set (filter P ks)" "k' \<in> set (filter P ks)" by auto
  with l show "k' = k" by (cases "filter P ks") auto
qed

lemma keys_inv_retire:
  "keys_inv ks \<Longrightarrow> keys_inv (set_status kid ''retiring'' t ks)"
proof -
  assume i: "keys_inv ks"
  have "length (filter (\<lambda>k. sk_Status k = s \<and> sk_Kid k \<noteq> kid) ks) \<le> length (with_status s ks)" for s
    by (induction ks) auto
  from this [of "''active''"] this [of "''next''"] i show ?thesis
    by (auto simp: keys_inv_def set_status_other sql_update_unique signing_status_ok_def) (auto simp: sql_update_def)
qed

lemma keys_inv_promote:
  assumes "keys_inv ks" "with_status ''active'' ks = []"
  shows "keys_inv (set_status kid ''active'' t ks)"
proof -
  have "length (filter (\<lambda>k. sk_Status k = ''next'' \<and> sk_Kid k \<noteq> kid) ks) \<le> length (with_status ''next'' ks)"
    by (induction ks) auto
  moreover have "filter (\<lambda>k. sk_Status k = ''active'' \<and> sk_Kid k \<noteq> kid) ks = []"
    using assms(2) by (auto simp: filter_empty_conv)
  moreover have "length (with_status ''active'' (set_status kid ''active'' t ks)) \<le> 1"
    using set_status_same [of ks "''active''" kid t] assms calculation(2) by (auto simp: keys_inv_def)
  ultimately show ?thesis
    using assms(1) by (auto simp: keys_inv_def set_status_other sql_update_unique signing_status_ok_def) (auto simp: sql_update_def)
qed

lemma with_status_delete: "with_status st (sql_delete P ks) = sql_delete P (with_status st ks)"
  by (simp add: sql_delete_def conj_commute)

lemma length_sql_delete: "length (sql_delete P t) \<le> length t"
  by (simp add: sql_delete_def)

lemma keys_inv_delete: "keys_inv ks \<Longrightarrow> keys_inv (sql_delete P ks)"
  using length_sql_delete [of P "with_status ''active'' ks"] length_sql_delete [of P "with_status ''next'' ks"]
  by (auto simp: keys_inv_def sql_delete_unique with_status_delete)

section \<open>One tick of the rotator as a change of the table\<close>

lemma run_UpdateSigningKeyStatus:
  assumes "signing_status_ok st"
  shows "run_state (UpdateSigningKeyStatus E kid st t) w =
    (if db_fail E (w_tick w) then (Inl (db_error ''UpdateSigningKeyStatus''), bump w)
     else (Inr (), (bump w)\<lparr>w_db := (w_db w)\<lparr>signing_keys := set_status kid st t (signing_keys (w_db w))\<rparr>\<rparr>))"
  using assms by (simp add: UpdateSigningKeyStatus_def run_db_stmt)

lemma run_DeleteExpiredSigningKeys:
  "run_state (DeleteExpiredSigningKeys E) w =
    (if db_fail E (Suc (w_tick w)) then (Inl (db_error ''DeleteExpiredSigningKeys''), bump (bump w))
     else (Inr (), (bump (bump w))\<lparr>w_db := (w_db w)\<lparr>signing_keys :=
       sql_delete (key_expired (clock E (w_tick w))) (signing_keys (w_db w))\<rparr>\<rparr>))"
  by (simp add: DeleteExpiredSigningKeys_def run_db_stmt)

lemma InsertSigningKey_result:
  assumes "run_state (InsertSigningKey E kid alg priv pub t st) w = (x, w')" "signing_status_ok st"
  shows "(\<exists>e. x = Inl e) \<and> w_db w' = w_db w \<or>
    x = Inr () \<and> kid \<notin> sk_Kid ` set (signing_keys (w_db w)) \<and>
    (\<exists>k. sk_Kid k = kid \<and> sk_Alg k = alg \<and> sk_PrivatePEM k = priv \<and> sk_PublicPEM k = pub \<and> sk_Status k = st \<and>
      w_db w' = (w_db w)\<lparr>signing_keys := signing_keys (w_db w) @ [k]\<rparr>)"
proof -
  let ?k = "\<lparr>sk_Kid = kid, sk_Alg = alg, sk_PrivatePEM = priv, sk_PublicPEM = pub,
    sk_CreatedAt = stored_time (clock E (w_tick w)), sk_RetiresAt = stored_time t, sk_Status = st\<rparr>"
  from assms have "(\<exists>e. x = Inl e) \<and> w_db w' = w_db w \<or>
    x = Inr () \<and> kid \<notin> sk_Kid ` set (signing_keys (w_db w)) \<and>
    w_db w' = (w_db w)\<lparr>signing_keys := signing_keys (w_db w) @ [?k]\<rparr>"
    by (auto simp: InsertSigningKey_def run_db_stmt sql_insert_def split: if_splits)
  moreover have "sk_Kid ?k = kid" "sk_Alg ?k = alg" "sk_PrivatePEM ?k = priv" "sk_PublicPEM ?k = pub" "sk_Status ?k = st"
    by simp_all
  ultimately show ?thesis by blast
qed

lemma generateEd25519_db: "run_state (generateEd25519 E) w = (x, w') \<Longrightarrow> w' = bump w"
  by (auto simp: generateEd25519_def)

definition promoted :: "env \<Rightarrow> Rotator \<Rightarrow> time \<Rightarrow> SigningKey list \<Rightarrow> SigningKey list \<Rightarrow> bool" where
  "promoted E r now ks ks' \<longleftrightarrow> ks' = ks \<or>
     (\<exists>a n. a \<in> set ks \<and> sk_Status a = ''active'' \<and> n \<in> set ks \<and> sk_Status n = ''next'' \<and>
       (let ks1 = set_status (sk_Kid a) ''retiring'' (now + wrap64 (ro_maxTokenTTL r + hour)) ks in
        ks' = ks1 \<and> \<not> no_faults E \<or> ks' = set_status (sk_Kid n) ''active'' (sk_RetiresAt n) ks1))"

definition extended :: "SigningKey list \<Rightarrow> SigningKey list \<Rightarrow> bool" where
  "extended ks ks' \<longleftrightarrow> ks' = ks \<or> (\<exists>k. ks' = ks @ [k] \<and> sk_Kid k \<notin> sk_Kid ` set ks \<and> sk_Status k = ''next'' \<and>
     with_status ''next'' ks = [])"

definition cleaned :: "env \<Rightarrow> nat \<Rightarrow> nat \<Rightarrow> SigningKey list \<Rightarrow> SigningKey list \<Rightarrow> bool" where
  "cleaned E i j ks ks' \<longleftrightarrow> ks' = ks \<or> (\<exists>k. i \<le> k \<and> k < j \<and> ks' = sql_delete (key_expired (clock E k)) ks)"

lemma list_is_all: "keys_inv ks \<Longrightarrow> filter (\<lambda>k. sk_Status k \<in> {''active'', ''next'', ''retiring''}) ks = ks"
  by (auto simp: keys_inv_def signing_status_ok_def filter_id_conv)

lemma no_next_left:
  "\<forall>k \<in> set ks. sk_Status k = ''next'' \<longrightarrow> sk_Kid k = n \<Longrightarrow>
   with_status ''next'' (set_status n ''active'' t (set_status a ''retiring'' t' ks)) = []"
proof -
  assume n: "\<forall>k \<in> set ks. sk_Status k = ''next'' \<longrightarrow> sk_Kid k = n"
  let ?ks = "set_status a ''retiring'' t' ks"
  have "\<not> (sk_Status k = ''next'' \<and> sk_Kid k \<noteq> n)" if k: "k \<in> set ?ks" for k
  proof -
    from k obtain k0 where k0: "k0 \<in> set ks" "k = (if sk_Kid k0 = a then k0\<lparr>sk_Status := ''retiring'', sk_RetiresAt := stored_time t'\<rparr> else k0)"
      unfolding sql_update_def by auto
    show ?thesis
    proof (cases "sk_Kid k0 = a")
      case False
      with k0 n show ?thesis by simp
    qed (simp add: k0(2))
  qed
  then show ?thesis by (simp add: set_status_other filter_empty_conv)
qed

lemma promote_due_result:
  assumes "run_state (promote_due E r now act nxt) w = (x, w')" "keys_inv (signing_keys (w_db w))"
    "act = last_with ''active'' (signing_keys (w_db w))" "nxt = last_with ''next'' (signing_keys (w_db w))"
  shows "\<exists>ks'. w_db w' = (w_db w)\<lparr>signing_keys := ks'\<rparr> \<and> promoted E r now (signing_keys (w_db w)) ks' \<and> w_tick w \<le> w_tick w' \<and>
    (\<forall>a n. x = Inr (a, n) \<and> n = None \<longrightarrow> with_status ''next'' ks' = [])"
proof (cases "act = None \<or> nxt = None")
  case True
  with assms show ?thesis
    by (auto simp: promote_due_def promoted_def last_with_None [symmetric] intro!: exI [of _ "signing_keys (w_db w)"] split: option.splits)
next
  case False
  then obtain a n where an: "act = Some a" "nxt = Some n" by auto
  let ?ks = "signing_keys (w_db w)"
  from an assms(3,4) have a: "a \<in> set ?ks" "sk_Status a = ''active''" and n: "n \<in> set ?ks" "sk_Status n = ''next''"
    using last_with_Some [of "''active''" ?ks a] last_with_Some [of "''next''" ?ks n] by auto
  let ?ks1 = "set_status (sk_Kid a) ''retiring'' (now + wrap64 (ro_maxTokenTTL r + hour)) ?ks"
  let ?ks2 = "set_status (sk_Kid n) ''active'' (sk_RetiresAt n) ?ks1"
  have ok: "signing_status_ok ''retiring''" "signing_status_ok ''active''" by (simp_all add: signing_status_ok_def)
  have gone: "with_status ''next'' ?ks2 = []"
  proof -
    have "length (with_status ''next'' ?ks) \<le> 1" using assms(2) by (simp add: keys_inv_def)
    from one_left [OF this n] have "\<forall>k \<in> set ?ks. sk_Status k = ''next'' \<longrightarrow> sk_Kid k = sk_Kid n" by blast
    then show ?thesis by (rule no_next_left)
  qed
  have p1: "promoted E r now ?ks ?ks1" if "\<not> no_faults E"
    using a n that unfolding promoted_def Let_def by blast
  have p2: "promoted E r now ?ks ?ks2" using a n unfolding promoted_def Let_def by blast
  have p0: "promoted E r now ?ks ?ks" by (simp add: promoted_def)
  show ?thesis
  proof (cases "sk_CreatedAt n + ro_overlap r < now")
    case False
    with assms(1) an have "w' = w" "x = Inr (act, nxt)" by (auto simp: promote_due_def)
    with an p0 show ?thesis by (intro exI [of _ ?ks]) simp
  next
    case True
    consider "db_fail E (w_tick w)" | "\<not> db_fail E (w_tick w)" "db_fail E (Suc (w_tick w))"
      | "\<not> db_fail E (w_tick w)" "\<not> db_fail E (Suc (w_tick w))" by blast
    then show ?thesis
    proof cases
      case 1
      with assms(1) an True have "w' = bump w" "\<exists>e. x = Inl e"
        by (auto simp: promote_due_def promote_def run_UpdateSigningKeyStatus [OF ok(1)])
      with p0 show ?thesis by (intro exI [of _ ?ks]) auto
    next
      case 2
      then have "\<not> no_faults E" by (auto simp: no_faults_def)
      with 2 assms(1) an True p1 show ?thesis
        by (auto simp: promote_due_def promote_def run_UpdateSigningKeyStatus [OF ok(1)] run_UpdateSigningKeyStatus [OF ok(2)])
    next
      case 3
      with assms(1) an True p2 gone show ?thesis
        by (auto simp: promote_due_def promote_def run_UpdateSigningKeyStatus [OF ok(1)] run_UpdateSigningKeyStatus [OF ok(2)])
    qed
  qed
qed

lemma generate_due_result:
  assumes "run_state (generate_due E r now act nxt) w = (x, w')"
    "nxt = None \<Longrightarrow> with_status ''next'' (signing_keys (w_db w)) = []"
  shows "\<exists>ks'. w_db w' = (w_db w)\<lparr>signing_keys := ks'\<rparr> \<and> extended (signing_keys (w_db w)) ks' \<and> w_tick w \<le> w_tick w'"
proof -
  let ?ks = "signing_keys (w_db w)"
  have same: "\<exists>ks'. w_db w' = (w_db w)\<lparr>signing_keys := ks'\<rparr> \<and> extended ?ks ks'" if "w_db w' = w_db w"
    using that by (intro exI [of _ ?ks]) (simp add: extended_def)
  have tick: "w_tick w \<le> w_tick w'"
    using assms(1) by (auto simp: generate_due_def generateEd25519_def InsertSigningKey_def run_db_stmt split: option.splits if_splits sum.splits prod.splits)
  show ?thesis
  proof (cases "\<exists>a. act = Some a \<and> nxt = None \<and> sk_CreatedAt a + ro_rotationInterval r < now")
    case False
    with assms(1) have "w' = w" by (auto simp: generate_due_def split: option.splits)
    with same tick show ?thesis by auto
  next
    case True
    then obtain a where a: "act = Some a" "nxt = None" "sk_CreatedAt a + ro_rotationInterval r < now" by blast
    obtain g w1 where g: "run_state (generateEd25519 E) w = (g, w1)" by fastforce
    from generateEd25519_db [OF g] have w1: "w1 = bump w" .
    show ?thesis
    proof (cases g)
      case (Inl e)
      with a g w1 assms(1) have "w' = bump w" by (auto simp: generate_due_def)
      with same tick show ?thesis by auto
    next
      case (Inr y)
      obtain priv pub kid where y: "y = (priv, pub, kid)" by (cases y)
      obtain i w2 where i: "run_state (InsertSigningKey E kid ''EdDSA'' priv pub
          (now + wrap64 (ro_rotationInterval r + ro_maxTokenTTL r + 48 * hour)) ''next'') w1 = (i, w2)" by fastforce
      with a g Inr y assms(1) have w2: "w' = w2" by (auto simp: generate_due_def split: sum.splits)
      from InsertSigningKey_result [OF i] w1 w2 same tick assms(2) [OF a(2)] show ?thesis
        by (auto simp: signing_status_ok_def extended_def)
    qed
  qed
qed

text \<open>Every tick is a promotion, then an extension by a next key, then a clean-up; each may be void.\<close>

lemma rotate_result:
  assumes run: "run_state (rotate_keys E r) w = (x, w')" and inv: "keys_inv (signing_keys (w_db w))"
  shows "\<exists>ks1 ks2 ks3. promoted E r (clock E (w_tick w)) (signing_keys (w_db w)) ks1 \<and> extended ks1 ks2 \<and>
    cleaned E (w_tick w) (w_tick w') ks2 ks3 \<and> w_db w' = (w_db w)\<lparr>signing_keys := ks3\<rparr> \<and> w_tick w \<le> w_tick w'"
proof -
  let ?ks = "signing_keys (w_db w)" and ?now = "clock E (w_tick w)"
  have triv: "promoted E r ?now ?ks ?ks" "extended k k" "cleaned E i j k k" for i j k
    by (simp_all add: promoted_def extended_def cleaned_def)
  show ?thesis
  proof (cases "db_fail E (Suc (w_tick w))")
    case True
    with run have "w' = bump (bump w)" by (auto simp: rotate_keys_def store_run)
    then have "w_db w' = (w_db w)\<lparr>signing_keys := ?ks\<rparr>" "w_tick w \<le> w_tick w'" by simp_all
    with triv show ?thesis by blast
  next
    case False
    let ?w = "bump (bump w)"
    obtain p w1 where p: "run_state (promote_due E r ?now (last_with ''active'' ?ks) (last_with ''next'' ?ks)) ?w = (p, w1)"
      by fastforce
    from promote_due_result [OF p] inv obtain ks1 where ks1: "w_db w1 = (w_db w)\<lparr>signing_keys := ks1\<rparr>"
      "promoted E r ?now ?ks ks1" "w_tick ?w \<le> w_tick w1" "\<And>a. p = Inr (a, None) \<Longrightarrow> with_status ''next'' ks1 = []" by auto
    show ?thesis
    proof (cases p)
      case (Inl e)
      with run False p list_is_all [OF inv] have "w' = w1" by (auto simp: rotate_keys_def store_run)
      with ks1 triv show ?thesis by (metis bump_simps(1) Suc_leD)
    next
      case (Inr y)
      obtain act nxt where y: "y = (act, nxt)" by (cases y)
      obtain g w2 where g: "run_state (generate_due E r ?now act nxt) w1 = (g, w2)" by fastforce
      from generate_due_result [OF g] ks1 Inr y obtain ks2 where ks2: "w_db w2 = (w_db w)\<lparr>signing_keys := ks2\<rparr>"
        "extended ks1 ks2" "w_tick w1 \<le> w_tick w2" by auto
      have t: "w_tick w \<le> w_tick w2" using ks1(3) ks2(3) by simp
      show ?thesis
      proof (cases g)
        case (Inl e)
        with run False p Inr y g list_is_all [OF inv] have "w' = w2" by (auto simp: rotate_keys_def store_run)
        with ks1 ks2 t triv show ?thesis by metis
      next
        case gr: (Inr u)
        with run False p Inr y g list_is_all [OF inv] have d: "run_state (DeleteExpiredSigningKeys E) w2 = (x, w')"
          by (auto simp: rotate_keys_def store_run)
        have t': "w_tick w \<le> w_tick w'" using t d by (auto simp: run_DeleteExpiredSigningKeys split: if_splits)
        have "\<exists>ks3. cleaned E (w_tick w) (w_tick w') ks2 ks3 \<and> w_db w' = (w_db w)\<lparr>signing_keys := ks3\<rparr>"
        proof (cases "db_fail E (Suc (w_tick w2))")
          case True
          with d ks2(1) triv(3) show ?thesis by (intro exI [of _ ks2]) (auto simp: run_DeleteExpiredSigningKeys)
        next
          case False
          with d ks2(1) t show ?thesis
            by (intro exI [of _ "sql_delete (key_expired (clock E (w_tick w2))) ks2"])
              (auto simp: run_DeleteExpiredSigningKeys cleaned_def intro!: exI [of _ "w_tick w2"])
        qed
        with ks1(2) ks2(2) t' show ?thesis by blast
      qed
    qed
  qed
qed

section \<open>At most one active and one next key\<close>

lemma active_retired:
  assumes "keys_inv ks" "a \<in> set ks" "sk_Status a = ''active''"
  shows "with_status ''active'' (set_status (sk_Kid a) ''retiring'' t ks) = []"
proof -
  have l: "length (with_status ''active'' ks) \<le> 1" using assms(1) by (simp add: keys_inv_def)
  have "\<forall>k \<in> set ks. sk_Status k = ''active'' \<longrightarrow> sk_Kid k = sk_Kid a"
    using one_left [of "\<lambda>k. sk_Status k = ''active''", OF l assms(2,3)] by blast
  then show ?thesis by (simp add: set_status_other filter_empty_conv)
qed

lemma keys_inv_promoted: "keys_inv ks \<Longrightarrow> promoted E r now ks ks' \<Longrightarrow> keys_inv ks'"
  unfolding promoted_def Let_def
  by (elim disjE exE conjE) (simp_all add: keys_inv_retire keys_inv_promote active_retired)

lemma keys_inv_extended: "keys_inv ks \<Longrightarrow> extended ks ks' \<Longrightarrow> keys_inv ks'"
  by (auto simp: extended_def keys_inv_def signing_status_ok_def)

lemma keys_inv_cleaned: "keys_inv ks \<Longrightarrow> cleaned E i j ks ks' \<Longrightarrow> keys_inv ks'"
  by (auto simp: cleaned_def keys_inv_delete)

lemma keys_inv_rotate:
  assumes "run_state (rotate_keys E r) w = (x, w')" "keys_inv (signing_keys (w_db w))"
  shows "keys_inv (signing_keys (w_db w'))"
proof -
  from rotate_result [OF assms] obtain ks1 ks2 ks3 where
    "promoted E r (clock E (w_tick w)) (signing_keys (w_db w)) ks1" "extended ks1 ks2"
    "cleaned E (w_tick w) (w_tick w') ks2 ks3" "w_db w' = (w_db w)\<lparr>signing_keys := ks3\<rparr>" by blast
  with keys_inv_cleaned [OF keys_inv_extended [OF keys_inv_promoted [OF assms(2)]]] show ?thesis by fastforce
qed

lemma Ensure_result:
  assumes "run_state (Ensure E r) w = (x, w')"
  shows "w_db w' = w_db w \<and> (x = Inr () \<longrightarrow> with_status ''active'' (signing_keys (w_db w)) \<noteq> []) \<or>
    x = Inr () \<and> with_status ''active'' (signing_keys (w_db w)) = [] \<and>
    (\<exists>k. sk_Status k = ''active'' \<and> sk_Kid k \<notin> sk_Kid ` set (signing_keys (w_db w)) \<and>
      w_db w' = (w_db w)\<lparr>signing_keys := signing_keys (w_db w) @ [k]\<rparr>)"
proof -
  let ?find = "List.find (\<lambda>k. sk_Status k = ''active'') (signing_keys (w_db w))"
  have find: "?find = None \<longleftrightarrow> with_status ''active'' (signing_keys (w_db w)) = []"
    by (simp add: find_None_iff filter_empty_conv Ball_def)
  consider "db_fail E (w_tick w)" | a where "\<not> db_fail E (w_tick w)" "?find = Some a" | "\<not> db_fail E (w_tick w)" "?find = None"
    by fastforce
  then show ?thesis
  proof cases
    case 1
    with assms show ?thesis by (auto simp: Ensure_def store_run)
  next
    case 2
    with assms have "x = Inr ()" "w' = bump w" by (auto simp: Ensure_def store_run)
    with 2 find show ?thesis by simp
  next
    case 3
    with find have none: "with_status ''active'' (signing_keys (w_db w)) = []" by simp
    obtain g w1 where g: "run_state (generateEd25519 E) (bump w) = (g, w1)" by fastforce
    from generateEd25519_db [OF g] have w1: "w1 = bump (bump w)" .
    show ?thesis
    proof (cases g)
      case (Inl e)
      with assms 3 g w1 have "w' = bump (bump w)" "\<exists>e. x = Inl e" by (auto simp: Ensure_def store_run)
      then show ?thesis by auto
    next
      case (Inr y)
      obtain priv pub kid where y: "y = (priv, pub, kid)" by (cases y)
      with assms 3 g w1 Inr have i: "run_state (InsertSigningKey E kid ''EdDSA'' priv pub
          (clock E (w_tick w1) + wrap64 (ro_rotationInterval r + ro_maxTokenTTL r + 48 * hour)) ''active'') (bump w1) = (x, w')"
        by (simp add: Ensure_def store_run)
      from InsertSigningKey_result [OF i] w1 none show ?thesis by (simp add: signing_status_ok_def) blast
    qed
  qed
qed

lemma keys_inv_Ensure:
  assumes "run_state (Ensure E r) w = (x, w')" "keys_inv (signing_keys (w_db w))"
  shows "keys_inv (signing_keys (w_db w'))"
  using Ensure_result [OF assms(1)] assms(2) by (auto simp: keys_inv_def signing_status_ok_def)

section \<open>One step of the rotator\<close>

text \<open>Without interruption the steps are the tick; four suffice after the first.\<close>

lemma rot_iter_done [simp]: "rot_iter E r n (RotDone x) = State_Monad.return (RotDone x)"
  by (cases n) simp_all

lemma rot_iter_more: "\<forall>x. pc \<noteq> RotDone x \<Longrightarrow> rot_iter E r (Suc n) pc = State_Monad.bind (rot_step E r pc) (rot_iter E r n)"
  by (cases pc) simp_all

lemma rot_iter_clean:
  "run_state (rot_iter E r (Suc n) RotCleaning) w = (let (d, w') = run_state (DeleteExpiredSigningKeys E) w in (RotDone d, w'))"
  by (simp add: split_beta)

lemma rot_iter_generate:
  "run_state (rot_iter E r (Suc (Suc n)) (RotPromoted now act nxt)) w =
   run_state (do { g \<leftarrow> generate_due E r now act nxt;
     case g of Inl e \<Rightarrow> State_Monad.return (RotDone (Inl e)) | Inr _ \<Rightarrow> do { d \<leftarrow> DeleteExpiredSigningKeys E; State_Monad.return (RotDone d) } }) w"
  by (simp del: rot_iter.simps add: rot_iter_more rot_iter_clean split: prod.split sum.split)

lemma rot_iter_promote:
  "run_state (rot_iter E r (Suc (Suc (Suc (Suc n)))) (RotListed now act nxt)) w =
   run_state (do { p \<leftarrow> promote_due E r now act nxt;
     case p of
       Inl e \<Rightarrow> State_Monad.return (RotDone (Inl e))
     | Inr (act, nxt) \<Rightarrow> do { g \<leftarrow> generate_due E r now act nxt;
         case g of Inl e \<Rightarrow> State_Monad.return (RotDone (Inl e)) | Inr _ \<Rightarrow> do { d \<leftarrow> DeleteExpiredSigningKeys E; State_Monad.return (RotDone d) } } }) w"
proof (cases "\<exists>a m. act = Some a \<and> nxt = Some m \<and> sk_CreatedAt m + ro_overlap r < now")
  case True
  then obtain a m where am: "act = Some a" "nxt = Some m" "sk_CreatedAt m + ro_overlap r < now" by blast
  show ?thesis
    using am(3) unfolding am(1,2)
    by (simp del: rot_iter.simps add: rot_iter_more [of "RotListed now (Some a) (Some m)"] rot_iter_more [of "RotRetired now m"]
        rot_iter_generate promote_due_def promote_def split: prod.split sum.split)
next
  case False
  then have "promote_due E r now act nxt = State_Monad.return (Inr (act, nxt))" "rot_step E r (RotListed now act nxt) = State_Monad.return (RotPromoted now act nxt)"
    by (auto simp: promote_due_def split: option.split)
  then show ?thesis by (simp del: rot_iter.simps add: rot_iter_more [of "RotListed now act nxt"] rot_iter_generate)
qed

lemma rot_steps_are_rotate:
  "run_state (do { pc \<leftarrow> rot_step E r (RotDone y); rot_iter E r 4 pc }) w =
   run_state (do { x \<leftarrow> rotate_keys E r; State_Monad.return (RotDone x) }) w"
proof -
  have 4: "(4 :: nat) = Suc (Suc (Suc (Suc 0)))" by simp
  show ?thesis
    unfolding 4 by (simp del: rot_iter.simps add: rotate_keys_def rot_iter_promote split: prod.split sum.split)
qed

text \<open>What a step relies on while others run: they leave the active and the next keys alone.\<close>

lemma last_with_last: "last_with st ks = (if with_status st ks = [] then None else Some (last (with_status st ks)))"
proof -
  have "fold (\<lambda>k acc. if sk_Status k = st then Some k else acc) ks a = (if with_status st ks = [] then a else Some (last (with_status st ks)))" for a
    by (induction ks arbitrary: a) auto
  then show ?thesis unfolding last_with_def by simp
qed

definition rot_ok :: "rot_pc \<Rightarrow> SigningKey list \<Rightarrow> bool" where
  "rot_ok pc ks \<longleftrightarrow> (case pc of
     RotListed now act nxt \<Rightarrow> act = last_with ''active'' ks \<and> nxt = last_with ''next'' ks
   | RotRetired now n \<Rightarrow> with_status ''active'' ks = [] \<and> n \<in> set (with_status ''next'' ks)
   | RotPromoted now act nxt \<Rightarrow> nxt = None \<longrightarrow> with_status ''next'' ks = []
   | _ \<Rightarrow> True)"

lemma with_status_expired: "st \<noteq> ''retiring'' \<Longrightarrow> with_status st (sql_delete (key_expired t) ks) = with_status st ks"
  by (induction ks) (auto simp: sql_delete_def key_expired_def)

lemma rot_ok_expired: "rot_ok pc (sql_delete (key_expired t) ks) = rot_ok pc ks"
  by (simp add: rot_ok_def last_with_last with_status_expired split: rot_pc.split)

lemma set_status_cases:
  assumes "k \<in> set ks"
  shows "(if sk_Kid k = kid then k\<lparr>sk_Status := st, sk_RetiresAt := stored_time t\<rparr> else k) \<in> set (set_status kid st t ks)"
  using assms by (auto simp: sql_update_def)

lemma rot_step_retired:
  assumes "run_state (rot_step E r (RotRetired now n)) w = (pc', w')" "keys_inv (signing_keys (w_db w))"
    "rot_ok (RotRetired now n) (signing_keys (w_db w))"
  shows "w_db w' = w_db w \<and> \<not> no_faults E \<and> (\<exists>x. pc' = RotDone x) \<or>
    (\<exists>ks. w_db w' = (w_db w)\<lparr>signing_keys := ks\<rparr> \<and> keys_inv ks \<and> pc' = RotPromoted now (Some n) None \<and>
      with_status ''next'' ks = [] \<and> length (with_status ''active'' ks) = 1)"
proof -
  let ?ks = "signing_keys (w_db w)"
  let ?ks' = "set_status (sk_Kid n) ''active'' (sk_RetiresAt n) ?ks"
  from assms(3) have a: "with_status ''active'' ?ks = []" and n: "n \<in> set ?ks" "sk_Status n = ''next''" by (auto simp: rot_ok_def)
  have ok: "signing_status_ok ''active''" by (simp add: signing_status_ok_def)
  have inv: "keys_inv ?ks'" by (rule keys_inv_promote [OF assms(2) a])
  have l: "length (with_status ''next'' ?ks) \<le> 1" using assms(2) by (simp add: keys_inv_def)
  from one_left [OF l n] have "with_status ''next'' ?ks' = []" by (auto simp: set_status_other filter_empty_conv)
  moreover have "with_status ''active'' ?ks' \<noteq> []"
    using set_status_cases [OF n(1), where kid = "sk_Kid n" and st = "''active''" and t = "sk_RetiresAt n"]
    unfolding filter_empty_conv by (intro notI) (drule (1) bspec, simp)
  ultimately have "with_status ''next'' ?ks' = [] \<and> length (with_status ''active'' ?ks') = 1"
    using inv by (simp add: keys_inv_def le_Suc_eq)
  with inv assms(1) show ?thesis
    by (auto simp: run_UpdateSigningKeyStatus [OF ok] no_faults_def split: if_splits)
qed

lemma rot_step_promotes:
  assumes "run_state (rot_step E r (RotRetired now n)) w = (pc', w')" "keys_inv (signing_keys (w_db w))"
    "rot_ok (RotRetired now n) (signing_keys (w_db w))" "no_faults E"
  shows "\<exists>k. with_status ''active'' (signing_keys (w_db w')) = [k] \<and> sk_Kid k = sk_Kid n"
proof -
  have ok: "signing_status_ok ''active''" by (simp add: signing_status_ok_def)
  from assms(1,4) have w': "signing_keys (w_db w') = set_status (sk_Kid n) ''active'' (sk_RetiresAt n) (signing_keys (w_db w))"
    by (auto simp: run_UpdateSigningKeyStatus [OF ok] no_faults_def)
  from rot_step_retired [OF assms(1-3)] assms(4) have "length (with_status ''active'' (signing_keys (w_db w'))) = 1" by auto
  then obtain k where k: "with_status ''active'' (signing_keys (w_db w')) = [k]" by (auto simp: length_Suc_conv)
  have "k \<in> set (with_status ''active'' (signing_keys (w_db w')))" unfolding k by simp
  then have "k \<in> set (signing_keys (w_db w'))" "sk_Status k = ''active''" by simp_all
  moreover have "with_status ''active'' (signing_keys (w_db w)) = []" using assms(3) by (simp add: rot_ok_def)
  ultimately have "sk_Kid k = sk_Kid n" unfolding w' by (auto simp: sql_update_def filter_empty_conv split: if_splits)
  with k show ?thesis by blast
qed

lemma rot_step_listed:
  assumes "run_state (rot_step E r (RotListed now act nxt)) w = (pc', w')" "keys_inv (signing_keys (w_db w))"
    "rot_ok (RotListed now act nxt) (signing_keys (w_db w))"
  shows "w_db w' = w_db w \<and> rot_ok pc' (signing_keys (w_db w)) \<or>
    (\<exists>ks n. w_db w' = (w_db w)\<lparr>signing_keys := ks\<rparr> \<and> keys_inv ks \<and> pc' = RotRetired now n \<and> rot_ok pc' ks)"
proof -
  let ?ks = "signing_keys (w_db w)"
  show ?thesis
  proof (cases "\<exists>a m. act = Some a \<and> nxt = Some m \<and> sk_CreatedAt m + ro_overlap r < now")
    case False
    with assms(1) have "pc' = RotPromoted now act nxt" "w' = w" by (auto split: option.splits)
    with assms(3) show ?thesis by (auto simp: rot_ok_def last_with_None)
  next
    case True
    then obtain a m where am: "act = Some a" "nxt = Some m" "sk_CreatedAt m + ro_overlap r < now" by blast
    have a: "a \<in> set ?ks" "sk_Status a = ''active''" and m: "m \<in> set ?ks" "sk_Status m = ''next''"
      using am assms(3) last_with_Some [of "''active''" ?ks a] last_with_Some [of "''next''" ?ks m] by (auto simp: rot_ok_def)
    let ?t = "now + wrap64 (ro_maxTokenTTL r + hour)"
    let ?ks' = "set_status (sk_Kid a) ''retiring'' ?t ?ks"
    have ok: "signing_status_ok ''retiring''" by (simp add: signing_status_ok_def)
    have "m = a" if "sk_Kid m = sk_Kid a"
      using that assms(2) a m by (auto simp: keys_inv_def distinct_map inj_on_def)
    with a m have "m \<in> set (with_status ''next'' ?ks')" by (auto simp: set_status_other)
    then have r: "rot_ok (RotRetired now m) ?ks'" by (simp add: rot_ok_def active_retired [OF assms(2) a])
    show ?thesis
    proof (cases "db_fail E (w_tick w)")
      case True
      with assms(1) am ok show ?thesis by (auto simp: run_UpdateSigningKeyStatus rot_ok_def)
    next
      case False
      with assms(1) am ok r keys_inv_retire [OF assms(2), of "sk_Kid a" ?t] show ?thesis
        by (auto simp: run_UpdateSigningKeyStatus)
    qed
  qed
qed

lemma rot_step_inv:
  assumes "run_state (rot_step E r pc) w = (pc', w')" "keys_inv (signing_keys (w_db w))" "rot_ok pc (signing_keys (w_db w))"
  shows "\<exists>ks. w_db w' = (w_db w)\<lparr>signing_keys := ks\<rparr> \<and> keys_inv ks \<and> rot_ok pc' ks \<and>
    (no_faults E \<longrightarrow> (if \<exists>now n. pc = RotRetired now n then length (with_status ''active'' ks) = 1
       else (\<exists>now n. pc' = RotRetired now n) \<or> length (with_status ''active'' ks) = length (with_status ''active'' (signing_keys (w_db w)))))"
proof -
  let ?ks = "signing_keys (w_db w)"
  have same: ?thesis if "w_db w' = w_db w" "rot_ok pc' ?ks" "\<And>now n. pc \<noteq> RotRetired now n"
    using that assms(2) by (intro exI [of _ ?ks]) simp
  show ?thesis
  proof (cases pc)
    case (RotDone x)
    with assms(1) list_is_all [OF assms(2)] have "w_db w' = w_db w \<and> rot_ok pc' ?ks"
      by (auto simp: store_run rot_ok_def split: if_splits)
    with same RotDone show ?thesis by simp
  next
    case (RotListed now act nxt)
    from rot_step_listed [OF assms(1) [unfolded RotListed] assms(2) assms(3) [unfolded RotListed]] show ?thesis
    proof
      assume "w_db w' = w_db w \<and> rot_ok pc' ?ks"
      with same RotListed show ?thesis by simp
    qed (use RotListed in auto)
  next
    case (RotRetired now n)
    have p: "rot_ok (RotPromoted now (Some n) None) ks" if "with_status ''next'' ks = []" for ks using that by (simp add: rot_ok_def)
    from rot_step_retired [OF assms(1) [unfolded RotRetired] assms(2) assms(3) [unfolded RotRetired]] show ?thesis
    proof (elim disjE exE conjE)
      fix ks assume "w_db w' = (w_db w)\<lparr>signing_keys := ks\<rparr>" "keys_inv ks" "pc' = RotPromoted now (Some n) None"
        "with_status ''next'' ks = []" "length (with_status ''active'' ks) = 1"
      with p RotRetired show ?thesis by (intro exI [of _ ks]) simp
    next
      fix x assume "w_db w' = w_db w" "\<not> no_faults E" "pc' = RotDone x"
      with assms(2) show ?thesis by (intro exI [of _ ?ks]) (simp add: rot_ok_def)
    qed
  next
    case (RotPromoted now act nxt)
    with assms(1) obtain g where g: "run_state (generate_due E r now act nxt) w = (g, w')"
      and pc': "pc' = (case g of Inl e \<Rightarrow> RotDone (Inl e) | Inr _ \<Rightarrow> RotCleaning)" by (auto split: prod.splits)
    from generate_due_result [OF g] RotPromoted assms(3) obtain ks where ks: "w_db w' = (w_db w)\<lparr>signing_keys := ks\<rparr>" "extended ?ks ks"
      by (auto simp: rot_ok_def)
    have "with_status ''active'' ks = with_status ''active'' ?ks" using ks(2) by (auto simp: extended_def)
    with ks pc' RotPromoted keys_inv_extended [OF assms(2) ks(2)] show ?thesis
      by (intro exI [of _ ks]) (simp add: rot_ok_def split: sum.split)
  next
    case RotCleaning
    with assms(1) have pc': "\<exists>x. pc' = RotDone x" and "w_db w' = w_db w \<or> (\<exists>t. w_db w' = (w_db w)\<lparr>signing_keys := sql_delete (key_expired t) ?ks\<rparr>)"
      by (auto simp: run_DeleteExpiredSigningKeys split: if_splits)
    then show ?thesis
    proof (elim disjE exE)
      assume "w_db w' = w_db w"
      with same RotCleaning pc' show ?thesis by (auto simp: rot_ok_def)
    next
      fix t x assume "w_db w' = (w_db w)\<lparr>signing_keys := sql_delete (key_expired t) ?ks\<rparr>" "pc' = RotDone x"
      with RotCleaning keys_inv_delete [OF assms(2)] show ?thesis
        by (intro exI [of _ "sql_delete (key_expired t) ?ks"]) (simp add: rot_ok_def with_status_expired)
    qed
  qed
qed

section \<open>A key stays published while its tokens live\<close>

definition vouched :: "string \<Rightarrow> bytes \<Rightarrow> time \<Rightarrow> SigningKey list \<Rightarrow> bool" where
  "vouched kid pub T ks \<longleftrightarrow> (\<exists>k \<in> set ks. sk_Kid k = kid \<and> sk_PublicPEM k = pub \<and>
     (sk_Status k = ''active'' \<or> sk_Status k = ''retiring'' \<and> unix_sec T < unix_sec (sk_RetiresAt k)))"

lemma vouched_retire:
  assumes "vouched kid pub T ks" "unix_sec T < unix_sec t"
  shows "vouched kid pub T (set_status a ''retiring'' t ks)"
proof -
  from assms(1) obtain k where k: "k \<in> set ks" "sk_Kid k = kid" "sk_PublicPEM k = pub"
    "sk_Status k = ''active'' \<or> sk_Status k = ''retiring'' \<and> unix_sec T < unix_sec (sk_RetiresAt k)"
    unfolding vouched_def by blast
  let ?k = "if sk_Kid k = a then k\<lparr>sk_Status := ''retiring'', sk_RetiresAt := stored_time t\<rparr> else k"
  have "?k \<in> set (set_status a ''retiring'' t ks)" using k(1) by (rule set_status_cases)
  moreover have "sk_Kid ?k = kid" "sk_PublicPEM ?k = pub"
    "sk_Status ?k = ''active'' \<or> sk_Status ?k = ''retiring'' \<and> unix_sec T < unix_sec (sk_RetiresAt ?k)"
    using k assms(2) by simp_all
  ultimately show ?thesis unfolding vouched_def by blast
qed

lemma vouched_activate:
  assumes "vouched kid pub T ks" "\<forall>k \<in> set ks. sk_Kid k = n \<longrightarrow> sk_Status k = ''next''"
  shows "vouched kid pub T (set_status n ''active'' t ks)"
proof -
  from assms(1) obtain k where k: "k \<in> set ks" "sk_Kid k = kid" "sk_PublicPEM k = pub"
    "sk_Status k = ''active'' \<or> sk_Status k = ''retiring'' \<and> unix_sec T < unix_sec (sk_RetiresAt k)"
    unfolding vouched_def by blast
  with assms(2) have "sk_Kid k \<noteq> n" by auto
  with k set_status_cases [OF k(1), where kid = n and st = "''active''" and t = t] show ?thesis unfolding vouched_def by auto
qed

lemma vouched_promoted:
  assumes "keys_inv ks" "vouched kid pub T ks" "promoted E r now ks ks'"
    "unix_sec T < unix_sec (now + wrap64 (ro_maxTokenTTL r + hour))"
  shows "vouched kid pub T ks'"
proof -
  let ?t = "now + wrap64 (ro_maxTokenTTL r + hour)"
  have "vouched kid pub T (set_status (sk_Kid n) ''active'' t (set_status (sk_Kid a) ''retiring'' ?t ks))"
    if an: "a \<in> set ks" "sk_Status a = ''active''" "n \<in> set ks" "sk_Status n = ''next''" for a n t
  proof (rule vouched_activate)
    show "vouched kid pub T (set_status (sk_Kid a) ''retiring'' ?t ks)" using assms by (simp add: vouched_retire)
    have u: "\<And>k k'. k \<in> set ks \<Longrightarrow> k' \<in> set ks \<Longrightarrow> sk_Kid k = sk_Kid k' \<Longrightarrow> k = k'"
      using assms(1) by (auto simp: keys_inv_def distinct_map inj_on_def)
    have ne: "sk_Kid a \<noteq> sk_Kid n" using u [OF an(1,3)] an by auto
    show "\<forall>k \<in> set (set_status (sk_Kid a) ''retiring'' ?t ks). sk_Kid k = sk_Kid n \<longrightarrow> sk_Status k = ''next''"
      using ne u [OF _ an(3)] an(4) by (auto simp: sql_update_def)
  qed
  with assms show ?thesis unfolding promoted_def Let_def by (auto simp: vouched_retire)
qed

lemma vouched_extended: "vouched kid pub T ks \<Longrightarrow> extended ks ks' \<Longrightarrow> vouched kid pub T ks'"
  by (auto simp: vouched_def extended_def)

lemma vouched_delete: "vouched kid pub T ks \<Longrightarrow> now \<le> T \<Longrightarrow> vouched kid pub T (sql_delete (key_expired now) ks)"
  using unix_sec_mono [of now T] by (force simp: vouched_def key_expired_def)

lemma vouched_cleaned:
  "vouched kid pub T ks \<Longrightarrow> cleaned E i j ks ks' \<Longrightarrow> clock_mono E \<Longrightarrow> clock E j \<le> T \<Longrightarrow> vouched kid pub T ks'"
  unfolding cleaned_def using vouched_delete [of kid pub T ks] clock_monoD [of E] by (meson less_imp_le order.trans)

text \<open>
  The life of the key table between two moments: ticks of the rotator, each taken as a whole, restarts of the sidecar, the
  janitor's clean-up, and effects that do not touch the table.
\<close>

inductive key_life :: "env \<Rightarrow> Rotator \<Rightarrow> world \<Rightarrow> world \<Rightarrow> bool" for E r w where
  start: "key_life E r w w"
| tick: "key_life E r w w1 \<Longrightarrow> run_state (rotate_keys E r) w1 = (x, w2) \<Longrightarrow> key_life E r w w2"
| restart: "key_life E r w w1 \<Longrightarrow> run_state (Ensure E r) w1 = (x, w2) \<Longrightarrow> key_life E r w w2"
| janitor: "key_life E r w w1 \<Longrightarrow> run_state (DeleteExpiredSigningKeys E) w1 = (x, w2) \<Longrightarrow> key_life E r w w2"
| other: "key_life E r w w1 \<Longrightarrow> w_tick w1 \<le> w_tick w2 \<Longrightarrow> signing_keys (w_db w2) = signing_keys (w_db w1) \<Longrightarrow> key_life E r w w2"

lemma unix_sec_less: "T + second \<le> t \<Longrightarrow> unix_sec T < unix_sec t"
proof -
  assume "T + second \<le> t"
  then have "unix_sec (T + second) \<le> unix_sec t" by (rule unix_sec_mono)
  moreover have "unix_sec (T + second) = unix_sec T + 1" by (simp add: unix_sec_def second_def)
  ultimately show ?thesis by simp
qed

lemma Ensure_tick: "run_state (Ensure E r) w = (x, w') \<Longrightarrow> w_tick w \<le> w_tick w'"
  by (auto simp: Ensure_def store_run generateEd25519_def InsertSigningKey_def run_db_stmt
      split: if_splits option.splits sum.splits prod.splits)

lemma vouched_rotate:
  assumes run: "run_state (rotate_keys E r) w = (x, w')" and inv: "keys_inv (signing_keys (w_db w))"
    and v: "vouched kid pub T (signing_keys (w_db w))" and E: "clock_mono E" "clock E (w_tick w') \<le> T"
    and T: "unix_sec T < unix_sec (clock E (w_tick w) + wrap64 (ro_maxTokenTTL r + hour))"
  shows "vouched kid pub T (signing_keys (w_db w'))"
proof -
  from rotate_result [OF run inv] obtain ks1 ks2 ks3 where
    r: "promoted E r (clock E (w_tick w)) (signing_keys (w_db w)) ks1" "extended ks1 ks2"
    "cleaned E (w_tick w) (w_tick w') ks2 ks3" "w_db w' = (w_db w)\<lparr>signing_keys := ks3\<rparr>" by blast
  from vouched_promoted [OF inv v r(1) T] have "vouched kid pub T ks1" .
  from vouched_cleaned [OF vouched_extended [OF this r(2)] r(3) E] r(4) show ?thesis by simp
qed

lemma key_life_vouched:
  assumes "key_life E r w w'" "clock_mono E" "in_int64 (ro_maxTokenTTL r + hour)" "keys_inv (signing_keys (w_db w))"
    "k \<in> set (signing_keys (w_db w))" "sk_Status k = ''active''"
  defines "T \<equiv> clock E (w_tick w) + ro_maxTokenTTL r"
  shows "w_tick w \<le> w_tick w' \<and> keys_inv (signing_keys (w_db w')) \<and>
    (clock E (w_tick w') \<le> T \<longrightarrow> vouched (sk_Kid k) (sk_PublicPEM k) T (signing_keys (w_db w')))"
  using assms(1)
proof induction
  case start
  with assms show ?case by (auto simp: vouched_def)
next
  case (tick w1 x w2)
  from rotate_result [OF tick(2)] tick have t: "w_tick w1 \<le> w_tick w2" by auto
  have "T + second \<le> clock E (w_tick w1) + wrap64 (ro_maxTokenTTL r + hour)"
    using tick clock_monoD [OF assms(2), of "w_tick w" "w_tick w1"] wrap64_id [OF assms(3)]
    by (simp add: T_def hour_def second_def)
  from unix_sec_less [OF this] vouched_rotate [OF tick(2)] tick t keys_inv_rotate [OF tick(2)] assms(2)
    clock_monoD [OF assms(2) t] show ?case by auto
next
  case (restart w1 x w2)
  from Ensure_tick [OF restart(2)] have t: "w_tick w1 \<le> w_tick w2" .
  from Ensure_result [OF restart(2)] have "set (signing_keys (w_db w1)) \<subseteq> set (signing_keys (w_db w2))" by auto
  with restart t keys_inv_Ensure [OF restart(2)] clock_monoD [OF assms(2) t] show ?case
    by (auto simp: vouched_def)
next
  case (janitor w1 x w2)
  have "w_tick w1 \<le> w_tick w2 \<and> (w_db w2 = w_db w1 \<or> (\<exists>t. t \<le> clock E (w_tick w2) \<and>
      signing_keys (w_db w2) = sql_delete (key_expired t) (signing_keys (w_db w1))))"
    using janitor(2) clock_monoD [OF assms(2), of "w_tick w1" "Suc (Suc (w_tick w1))"]
    by (auto simp: run_DeleteExpiredSigningKeys split: if_splits)
  then show ?case
    using janitor(3) clock_monoD [OF assms(2), of "w_tick w1" "w_tick w2"]
    by (auto simp: keys_inv_delete intro!: vouched_delete)
next
  case (other w1 w2)
  with clock_monoD [OF assms(2), of "w_tick w1" "w_tick w2"] show ?case by auto
qed

lemma promoted_active:
  assumes "keys_inv ks" "no_faults E" "promoted E r now ks ks'"
  shows "length (with_status ''active'' ks') = length (with_status ''active'' ks)"
proof (cases "ks' = ks")
  case False
  with assms(2,3) obtain a n t t' where an: "a \<in> set ks" "sk_Status a = ''active''" "n \<in> set ks"
    and ks': "ks' = set_status (sk_Kid n) ''active'' t' (set_status (sk_Kid a) ''retiring'' t ks)"
    by (auto simp: promoted_def Let_def)
  have "length (with_status ''active'' ks) = 1"
    using an assms(1) by (auto simp: keys_inv_def le_Suc_eq filter_empty_conv)
  moreover have "length (with_status ''active'' ks') \<le> 1"
    using keys_inv_promoted [OF assms(1,3)] by (simp add: keys_inv_def)
  moreover have "with_status ''active'' ks' \<noteq> []"
  proof -
    let ?n = "if sk_Kid n = sk_Kid a then n\<lparr>sk_Status := ''retiring'', sk_RetiresAt := stored_time t\<rparr> else n"
    have "?n \<in> set (set_status (sk_Kid a) ''retiring'' t ks)" using an(3) by (rule set_status_cases)
    from set_status_cases [OF this, where kid = "sk_Kid n" and st = "''active''" and t = t'] show ?thesis
      unfolding ks' filter_empty_conv by (intro notI) (drule (1) bspec, simp split: if_splits)
  qed
  ultimately show ?thesis by (simp add: le_Suc_eq)
qed simp

lemma rotate_active:
  assumes "run_state (rotate_keys E r) w = (x, w')" "keys_inv (signing_keys (w_db w))" "no_faults E"
  shows "length (with_status ''active'' (signing_keys (w_db w'))) = length (with_status ''active'' (signing_keys (w_db w)))"
proof -
  from rotate_result [OF assms(1,2)] obtain ks1 ks2 ks3 where
    r: "promoted E r (clock E (w_tick w)) (signing_keys (w_db w)) ks1" "extended ks1 ks2"
    "cleaned E (w_tick w) (w_tick w') ks2 ks3" "w_db w' = (w_db w)\<lparr>signing_keys := ks3\<rparr>" by blast
  have "with_status ''active'' (sql_delete (key_expired t) ks) = with_status ''active'' ks" for t ks
    by (induction ks) (auto simp: sql_delete_def key_expired_def)
  with r(3) have "with_status ''active'' ks3 = with_status ''active'' ks2" by (auto simp: cleaned_def)
  moreover have "with_status ''active'' ks2 = with_status ''active'' ks1" using r(2) by (auto simp: extended_def)
  ultimately show ?thesis using promoted_active [OF assms(2,3) r(1)] r(4) by simp
qed

lemma unique_count: "unique_key key xs \<Longrightarrow> x \<in> set xs \<Longrightarrow> length (filter (\<lambda>y. key y = key x) xs) = 1"
proof (induction xs)
  case (Cons y ys)
  have "filter (\<lambda>y. key y = key x) ys = []" if "key x \<notin> key ` set ys"
    unfolding filter_empty_conv
  proof (intro ballI notI)
    fix z assume "z \<in> set ys" "key z = key x"
    then have "key x \<in> key ` set ys" by (metis image_eqI)
    with that show False ..
  qed
  with Cons show ?case by auto
qed simp

section \<open>Properties\<close>

definition sample_rotator :: Rotator where
  "sample_rotator = \<lparr>ro_rotationInterval = 24 * hour, ro_overlap = hour, ro_maxTokenTTL = hour\<rparr>"

definition sample_sk :: "string \<Rightarrow> time \<Rightarrow> string \<Rightarrow> SigningKey" where
  "sample_sk kid created st = \<lparr>sk_Kid = kid, sk_Alg = ''EdDSA'', sk_PrivatePEM = sample_key, sk_PublicPEM = sample_key,
     sk_CreatedAt = created, sk_RetiresAt = created, sk_Status = st\<rparr>"

definition sample_keys_world :: world where
  "sample_keys_world = sample_world\<lparr>w_db := empty_db\<lparr>signing_keys :=
     [sample_sk ''old'' 0 ''active'', sample_sk ''new'' (time_Unix 1699990000) ''next'']\<rparr>\<rparr>"

lemma sample_keys_inv: "keys_inv (signing_keys (w_db sample_keys_world))"
  by (simp add: keys_inv_def sample_keys_world_def sample_sk_def signing_status_ok_def)

text \<open>The tick at this world retires \<^verbatim>\<open>old\<close> and promotes \<^verbatim>\<open>new\<close>.\<close>

lemma sample_tick:
  "\<exists>x w'. run_state (rotate_keys sample_env sample_rotator) sample_keys_world = (x, w') \<and> w_tick w' = 6 \<and>
     map sk_Status (signing_keys (w_db w')) = [''retiring'', ''active'']"
  by (simp add: rotate_keys_def store_run sample_keys_world_def sample_world_def sample_sk_def
      last_with_def promote_due_def promote_def generate_due_def run_UpdateSigningKeyStatus signing_status_ok_def
      time_Unix_def second_def sample_rotator_def hour_def sql_update_def run_DeleteExpiredSigningKeys sql_delete_def
      key_expired_def stored_time_def unix_sec_def wrap64_def)

text \<open>
  Property C6. A key outlives its tokens. A key that is active at some moment, and so may sign a token
  then, is still in the published key set at every later moment until the maximal token lifetime
  has passed, under the same kid and with the same public key, through rotations, restarts,
  clean-ups and database faults in any order.
\<close>

theorem key_published_while_tokens_live:
  assumes "clock_mono E" "in_int64 (ro_maxTokenTTL r + hour)" "keys_inv (signing_keys (w_db w))"
    and "k \<in> set (signing_keys (w_db w))" "sk_Status k = ''active''"
    and "key_life E r w w'" "clock E (w_tick w') \<le> clock E (w_tick w) + ro_maxTokenTTL r"
    and "run_state (AllPublishableKeys E) w' = (Inr ks, w'')"
  shows "\<exists>k' \<in> set ks. sk_Kid k' = sk_Kid k \<and> sk_PublicPEM k' = sk_PublicPEM k \<and>
    length (filter (\<lambda>k'. sk_Kid k' = sk_Kid k) ks) = 1"
proof -
  from key_life_vouched [OF assms(6,1-5)] assms(7) obtain k' where k': "k' \<in> set (signing_keys (w_db w'))"
    "sk_Kid k' = sk_Kid k" "sk_PublicPEM k' = sk_PublicPEM k" and inv: "keys_inv (signing_keys (w_db w'))"
    by (auto simp: vouched_def)
  from assms(8) list_is_all [OF inv] have ks: "ks = signing_keys (w_db w')"
    by (auto simp: AllPublishableKeys_def store_run split: if_splits)
  from unique_count [of sk_Kid ks k'] inv ks k' show ?thesis by (auto simp: keys_inv_def)
qed

theorem key_published_while_tokens_live_witness:
  "\<exists>x w' ks w''. run_state (rotate_keys sample_env sample_rotator) sample_keys_world = (x, w') \<and>
     run_state (AllPublishableKeys sample_env) w' = (Inr ks, w'') \<and> (\<exists>k' \<in> set ks. sk_Kid k' = ''old'' \<and> sk_PublicPEM k' = sample_key)"
proof -
  from sample_tick obtain x w' where w': "run_state (rotate_keys sample_env sample_rotator) sample_keys_world = (x, w')"
    "w_tick w' = 6" by blast
  let ?k = "sample_sk ''old'' 0 ''active''"
  have life: "key_life sample_env sample_rotator sample_keys_world w'" by (rule key_life.tick [OF key_life.start w'(1)])
  have t: "clock sample_env (w_tick w') \<le> clock sample_env (w_tick sample_keys_world) + ro_maxTokenTTL sample_rotator"
    by (simp add: w'(2) sample_keys_world_def sample_world_def sample_rotator_def time_Unix_def hour_def second_def)
  obtain ks w'' where ks: "run_state (AllPublishableKeys sample_env) w' = (Inr ks, w'')"
    by (simp add: AllPublishableKeys_def store_run)
  have i: "in_int64 (ro_maxTokenTTL sample_rotator + hour)"
    by (simp add: in_int64_def sample_rotator_def hour_def second_def)
  have k: "?k \<in> set (signing_keys (w_db sample_keys_world))" "sk_Status ?k = ''active''"
    by (simp_all add: sample_keys_world_def sample_sk_def)
  from key_published_while_tokens_live [OF sample_clock_mono i sample_keys_inv k life t ks] w' ks show ?thesis
    by (auto simp: sample_sk_def)
qed

text \<open>
  Property C26. The table never holds two active or two next keys, two keys of one kid or a status
  outside the life cycle: no tick of the rotator breaks this, whatever faults the database has, and
  without faults a tick leaves as many active keys as there were, so exactly one.
\<close>

theorem rotate_invariant:
  assumes "keys_inv (signing_keys (w_db w))" "run_state (rotate_keys E r) w = (x, w')"
  shows "keys_inv (signing_keys (w_db w')) \<and>
    (no_faults E \<longrightarrow> length (with_status ''active'' (signing_keys (w_db w'))) = length (with_status ''active'' (signing_keys (w_db w))))"
  using keys_inv_rotate [OF assms(2,1)] rotate_active [OF assms(2,1)] by blast

theorem rotate_invariant_witness:
  "\<exists>x w'. run_state (rotate_keys sample_env sample_rotator) sample_keys_world = (x, w') \<and>
     keys_inv (signing_keys (w_db w')) \<and> length (with_status ''active'' (signing_keys (w_db w'))) = 1"
proof -
  obtain x w' where r: "run_state (rotate_keys sample_env sample_rotator) sample_keys_world = (x, w')" by fastforce
  have "length (with_status ''active'' (signing_keys (w_db sample_keys_world))) = 1"
    by (simp add: sample_keys_world_def sample_sk_def)
  with rotate_invariant [OF sample_keys_inv r] sample_no_faults r show ?thesis by auto
qed

text \<open>
  A successful start of the sidecar leaves exactly one active signing key and keeps the
  invariant; it touches no existing key.
\<close>

theorem ensure_one_active:
  assumes "keys_inv (signing_keys (w_db w))" "run_state (Ensure E r) w = (Inr (), w')"
  shows "keys_inv (signing_keys (w_db w')) \<and> length (with_status ''active'' (signing_keys (w_db w'))) = 1 \<and>
    (\<exists>new. w_db w' = (w_db w)\<lparr>signing_keys := signing_keys (w_db w) @ new\<rparr>)"
proof -
  have i: "keys_inv (signing_keys (w_db w'))" using keys_inv_Ensure [OF assms(2,1)] .
  have c: "length (with_status ''active'' (signing_keys (w_db w'))) = 1"
    using Ensure_result [OF assms(2)] assms(1) by (auto simp: keys_inv_def le_Suc_eq)
  have "\<exists>new. w_db w' = (w_db w)\<lparr>signing_keys := signing_keys (w_db w) @ new\<rparr>"
    using Ensure_result [OF assms(2)]
  proof (elim disjE conjE exE)
    assume "w_db w' = w_db w"
    then show ?thesis by (intro exI [of _ "[]"]) simp
  qed blast
  with i c show ?thesis by blast
qed

theorem ensure_one_active_witness:
  "\<exists>w'. run_state (Ensure sample_env sample_rotator) sample_world = (Inr (), w') \<and>
     length (with_status ''active'' (signing_keys (w_db w'))) = 1"
proof -
  obtain w' where r: "run_state (Ensure sample_env sample_rotator) sample_world = (Inr (), w')"
    by (simp add: Ensure_def store_run generateEd25519_def InsertSigningKey_def run_db_stmt sample_world_def empty_db_def
        sample_env_def Let_def sql_insert_def signing_status_ok_def)
  have "keys_inv (signing_keys (w_db sample_world))" by (simp add: keys_inv_def sample_world_def empty_db_def)
  from ensure_one_active [OF this r] r show ?thesis by blast
qed

text \<open>
  Property C37. The retire and promote updates of a rotation are two statements with no transaction. If
  the second one fails, no key is active, and no later tick repairs that: without an active key the
  rotator stays without one, whatever the environment does, until the sidecar is restarted.
\<close>

theorem no_active_key_is_permanent:
  assumes "keys_inv (signing_keys (w_db w))" "with_status ''active'' (signing_keys (w_db w)) = []"
    and "run_state (rotate_keys E r) w = (x, w')"
  shows "with_status ''active'' (signing_keys (w_db w')) = []"
proof -
  from rotate_result [OF assms(3,1)] obtain ks1 ks2 ks3 where
    r: "promoted E r (clock E (w_tick w)) (signing_keys (w_db w)) ks1" "extended ks1 ks2"
    "cleaned E (w_tick w) (w_tick w') ks2 ks3" "w_db w' = (w_db w)\<lparr>signing_keys := ks3\<rparr>" by blast
  from r(1) assms(2) have "ks1 = signing_keys (w_db w)" by (auto simp: promoted_def filter_empty_conv)
  with r(2) assms(2) have "with_status ''active'' ks2 = []" by (auto simp: extended_def)
  with r(3) have "with_status ''active'' ks3 = []" by (auto simp: cleaned_def with_status_delete) (simp add: sql_delete_def)
  with r(4) show ?thesis by simp
qed

text \<open>The fault: the statement that promotes the next key fails.\<close>

definition sample_fault_env :: env where
  "sample_fault_env = sample_env\<lparr>db_fail := \<lambda>i. i = 3\<rparr>"

theorem no_active_key_is_permanent_witness:
  "\<exists>x w1 y w2. run_state (rotate_keys sample_fault_env sample_rotator) sample_keys_world = (Inl x, w1) \<and>
     with_status ''active'' (signing_keys (w_db w1)) = [] \<and>
     run_state (rotate_keys sample_env sample_rotator) w1 = (y, w2) \<and> with_status ''active'' (signing_keys (w_db w2)) = []"
proof -
  have "\<exists>x w1. run_state (rotate_keys sample_fault_env sample_rotator) sample_keys_world = (Inl x, w1) \<and>
      with_status ''active'' (signing_keys (w_db w1)) = []"
    by (simp add: rotate_keys_def store_run sample_fault_env_def sample_keys_world_def sample_world_def sample_sk_def
        last_with_def promote_due_def promote_def run_UpdateSigningKeyStatus signing_status_ok_def
        time_Unix_def second_def sample_rotator_def hour_def sql_update_def)
  then obtain x w1 where w1: "run_state (rotate_keys sample_fault_env sample_rotator) sample_keys_world = (Inl x, w1)"
    "with_status ''active'' (signing_keys (w_db w1)) = []" by blast
  obtain y w2 where w2: "run_state (rotate_keys sample_env sample_rotator) w1 = (y, w2)" by fastforce
  from no_active_key_is_permanent [OF keys_inv_rotate [OF w1(1) sample_keys_inv] w1(2) w2] w1 w2 show ?thesis by blast
qed

end
