(* ===== verification/Tokens.thy ===== *)
theory Tokens
  imports Keys Config
begin

text \<open>
  \<^verbatim>\<open>sidecar/internal/tokens/issuer.go\<close>: minting access and refresh tokens; and the shape of a compact
  JWT with the interface \<open>jwt_verifier\<close> that the three verifiers of the program implement (two in the
  sidecar, one in the plugin).
\<close>

section \<open>Definitions\<close>

record Issuer =
  is_accessTTL :: int
  is_refreshTTL :: int

definition HashToken :: "string \<Rightarrow> string" where
  "HashToken raw = hex_EncodeToString (sha256_Sum256 raw)"

definition mint_header :: "string \<Rightarrow> json" where
  "mint_header kid = JObj [(''alg'', JStr ''EdDSA''), (''typ'', JStr ''at+jwt''), (''kid'', JStr kid)]"

text \<open>The registered claims, then the extra claims under names not yet taken.\<close>

definition base_claims :: "ResourceConfig \<Rightarrow> string \<Rightarrow> string \<Rightarrow> string \<Rightarrow> time \<Rightarrow> time \<Rightarrow> string \<Rightarrow> jmap" where
  "base_claims rc sub scopes clientID now exp jti =
     [(''iss'', JStr (rc_PublicBase rc)), (''aud'', JArr [JStr (rc_PublicBase rc @ ''/'')]), (''sub'', JStr sub),
      (''client_id'', JStr clientID), (''scope'', JStr scopes), (''iat'', JInt (unix_sec now)),
      (''nbf'', JInt (unix_sec now)), (''exp'', JInt (unix_sec exp)), (''jti'', JStr jti)]"

definition add_claims :: "jmap \<Rightarrow> jmap \<Rightarrow> jmap" where
  "add_claims claims extra = fold (\<lambda>(k, v) m. if k \<in> fst ` set m then m else m @ [(k, v)]) extra claims"

definition signing_input :: "json \<Rightarrow> jmap \<Rightarrow> string" where
  "signing_input hdr claims =
     b64_EncodeToString RawURLEncoding (json_marshal hdr) @ ''.'' @ b64_EncodeToString RawURLEncoding (json_marshal (JObj claims))"

text \<open>The two calls of \<^verbatim>\<open>json.Marshal\<close> get maps of strings, numbers and values that came out of \<^verbatim>\<open>json.Unmarshal\<close>, on which it does not fail,
  so their error branches are left out.\<close>

definition MintAccessToken :: "env \<Rightarrow> Issuer \<Rightarrow> ResourceConfig \<Rightarrow> string \<Rightarrow> string \<Rightarrow> string \<Rightarrow> jmap \<Rightarrow> (string \<times> time) result eff" where
  "MintAccessToken E i rc sub scopes clientID extraClaims = do {
     a \<leftarrow> ActiveKey E;
     case a of
       Inl e \<Rightarrow> State_Monad.return (Inl (GoWrap ''MintAccessToken'' e))
     | Inr (k, priv) \<Rightarrow> do {
         now \<leftarrow> time_Now E;
         j \<leftarrow> rand_Read E 16;
         case j of
           Inl e \<Rightarrow> State_Monad.return (Inl (GoWrap ''MintAccessToken jti'' e))
         | Inr jtiBytes \<Rightarrow>
             let exp = now + is_accessTTL i;
                 claims = add_claims (base_claims rc sub scopes clientID now exp (hex_EncodeToString jtiBytes)) extraClaims;
                 si = signing_input (mint_header (sk_Kid k)) claims
             in State_Monad.return
                  (Inr (si @ ''.'' @ b64_EncodeToString RawURLEncoding (ed25519_Sign E priv si), exp)) } }"

definition MintRefreshToken :: "env \<Rightarrow> Issuer \<Rightarrow> (string \<times> string \<times> time) result eff" where
  "MintRefreshToken E i = do {
     b \<leftarrow> rand_Read E 32;
     case b of
       Inl e \<Rightarrow> State_Monad.return (Inl (GoWrap ''MintRefreshToken'' e))
     | Inr bs \<Rightarrow> do {
         now \<leftarrow> time_Now E;
         let raw = b64_EncodeToString RawURLEncoding bs in
         State_Monad.return (Inr (raw, HashToken raw, now + is_refreshTTL i)) } }"

text \<open>\<^verbatim>\<open>int(issuer.AccessTTL().Seconds())\<close>: whole seconds, towards zero.\<close>

definition ttl_seconds :: "int \<Rightarrow> int" where
  "ttl_seconds d = (if d < 0 then - ((- d) div second) else d div second)"

section \<open>Compact JWTs\<close>

text \<open>The three decoded segments of a token and its signing input.\<close>

record jwt =
  jt_header :: jmap
  jt_payload :: bytes
  jt_sig :: bytes
  jt_input :: bytes

definition parse_jwt :: "string \<Rightarrow> jwt option" where
  "parse_jwt t =
     (case Split t CHR ''.'' of
        [h, p, s] \<Rightarrow>
          (case (b64_DecodeString RawURLEncoding h, b64_DecodeString RawURLEncoding p, b64_DecodeString RawURLEncoding s) of
             (Inr hb, Inr pb, Inr sb) \<Rightarrow>
               (case unmarshal_map hb of
                  Inl e \<Rightarrow> None
                | Inr m \<Rightarrow> Some \<lparr>jt_header = m, jt_payload = pb, jt_sig = sb, jt_input = h @ ''.'' @ p\<rparr>)
           | _ \<Rightarrow> None)
      | _ \<Rightarrow> None)"

lemma parse_jwt_parts:
  assumes "Split t CHR ''.'' = [h, p, s]" "b64_DecodeString RawURLEncoding h = Inr hb" "unmarshal_map hb = Inr m"
    "b64_DecodeString RawURLEncoding p = Inr pb" "b64_DecodeString RawURLEncoding s = Inr sb"
  shows "parse_jwt t = Some \<lparr>jt_header = m, jt_payload = pb, jt_sig = sb, jt_input = h @ ''.'' @ p\<rparr>"
  using assms by (simp add: parse_jwt_def)

text \<open>
  The contract of a verifier in a context \<open>K\<close>: what it accepts parses as a JWT, its signature is
  trusted for its signing input under the header's kid and alg, its claims are the payload, only
  the allowed algorithms are trusted, and verifying leaves the database alone.
\<close>

locale jwt_verifier =
  fixes verify :: "'k \<Rightarrow> string \<Rightarrow> jmap result eff"
    and trusted :: "'k \<Rightarrow> world \<Rightarrow> string \<Rightarrow> string \<Rightarrow> bytes \<Rightarrow> bytes \<Rightarrow> bool"
    and algs :: "string set"
  assumes accepted: "run_state (verify K t) w = (Inr c, w') \<Longrightarrow>
      \<exists>j. parse_jwt t = Some j \<and> unmarshal_map (jt_payload j) = Inr c \<and>
        trusted K w (jget_str (jt_header j) ''kid'') (jget_str (jt_header j) ''alg'') (jt_input j) (jt_sig j)"
    and trusted_alg: "trusted K w kid alg m s \<Longrightarrow> alg \<in> algs"
    and verify_db: "run_state (verify K t) w = (x, w') \<Longrightarrow> w_db w' = w_db w"
begin

lemma alg_refused:
  assumes "parse_jwt t = Some j" "jget_str (jt_header j) ''alg'' \<notin> algs"
  shows "\<exists>e. fst (run_state (verify K t) w) = Inl e"
proof (cases "fst (run_state (verify K t) w)")
  case (Inr c)
  then obtain w' where "run_state (verify K t) w = (Inr c, w')" by (metis prod.collapse)
  with accepted trusted_alg assms show ?thesis by fastforce
qed simp

lemma unparsed_refused:
  assumes "parse_jwt t = None"
  shows "\<exists>e. fst (run_state (verify K t) w) = Inl e"
proof (cases "fst (run_state (verify K t) w)")
  case (Inr c)
  then obtain w' where "run_state (verify K t) w = (Inr c, w')" by (metis prod.collapse)
  with accepted assms show ?thesis by fastforce
qed simp

text \<open>The accepted claims are a function of the token alone.\<close>

lemma claims_unique:
  "run_state (verify K t) w = (Inr c, w1) \<Longrightarrow> run_state (verify K' t) w' = (Inr c', w2) \<Longrightarrow> c = c'"
  by (drule accepted)+ auto

end

section \<open>What a minted token contains\<close>

lemma ActiveKey_ok:
  assumes "run_state (ActiveKey E) w = (Inr (k, priv), w')"
  shows "k \<in> set (signing_keys (w_db w)) \<and> sk_Status k = ''active'' \<and> decodePrivatePEM E (sk_PrivatePEM k) = Inr priv \<and> w' = bump w"
  using assms by (auto simp: ActiveKey_def store_run find_Some_iff split: if_splits option.splits sum.splits)

definition minted :: "env \<Rightarrow> Issuer \<Rightarrow> ResourceConfig \<Rightarrow> string \<Rightarrow> string \<Rightarrow> string \<Rightarrow> jmap \<Rightarrow> SigningKey \<Rightarrow> bytes \<Rightarrow> time \<Rightarrow> string \<Rightarrow> string" where
  "minted E i rc sub scopes clientID extra k priv now jti =
     (let si = signing_input (mint_header (sk_Kid k)) (add_claims (base_claims rc sub scopes clientID now (now + is_accessTTL i) jti) extra)
      in si @ ''.'' @ b64_EncodeToString RawURLEncoding (ed25519_Sign E priv si))"

lemma MintAccessToken_ok:
  assumes "run_state (MintAccessToken E i rc sub scopes clientID extra) w = (Inr (tok, exp), w')"
  shows "\<exists>k priv now jti. k \<in> set (signing_keys (w_db w)) \<and> sk_Status k = ''active'' \<and>
    decodePrivatePEM E (sk_PrivatePEM k) = Inr priv \<and> now = clock E (Suc (w_tick w)) \<and> exp = now + is_accessTTL i \<and>
    tok = minted E i rc sub scopes clientID extra k priv now (hex_EncodeToString jti) \<and> w_db w' = w_db w \<and>
    rng E (Suc (Suc (w_tick w))) 16 = Some jti"
proof -
  from assms obtain k priv w1 where a: "run_state (ActiveKey E) w = (Inr (k, priv), w1)"
    by (auto simp: MintAccessToken_def split: sum.splits prod.splits)
  note k = ActiveKey_ok [OF a]
  with a assms show ?thesis
    by (auto simp: MintAccessToken_def minted_def Let_def split: sum.splits option.splits)
qed

lemma keeps_ActiveKey [hoare_rules]: "keeps (\<lambda>w. I (w_db w)) (ActiveKey E)"
  by (rule hoareI) (auto simp: ActiveKey_def store_run split: if_splits option.splits sum.splits)

lemma keeps_MintAccessToken [hoare_rules]: "keeps (\<lambda>w. I (w_db w)) (MintAccessToken E i rc sub sc cid ex)"
  unfolding MintAccessToken_def Let_def by (intro hoare_rules) auto

lemma keeps_MintRefreshToken [hoare_rules]: "keeps (\<lambda>w. I (w_db w)) (MintRefreshToken E i)"
  unfolding MintRefreshToken_def Let_def by (intro hoare_rules) auto

lemma MintRefreshToken_ok:
  assumes "run_state (MintRefreshToken E i) w = (Inr (raw, h, exp), w')"
  shows "h = HashToken raw \<and> exp = clock E (Suc (w_tick w)) + is_refreshTTL i \<and> w' = bump (bump w) \<and>
    (\<exists>b. rng E (w_tick w) 32 = Some b \<and> raw = b64_EncodeToString RawURLEncoding b)"
  using assms by (auto simp: MintRefreshToken_def Let_def split: option.splits)

text \<open>Extra claims never override a registered one.\<close>

lemma add_claims_registered: "k \<in> fst ` set claims \<Longrightarrow> map_of (add_claims claims extra) k = map_of claims k"
proof -
  assume k: "k \<in> fst ` set claims"
  have "k \<in> fst ` set m \<Longrightarrow> map_of (fold (\<lambda>(k, v) m. if k \<in> fst ` set m then m else m @ [(k, v)]) extra m) k = map_of m k" for m
  proof (induction extra arbitrary: m)
    case (Cons e extra)
    obtain k' v where e: "e = (k', v)" by (cases e)
    show ?case
    proof (cases "k' \<in> fst ` set m")
      case True
      with Cons e show ?thesis by simp
    next
      case False
      have "map_of (m @ [(k', v)]) k = map_of m k"
        using Cons.prems by (simp add: map_add_def map_of_eq_None_iff split: option.split)
      moreover have "k \<in> fst ` set (m @ [(k', v)])" using Cons.prems by auto
      ultimately show ?thesis using Cons.IH [of "m @ [(k', v)]"] False e by simp
    qed
  qed simp
  with k show ?thesis by (simp add: add_claims_def)
qed

lemma add_claims_distinct: "distinct (map fst claims) \<Longrightarrow> distinct (map fst (add_claims claims extra))"
proof -
  have "distinct (map fst m) \<Longrightarrow> distinct (map fst (fold (\<lambda>(k, v) m. if k \<in> fst ` set m then m else m @ [(k, v)]) extra m))" for m
    by (induction extra arbitrary: m) auto
  then show "distinct (map fst claims) \<Longrightarrow> ?thesis" by (simp add: add_claims_def)
qed

lemma set_add_claims: "set (add_claims claims extra) \<subseteq> set claims \<union> set extra"
proof -
  have "set (fold (\<lambda>(k, v) m. if k \<in> fst ` set m then m else m @ [(k, v)]) extra m) \<subseteq> set m \<union> set extra" for m
    by (induction extra arbitrary: m) (fastforce split: if_splits)+
  then show ?thesis by (simp add: add_claims_def)
qed

text \<open>A minted token parses back to its header, its claims and its signing input.\<close>

lemma dot_notin_segment: "CHR ''.'' \<notin> set (b64_EncodeToString RawURLEncoding b)"
  by (rule dot_notin_b64_raw) simp

lemma parse_minted:
  assumes kid: "ascii (sk_Kid k)"
    and plain: "jplain (JObj (add_claims (base_claims rc sub scopes clientID now (now + is_accessTTL i) jti) extra))"
  defines "claims \<equiv> add_claims (base_claims rc sub scopes clientID now (now + is_accessTTL i) jti) extra"
    and "si \<equiv> signing_input (mint_header (sk_Kid k)) (add_claims (base_claims rc sub scopes clientID now (now + is_accessTTL i) jti) extra)"
  shows "\<exists>j c. parse_jwt (minted E i rc sub scopes clientID extra k priv now jti) = Some j \<and>
    jget_str (jt_header j) ''kid'' = sk_Kid k \<and> jget_str (jt_header j) ''alg'' = ''EdDSA'' \<and> jt_input j = si \<and>
    jt_sig j = ed25519_Sign E priv si \<and> unmarshal_map (jt_payload j) = Inr c \<and> (\<forall>x. jget c x = map_option jnorm (jget claims x))"
proof -
  let ?h = "b64_EncodeToString RawURLEncoding (json_marshal (mint_header (sk_Kid k)))"
  let ?p = "b64_EncodeToString RawURLEncoding (json_marshal (JObj claims))"
  let ?s = "b64_EncodeToString RawURLEncoding (ed25519_Sign E priv si)"
  have si: "si = ?h @ ''.'' @ ?p" by (simp add: si_def claims_def signing_input_def)
  have tok: "minted E i rc sub scopes clientID extra k priv now jti = ?h @ ''.'' @ ?p @ ''.'' @ ?s"
    using si by (simp add: minted_def Let_def si_def)
  have split: "Split (minted E i rc sub scopes clientID extra k priv now jti) CHR ''.'' = [?h, ?p, ?s]"
    unfolding tok using Split_three [OF dot_notin_segment dot_notin_segment dot_notin_segment] by simp
  have "jplain (mint_header (sk_Kid k))" using kid by (simp add: mint_header_def ascii_def)
  then obtain m where m: "unmarshal_map (json_marshal (mint_header (sk_Kid k))) = Inr m"
    "\<And>x. jget m x = map_option jnorm (jget [(''alg'', JStr ''EdDSA''), (''typ'', JStr ''at+jwt''), (''kid'', JStr (sk_Kid k))] x)"
    unfolding mint_header_def by (rule unmarshal_map_roundtrip) blast
  from plain obtain c where c: "unmarshal_map (json_marshal (JObj claims)) = Inr c"
    "\<And>x. jget c x = map_option jnorm (jget claims x)" unfolding claims_def by (rule unmarshal_map_roundtrip) blast
  have "parse_jwt (minted E i rc sub scopes clientID extra k priv now jti) =
      Some \<lparr>jt_header = m, jt_payload = json_marshal (JObj claims), jt_sig = ed25519_Sign E priv si, jt_input = si\<rparr>"
    using parse_jwt_parts [OF split b64_roundtrip m(1) b64_roundtrip b64_roundtrip] si by simp
  moreover have "jget_str m ''kid'' = sk_Kid k" "jget_str m ''alg'' = ''EdDSA''"
    by (simp_all add: jget_str_def m(2)) (simp_all add: jget_def)
  ultimately show ?thesis using c by auto
qed

lemma base_claims_distinct: "distinct (map fst (base_claims rc sub scopes cid now exp jti))"
  by (simp add: base_claims_def)

lemma ascii_hex: "ascii (hex_EncodeToString b)"
proof -
  have "\<forall>c \<in> set hex_alphabet. byte_val c < 128" by (simp add: hex_alphabet_def)
  with set_hex show ?thesis unfolding ascii_def by blast
qed

lemma ascii_append [simp]: "ascii (s @ t) \<longleftrightarrow> ascii s \<and> ascii t"
  by (auto simp: ascii_def)

lemma claims_plain:
  assumes "ascii (rc_PublicBase rc)" "ascii sub" "ascii scopes" "ascii cid" "ascii jti"
    and "\<bar>unix_sec now\<bar> \<le> 2 ^ 53" "\<bar>unix_sec exp\<bar> \<le> 2 ^ 53" "\<forall>(k, v) \<in> set extra. ascii k \<and> jplain v"
  shows "jplain (JObj (add_claims (base_claims rc sub scopes cid now exp jti) extra))"
proof -
  have "\<forall>(k, v) \<in> set (base_claims rc sub scopes cid now exp jti). ascii k \<and> jplain v"
    using assms unfolding base_claims_def by (simp add: ascii_def [of "''iss''"] ascii_def [of "''aud''"] ascii_def [of "''sub''"]
        ascii_def [of "''client_id''"] ascii_def [of "''scope''"] ascii_def [of "''iat''"] ascii_def [of "''nbf''"]
        ascii_def [of "''exp''"] ascii_def [of "''jti''"] ascii_def [of "''/''"])
  with assms(8) set_add_claims [of "base_claims rc sub scopes cid now exp jti" extra]
  have "\<forall>(k, v) \<in> set (add_claims (base_claims rc sub scopes cid now exp jti) extra). ascii k \<and> jplain v" by blast
  with add_claims_distinct [OF base_claims_distinct] show ?thesis by simp
qed

text \<open>The registered claims as a verifier reads them.\<close>

lemma minted_claims:
  assumes c: "\<And>x. jget c x = map_option jnorm (jget (add_claims (base_claims rc sub scopes cid now exp jti) extra) x)"
  shows "jget c ''iss'' = Some (JStr (rc_PublicBase rc))" "jget c ''aud'' = Some (JArr [JStr (rc_PublicBase rc @ ''/'')])"
    "jget c ''sub'' = Some (JStr sub)" "jget c ''client_id'' = Some (JStr cid)" "jget c ''scope'' = Some (JStr scopes)"
    "jget c ''exp'' = Some (f64_norm (unix_sec exp) 0)" "jget c ''nbf'' = Some (f64_norm (unix_sec now) 0)"
    "jget c ''jti'' = Some (JStr jti)"
  unfolding c unfolding jget_def
  by (subst add_claims_registered; simp add: base_claims_def)+

end
