(* ===== verification/As_Common.thy ===== *)
theory As_Common
  imports Oidc Tokens
begin

text \<open>
  The helpers the handlers of \<^verbatim>\<open>sidecar/internal/as\<close> share: credentials of the client, digests, the
  PKCE challenge, the audience check and the decoding of public keys.
\<close>

definition sha256Hex :: "string \<Rightarrow> string" where
  "sha256Hex s = hex_EncodeToString (sha256_Sum256 s)"

definition randomHex :: "env \<Rightarrow> nat \<Rightarrow> string result eff" where
  "randomHex E n = do {
     b \<leftarrow> rand_Read E n;
     State_Monad.return (case b of Inl e \<Rightarrow> Inl e | Inr bs \<Rightarrow> Inr (hex_EncodeToString bs)) }"

definition s256Challenge :: "string \<Rightarrow> string" where
  "s256Challenge verifier = b64_EncodeToString RawURLEncoding (sha256_Sum256 verifier)"

definition pkceS256Challenge :: "string \<Rightarrow> string" where
  "pkceS256Challenge verifier = b64_EncodeToString RawURLEncoding (sha256_Sum256 verifier)"

fun containsString :: "string list \<Rightarrow> string \<Rightarrow> bool" where
  "containsString [] s = False"
| "containsString (v # vs) s = (if v = s then True else containsString vs s)"

definition extractClientCredentials :: "request \<Rightarrow> (string \<times> string) result" where
  "extractClientCredentials r =
     (if FormValue r ''client_id'' \<noteq> [] then Inr (FormValue r ''client_id'', FormValue r ''client_secret'')
      else case BasicAuth r of
        Some (u, p) \<Rightarrow> if u \<noteq> [] then Inr (u, p) else Inl (GoErr ''no client credentials provided'')
      | None \<Rightarrow> Inl (GoErr ''no client credentials provided''))"

definition need_basic :: "string \<Rightarrow> response" where
  "need_basic desc = writeErrorWith ''WWW-Authenticate'' (''Basic realm='' @ [CHR 0x22] @ ''oauth'' @ [CHR 0x22]) 401 ''invalid_client'' desc"

text \<open>The secret check of a confidential client; \<open>None\<close> lets the request pass.\<close>

definition check_secret :: "Client \<Rightarrow> string \<Rightarrow> response option" where
  "check_secret client clientSecret =
     (if cl_ClientSecretHash client \<noteq> [] then
        (if clientSecret = [] then Some (need_basic ''client_secret required'')
         else if sha256Hex clientSecret \<noteq> cl_ClientSecretHash client then Some (need_basic ''invalid client_secret'')
         else None)
      else None)"

text \<open>The identity claims of a stored row: undecodable JSON and null give no claims.\<close>

definition stored_claims :: "string \<Rightarrow> jmap" where
  "stored_claims claimsJSON =
     (if claimsJSON \<noteq> [] then (case unmarshal_map claimsJSON of Inl e \<Rightarrow> [] | Inr m \<Rightarrow> m) else [])"

fun audContains :: "json option \<Rightarrow> string \<Rightarrow> bool" where
  "audContains (Some (JStr v)) want = (v = want)"
| "audContains (Some (JArr vs)) want = (JStr want \<in> set vs)"
| "audContains _ want = False"

definition decodePublicPEM :: "env \<Rightarrow> bytes \<Rightarrow> bytes result" where
  "decodePublicPEM E pemBytes =
     (case pem_Decode E pemBytes of
        None \<Rightarrow> Inl (GoErr ''no PEM block'')
      | Some der \<Rightarrow>
          (case x509_ParsePKIXPublicKey E der of
             Inl e \<Rightarrow> Inl (GoWrap ''parse PKIX'' e)
           | Inr OtherKey \<Rightarrow> Inl (GoErr ''not Ed25519 key'')
           | Inr (Ed25519Key p) \<Rightarrow> Inr p))"

text \<open>\<^verbatim>\<open>int64(f)\<close> of a decoded number, with the platform's value out of range.\<close>

definition f64_to_int64 :: "env \<Rightarrow> int \<Rightarrow> int \<Rightarrow> int" where
  "f64_to_int64 E m e = (let n = f64_int m e in if in_int64 n then n else f64_overflow E n)"

text \<open>The counter through the composed operations.\<close>

lemma ticks_cached [hoare_rules]: "keeps (ticks n) (cached_provider i)" "keeps (ticks n) (cache_provider i p)"
  by (simp_all add: hoare_def)

lemma ticks_Encrypt [hoare_rules]: "keeps (ticks n) (Encrypt E c p)"
  unfolding Encrypt_def by (intro hoare_rules) auto

lemma ticks_Discover [hoare_rules]: "keeps (ticks n) (Discover E i)"
  unfolding Discover_def by (intro hoare_rules) auto

lemma ticks_postToken [hoare_rules]: "keeps (ticks n) (postToken E ep ps)"
  unfolding postToken_def by (intro hoare_rules) auto

lemma ticks_upstream [hoare_rules]:
  "keeps (ticks n) (ExchangeCode E p a b c d e)" "keeps (ticks n) (RefreshTokens E p a b c)"
  unfolding ExchangeCode_def RefreshTokens_def by (rule ticks_postToken)+

lemma ticks_oidc_Userinfo [hoare_rules]: "keeps (ticks n) (oidc_Userinfo E p t)"
  unfolding oidc_Userinfo_def by (intro hoare_rules) auto

lemma ticks_statements [hoare_rules]:
  "keeps (ticks n) (GetClient E k)" "keeps (ticks n) (GetAuthSession E k)" "keeps (ticks n) (GetCode E k)"
  "keeps (ticks n) (GetRefreshTokenByHash E k)" "keeps (ticks n) (GetActiveSigningKey E)" "keeps (ticks n) (ListSigningKeys E)"
  "keeps (ticks n) (DeleteAuthSession E k)" "keeps (ticks n) (DeleteCode E k)" "keeps (ticks n) (DeleteRefreshTokenByHash E k)"
  "keeps (ticks n) (InsertAuthSession E s)" "keeps (ticks n) (InsertCode E c)" "keeps (ticks n) (InsertRefreshToken E t)"
  "keeps (ticks n) (UpsertResourceConfig E row)"
  unfolding GetClient_def GetAuthSession_def GetCode_def GetRefreshTokenByHash_def GetActiveSigningKey_def ListSigningKeys_def
    DeleteAuthSession_def DeleteCode_def DeleteRefreshTokenByHash_def InsertAuthSession_def InsertCode_def InsertRefreshToken_def
    UpsertResourceConfig_def
  by (rule ticks_prims)+

lemma ticks_TouchClient [hoare_rules]: "keeps (ticks n) (TouchClient E k)"
  unfolding TouchClient_def by (intro hoare_rules)

lemma ticks_InsertClient [hoare_rules]: "keeps (ticks n) (InsertClient E cl)"
  unfolding InsertClient_def by (intro hoare_rules) auto

lemma ticks_ActiveKey [hoare_rules]: "keeps (ticks n) (ActiveKey E)"
  unfolding ActiveKey_def by (intro hoare_rules) auto

lemma ticks_MintAccessToken [hoare_rules]: "keeps (ticks n) (MintAccessToken E i rc sub sc cid ex)"
  unfolding MintAccessToken_def Let_def by (intro hoare_rules) auto

lemma ticks_MintRefreshToken [hoare_rules]: "keeps (ticks n) (MintRefreshToken E i)"
  unfolding MintRefreshToken_def Let_def by (intro hoare_rules) auto

lemma ticks_PersistEncrypted [hoare_rules]: "keeps (ticks n) (PersistEncrypted E c rc)"
  unfolding PersistEncrypted_def by (intro hoare_rules) auto

lemma check_secret_None:
  "check_secret client s = None \<longleftrightarrow> cl_ClientSecretHash client = [] \<or> s \<noteq> [] \<and> sha256Hex s = cl_ClientSecretHash client"
  by (auto simp: check_secret_def)

lemma check_secret_status: "check_secret client s = Some r \<Longrightarrow> rs_Status r = 401"
  by (auto simp: check_secret_def need_basic_def split: if_splits)

lemma containsString_set: "containsString ss s \<longleftrightarrow> s \<in> set ss"
  by (induction ss) auto

lemma challenges_agree: "s256Challenge v = pkceS256Challenge v"
  by (simp add: s256Challenge_def pkceS256Challenge_def)

text \<open>A form posted by a client, for the witnesses.\<close>

definition form_request :: "(string \<times> string) list \<Rightarrow> request" where
  "form_request form = \<lparr>rq_Method = ''POST'', rq_Path = ''/oauth/token'', rq_Host = ''h'', rq_RemoteAddr = ''10.0.0.1:5000'', rq_TLS = False,
     rq_Header = [], rq_Query = [], rq_FormError = False, rq_PostForm = form, rq_Body = Inr []\<rparr>"

end
