(* ===== verification/As_Authorize.thy ===== *)
theory As_Authorize
  imports As_Common
begin

text \<open>
  \<^verbatim>\<open>sidecar/internal/as/dcr.go\<close> and \<^verbatim>\<open>authorize.go\<close>: dynamic client registration and the start of an
  authorization. The properties say what a registration stores and when a browser is sent to the
  provider.
\<close>

section \<open>Registration\<close>

text \<open>The regular expression \<^verbatim>\<open>^[a-z][a-z0-9+.\-]*$\<close> on schemes.\<close>

definition schemeRe :: "string \<Rightarrow> bool" where
  "schemeRe s =
     (case s of [] \<Rightarrow> False
      | c # t \<Rightarrow> is_lower c \<and> list_all (\<lambda>d. is_lower d \<or> is_digit d \<or> d \<in> set ''+.-'') t)"

definition schemeDenylist :: "string list" where
  "schemeDenylist = [''javascript'', ''data'', ''file'', ''vbscript'', ''blob'', ''about'']"

definition validateRedirectURI :: "env \<Rightarrow> string \<Rightarrow> string" where
  "validateRedirectURI E raw =
     (case url_ParseRequestURI E raw of
        Inl e \<Rightarrow> ''invalid redirect_uri: '' @ raw
      | Inr parsed \<Rightarrow>
          if u_Scheme parsed = [] \<or> u_Host parsed = [] then ''invalid redirect_uri: '' @ raw
          else let scheme = u_Scheme parsed in
            if scheme \<in> set schemeDenylist then ''redirect_uri scheme not allowed: '' @ scheme
            else if scheme = ''https'' \<or> scheme = ''mcp'' then []
            else if scheme = ''http'' then
              (if u_Hostname parsed \<noteq> ''localhost'' \<and> u_Hostname parsed \<noteq> ''127.0.0.1''
               then ''http redirect_uri only allowed for localhost or 127.0.0.1, got: '' @ raw else [])
            else if \<not> schemeRe scheme then ''redirect_uri has invalid scheme: '' @ scheme
            else [])"

record registerRequest =
  rg_RedirectURIs :: "string list"
  rg_ClientName :: string
  rg_GrantTypes :: "string list"
  rg_Scope :: string

definition parse_register :: "bytes \<Rightarrow> registerRequest result" where
  "parse_register b =
     (case unmarshal_map b of
        Inl e \<Rightarrow> Inl e
      | Inr m \<Rightarrow>
          (case (struct_strs m ''redirect_uris'', struct_str m ''client_name'', struct_strs m ''grant_types'', struct_str m ''scope'') of
             (Inr u, Inr n, Inr g, Inr s) \<Rightarrow> Inr \<lparr>rg_RedirectURIs = u, rg_ClientName = n, rg_GrantTypes = g, rg_Scope = s\<rparr>
           | _ \<Rightarrow> Inl (GoErr ''json type'')))"

text \<open>The first complaint of \<^verbatim>\<open>validateRedirectURI\<close> in the loop, or none.\<close>

fun first_invalid :: "env \<Rightarrow> string list \<Rightarrow> string" where
  "first_invalid E [] = []"
| "first_invalid E (ru # rus) = (let desc = validateRedirectURI E ru in if desc \<noteq> [] then desc else first_invalid E rus)"

text \<open>The guard by \<^verbatim>\<open>BOUNCER_DCR_INITIAL_TOKEN\<close>.\<close>

definition initial_token_ok :: "env \<Rightarrow> request \<Rightarrow> bool" where
  "initial_token_ok E r =
     (let initialToken = os_env E ''BOUNCER_DCR_INITIAL_TOKEN''; authHeader = ReqGet r ''Authorization'';
          provided = (if length authHeader > 7 \<and> take 7 authHeader = ''Bearer '' then drop 7 authHeader else [])
      in initialToken = [] \<or> provided = initialToken)"

definition register_json :: "ResourceConfig \<Rightarrow> string \<Rightarrow> string \<Rightarrow> string \<Rightarrow> string list \<Rightarrow> json" where
  "register_json rc clientID clientSecret rat uris =
     JObj [(''client_id'', JStr clientID), (''client_secret'', JStr clientSecret), (''client_secret_expires_at'', JInt 0),
       (''redirect_uris'', JArr (map JStr uris)), (''grant_types'', JArr [JStr ''authorization_code'', JStr ''refresh_token'']),
       (''token_endpoint_auth_method'', JStr ''client_secret_post''), (''registration_access_token'', JStr rat),
       (''registration_client_uri'', JStr (rc_PublicBase rc @ ''/oauth/register/'' @ clientID))]"

text \<open>The part after validation: generate the credentials and store the client.\<close>

definition register_client :: "env \<Rightarrow> ResourceConfig \<Rightarrow> registerRequest \<Rightarrow> response eff" where
  "register_client E rc req = do {
     cid \<leftarrow> randomHex E 16;
     case cid of
       Inl e \<Rightarrow> State_Monad.return (writeError 500 ''server_error'' ''failed to generate client_id'')
     | Inr clientID \<Rightarrow> do {
         sb \<leftarrow> rand_Read E 32;
         case sb of
           Inl e \<Rightarrow> State_Monad.return (writeError 500 ''server_error'' ''failed to generate secret'')
         | Inr secretBytes \<Rightarrow> do {
             rb \<leftarrow> rand_Read E 32;
             case rb of
               Inl e \<Rightarrow> State_Monad.return (writeError 500 ''server_error'' ''failed to generate registration_access_token'')
             | Inr ratBytes \<Rightarrow> do {
                 now \<leftarrow> time_Now E;
                 let clientSecret = b64_EncodeToString RawURLEncoding secretBytes;
                     rat = b64_EncodeToString RawURLEncoding ratBytes in do {
                 ins \<leftarrow> InsertClient E
                   \<lparr>cl_ClientID = clientID, cl_ClientSecretHash = sha256Hex clientSecret,
                    cl_RedirectURIsJSON = json_marshal (JArr (map JStr (rg_RedirectURIs req))),
                    cl_RegistrationAccessTokenHash = sha256Hex rat, cl_Resource = rc_Name rc,
                    cl_Scopes = (if rg_Scope req = [] then rc_Scopes rc else rg_Scope req),
                    cl_CreatedAt = now, cl_LastUsedAt = zero_time\<rparr>;
                 case ins of
                   Inl e \<Rightarrow> State_Monad.return (writeError 500 ''server_error'' ''failed to persist client'')
                 | Inr _ \<Rightarrow> State_Monad.return (writeJSON 201 (register_json rc clientID clientSecret rat (rg_RedirectURIs req))) } } } } }"

definition HandleRegister :: "env \<Rightarrow> ResourceConfig \<Rightarrow> request \<Rightarrow> response eff" where
  "HandleRegister E rc r =
     (if rq_Method r \<noteq> ''POST'' then State_Monad.return (writeError 405 ''invalid_request'' ''method not allowed'')
      else if \<not> initial_token_ok E r then
        State_Monad.return (writeError 401 ''invalid_token'' ''valid Bearer token required for registration'')
      else case rq_Body r of
        Inl e \<Rightarrow> State_Monad.return (writeError 400 ''invalid_request'' ''cannot read body'')
      | Inr b \<Rightarrow>
          (case parse_register (limit_read 65536 b) of
             Inl e \<Rightarrow> State_Monad.return (writeError 400 ''invalid_request'' ''invalid JSON'')
           | Inr req \<Rightarrow>
               if rg_RedirectURIs req = [] then
                 State_Monad.return (writeError 400 ''invalid_redirect_uri'' ''at least one redirect_uri required'')
               else if first_invalid E (rg_RedirectURIs req) \<noteq> [] then
                 State_Monad.return (writeError 400 ''invalid_redirect_uri'' (first_invalid E (rg_RedirectURIs req)))
               else register_client E rc req))"

section \<open>Authorization\<close>

text \<open>The part after discovery: generate the upstream PKCE pair and state, save the session, redirect.\<close>

definition start_session :: "env \<Rightarrow> ResourceConfig \<Rightarrow> Provider \<Rightarrow> request \<Rightarrow> response eff" where
  "start_session E rc provider r = do {
     vb \<leftarrow> rand_Read E 32;
     case vb of
       Inl e \<Rightarrow> State_Monad.return (writeError 500 ''server_error'' ''failed to generate PKCE verifier'')
     | Inr verifierBytes \<Rightarrow> do {
         sb \<leftarrow> rand_Read E 16;
         case sb of
           Inl e \<Rightarrow> State_Monad.return (writeError 500 ''server_error'' ''failed to generate upstream state'')
         | Inr stateBytes \<Rightarrow> do {
             now \<leftarrow> time_Now E;
             let upstreamVerifier = b64_EncodeToString RawURLEncoding verifierBytes;
                 upstreamState = b64_EncodeToString RawURLEncoding stateBytes;
                 scope = (if QueryGet r ''scope'' = [] then rc_Scopes rc else QueryGet r ''scope'') in do {
             ins \<leftarrow> InsertAuthSession E
               \<lparr>se_State = upstreamState, se_CodeChallenge = QueryGet r ''code_challenge'',
                se_CodeChallengeMethod = QueryGet r ''code_challenge_method'', se_RedirectURI = QueryGet r ''redirect_uri'',
                se_ClientID = QueryGet r ''client_id'', se_Resource = rc_Name rc, se_Scopes = scope,
                se_ProviderIssuer = rc_ProviderIssuer rc, se_PublicBase = rc_PublicBase rc, se_UpstreamState = upstreamState,
                se_UpstreamPKCEVerifier = upstreamVerifier, se_OriginalState = QueryGet r ''state'',
                se_CreatedAt = now, se_ExpiresAt = now + 10 * minute\<rparr>;
             case ins of
               Inl e \<Rightarrow> State_Monad.return (writeError 500 ''server_error'' ''failed to save session'')
             | Inr _ \<Rightarrow>
                 (case url_Parse E (pr_AuthEndpoint provider) of
                    Inl e \<Rightarrow> State_Monad.return (writeError 500 ''server_error'' ''invalid upstream auth endpoint'')
                  | Inr u \<Rightarrow>
                      let uq = [(''response_type'', [''code'']), (''client_id'', [rc_ClientID rc]),
                            (''redirect_uri'', [rc_PublicBase rc @ ''/oauth/callback'']), (''scope'', [rc_Scopes rc]),
                            (''state'', [upstreamState]), (''code_challenge'', [s256Challenge upstreamVerifier]),
                            (''code_challenge_method'', [''S256''])];
                          uq' = (if QueryGet r ''prompt'' \<noteq> [] then alist_set ''prompt'' [QueryGet r ''prompt''] uq else uq)
                      in State_Monad.return (http_Redirect (u\<lparr>u_Query := uq'\<rparr>))) } } } }"

definition HandleAuthorize :: "env \<Rightarrow> ResourceConfig \<Rightarrow> request \<Rightarrow> response eff" where
  "HandleAuthorize E rc r =
     (if QueryGet r ''response_type'' \<noteq> ''code'' then
        State_Monad.return (writeError 400 ''unsupported_response_type'' (''response_type must be '' @ [CHR 0x27] @ ''code'' @ [CHR 0x27]))
      else if QueryGet r ''client_id'' = [] \<or> QueryGet r ''redirect_uri'' = [] \<or> QueryGet r ''code_challenge'' = [] then
        State_Monad.return (writeError 400 ''invalid_request'' ''missing required parameter'')
      else if QueryGet r ''code_challenge_method'' \<noteq> ''S256'' then
        State_Monad.return (writeError 400 ''invalid_request'' ''code_challenge_method must be S256'')
      else do {
        g \<leftarrow> GetClient E (QueryGet r ''client_id'');
        case g of
          Inl e \<Rightarrow> State_Monad.return (writeError 500 ''server_error'' ''failed to look up client'')
        | Inr None \<Rightarrow> State_Monad.return (writeError 401 ''invalid_client'' ''unknown client_id'')
        | Inr (Some client) \<Rightarrow> do {
            _ \<leftarrow> TouchClient E (cl_ClientID client);
            case unmarshal_strings (cl_RedirectURIsJSON client) of
              Inl e \<Rightarrow> State_Monad.return (writeError 500 ''server_error'' ''invalid redirect_uris in client record'')
            | Inr allowedURIs \<Rightarrow>
                if \<not> containsString allowedURIs (QueryGet r ''redirect_uri'') then
                  State_Monad.return (writeError 400 ''invalid_request'' ''redirect_uri not registered for this client'')
                else do {
                  p \<leftarrow> Discover E (rc_ProviderIssuer rc);
                  case p of
                    Inl e \<Rightarrow> State_Monad.return (writeError 502 ''server_error'' (''upstream discovery failed: '' @ err_text e))
                  | Inr provider \<Rightarrow> start_session E rc provider r } } })"

section \<open>Lemmas\<close>

lemma keeps_randomHex [hoare_rules]: "keeps (\<lambda>w. I (w_db w)) (randomHex E n)"
  unfolding randomHex_def by (intro hoare_rules) auto

lemma first_invalid_ok: "first_invalid E us = [] \<longleftrightarrow> (\<forall>u \<in> set us. validateRedirectURI E u = [])"
  by (induction us) (auto simp: Let_def)

lemmas run_elim = run_bindE
lemmas run_splits = if_splits sum.splits option.splits prod.splits

lemma register_client_201:
  assumes "run_state (register_client E rc req) w = (resp, w')" "rs_Status resp = 201"
  shows "\<exists>cid secret rat row. rs_Body resp = JsonBody (register_json rc cid secret rat (rg_RedirectURIs req)) \<and>
    w_db w' = (w_db w)\<lparr>clients := clients (w_db w) @ [row]\<rparr> \<and> cid \<notin> cl_ClientID ` set (clients (w_db w)) \<and>
    cl_ClientID row = cid \<and> cl_ClientSecretHash row = sha256Hex secret \<and> cl_RegistrationAccessTokenHash row = sha256Hex rat \<and>
    cl_Resource row = rc_Name rc \<and> cl_Scopes row = (if rg_Scope req = [] then rc_Scopes rc else rg_Scope req) \<and>
    cl_RedirectURIsJSON row = json_marshal (JArr (map JStr (rg_RedirectURIs req)))"
proof -
  let ?row = "\<lambda>cid secret rat now. \<lparr>cl_ClientID = cid, cl_ClientSecretHash = sha256Hex secret,
     cl_RedirectURIsJSON = json_marshal (JArr (map JStr (rg_RedirectURIs req))), cl_RegistrationAccessTokenHash = sha256Hex rat,
     cl_Resource = rc_Name rc, cl_Scopes = (if rg_Scope req = [] then rc_Scopes rc else rg_Scope req),
     cl_CreatedAt = now, cl_LastUsedAt = zero_time\<rparr>"
  from assms obtain cid w1 sb rb u where
    a: "run_state (randomHex E 16) w = (Inr cid, w1)" and
    rb: "rng E (w_tick w1) 32 = Some sb" "rng E (Suc (w_tick w1)) 32 = Some rb" and
    ins: "run_state (InsertClient E (?row cid (b64_EncodeToString RawURLEncoding sb) (b64_EncodeToString RawURLEncoding rb)
       (clock E (Suc (Suc (w_tick w1)))))) (bump (bump (bump w1))) = (Inr u, w')" and
    b: "resp = writeJSON 201 (register_json rc cid (b64_EncodeToString RawURLEncoding sb) (b64_EncodeToString RawURLEncoding rb) (rg_RedirectURIs req))"
    unfolding register_client_def Let_def
    by (auto elim!: run_elim simp del: run_state_bind json_marshal.simps split: sum.splits option.splits)
  define secret rat now where "secret = b64_EncodeToString RawURLEncoding sb" and "rat = b64_EncodeToString RawURLEncoding rb"
    and "now = clock E (Suc (Suc (w_tick w1)))"
  note ins = ins [folded secret_def rat_def now_def] and b = b [folded secret_def rat_def]
  have db: "w_db (bump (bump (bump w1))) = w_db w" using keeps_db_eq [OF keeps_randomHex a] by simp
  from InsertClient_ok [OF ins] db obtain t where
    "w_db w' = (w_db w)\<lparr>clients := clients (w_db w) @ [(?row cid secret rat now)\<lparr>cl_CreatedAt := stored_time now, cl_LastUsedAt := stored_time t\<rparr>]\<rparr>"
    "cid \<notin> cl_ClientID ` set (clients (w_db w))" by auto
  with b show ?thesis
    by (intro exI [of _ cid] exI [of _ secret] exI [of _ rat]
        exI [of _ "(?row cid secret rat now)\<lparr>cl_CreatedAt := stored_time now, cl_LastUsedAt := stored_time t\<rparr>"]) simp
qed

lemma register_client_err:
  assumes "run_state (register_client E rc req) w = (resp, w')" "rs_Status resp \<noteq> 201"
  shows "w_db w' = w_db w"
  using assms unfolding register_client_def Let_def
  by (auto elim!: run_elim simp: insert_errors keeps_db_eq [OF keeps_randomHex] simp del: run_state_bind
      dest!: insert_errors keeps_db_eq [OF keeps_randomHex] split: sum.splits option.splits)

lemma HandleRegister_result:
  assumes "run_state (HandleRegister E rc r) w = (resp, w')"
  shows "rs_Status resp \<noteq> 201 \<and> w_db w' = w_db w \<or> rs_Status resp = 201 \<and> initial_token_ok E r \<and>
    (\<exists>b req. rq_Body r = Inr b \<and> parse_register (limit_read 65536 b) = Inr req \<and> rg_RedirectURIs req \<noteq> [] \<and>
      (\<forall>u \<in> set (rg_RedirectURIs req). validateRedirectURI E u = []) \<and> run_state (register_client E rc req) w = (resp, w'))"
  using assms register_client_err [of E rc _ w resp w'] unfolding HandleRegister_def
  by (auto simp: first_invalid_ok [symmetric] split: sum.splits if_splits)

lemma start_session_302:
  assumes "run_state (start_session E rc p r) w = (resp, w')" "rs_Status resp = 302"
  shows "\<exists>u n s. rs_Body resp = RedirectBody u \<and> url_Get u ''state'' = se_State s \<and>
    url_Get u ''code_challenge'' = s256Challenge (se_UpstreamPKCEVerifier s) \<and>
    url_Get u ''code_challenge_method'' = ''S256'' \<and> url_Get u ''redirect_uri'' = rc_PublicBase rc @ ''/oauth/callback'' \<and>
    w_tick w \<le> n \<and> w_db w' = (w_db w)\<lparr>auth_sessions := auth_sessions (w_db w) @ [s]\<rparr> \<and>
    se_State s \<notin> se_State ` set (auth_sessions (w_db w)) \<and>
    se_CodeChallenge s = QueryGet r ''code_challenge'' \<and> se_CodeChallengeMethod s = QueryGet r ''code_challenge_method'' \<and>
    se_RedirectURI s = QueryGet r ''redirect_uri'' \<and> se_ClientID s = QueryGet r ''client_id'' \<and> se_Resource s = rc_Name rc \<and>
    se_ProviderIssuer s = rc_ProviderIssuer rc \<and> se_PublicBase s = rc_PublicBase rc \<and> se_OriginalState s = QueryGet r ''state'' \<and>
    se_Scopes s = (if QueryGet r ''scope'' = [] then rc_Scopes rc else QueryGet r ''scope'') \<and>
    se_ExpiresAt s = stored_time (clock E n + 10 * minute)"
proof -
  let ?s = "\<lambda>st v now. \<lparr>se_State = st, se_CodeChallenge = QueryGet r ''code_challenge'',
                se_CodeChallengeMethod = QueryGet r ''code_challenge_method'', se_RedirectURI = QueryGet r ''redirect_uri'',
                se_ClientID = QueryGet r ''client_id'', se_Resource = rc_Name rc,
                se_Scopes = (if QueryGet r ''scope'' = [] then rc_Scopes rc else QueryGet r ''scope''),
                se_ProviderIssuer = rc_ProviderIssuer rc, se_PublicBase = rc_PublicBase rc, se_UpstreamState = st,
                se_UpstreamPKCEVerifier = v, se_OriginalState = QueryGet r ''state'',
                se_CreatedAt = now, se_ExpiresAt = now + 10 * minute\<rparr>"
  from assms obtain st v n w2 y u u0 where
    ins: "run_state (InsertAuthSession E (?s st v (clock E n))) w2 = (Inr y, w')" and w2: "w_db w2 = w_db w" "w_tick w \<le> n" and
    b: "rs_Body resp = RedirectBody u" and
    u: "u = u0\<lparr>u_Query := (let uq = [(''response_type'', [''code'']), (''client_id'', [rc_ClientID rc]),
                            (''redirect_uri'', [rc_PublicBase rc @ ''/oauth/callback'']), (''scope'', [rc_Scopes rc]),
                            (''state'', [st]), (''code_challenge'', [s256Challenge v]),
                            (''code_challenge_method'', [''S256''])] in
        if QueryGet r ''prompt'' \<noteq> [] then alist_set ''prompt'' [QueryGet r ''prompt''] uq else uq)\<rparr>"
    unfolding start_session_def Let_def
    by (auto elim!: run_elim simp del: run_state_bind split: sum.splits option.splits)
  let ?new = "(?s st v (clock E n))\<lparr>se_CreatedAt := stored_time (clock E n), se_ExpiresAt := stored_time (clock E n + 10 * minute)\<rparr>"
  from InsertAuthSession_ok [OF ins] w2 have
    d: "w_db w' = (w_db w)\<lparr>auth_sessions := auth_sessions (w_db w) @ [?new]\<rparr>" "st \<notin> se_State ` set (auth_sessions (w_db w))" by simp_all
  have q: "url_Get u ''state'' = st" "url_Get u ''code_challenge'' = s256Challenge v" "url_Get u ''code_challenge_method'' = ''S256''"
    "url_Get u ''redirect_uri'' = rc_PublicBase rc @ ''/oauth/callback''"
    unfolding u by (simp_all add: url_Get_def Let_def)
  show ?thesis
    by (intro exI [of _ u] exI [of _ n] exI [of _ ?new]) (simp add: b q d w2)
qed

lemma HandleAuthorize_302:
  assumes "run_state (HandleAuthorize E rc r) w = (resp, w')" "rs_Status resp = 302"
  shows "\<exists>client uris p d w1 w2. QueryGet r ''response_type'' = ''code'' \<and> QueryGet r ''code_challenge'' \<noteq> [] \<and>
    QueryGet r ''code_challenge_method'' = ''S256'' \<and>
    sql_get cl_ClientID (QueryGet r ''client_id'') (clients (w_db w)) = Some client \<and>
    unmarshal_strings (cl_RedirectURIsJSON client) = Inr uris \<and> QueryGet r ''redirect_uri'' \<in> set uris \<and>
    run_state (TouchClient E (cl_ClientID client)) (bump w) = (d, w1) \<and>
    run_state (Discover E (rc_ProviderIssuer rc)) w1 = (Inr p, w2) \<and> run_state (start_session E rc p r) w2 = (resp, w')"
proof -
  from assms obtain client w0 where g: "run_state (GetClient E (QueryGet r ''client_id'')) w = (Inr (Some client), w0)"
    unfolding HandleAuthorize_def by (auto elim!: run_elim simp del: run_state_bind split: if_splits sum.splits option.splits)
  then have cl: "sql_get cl_ClientID (QueryGet r ''client_id'') (clients (w_db w)) = Some client" and w0: "w0 = bump w"
    by (auto simp: store_run split: if_splits)
  from assms g w0 cl show ?thesis
    unfolding HandleAuthorize_def
    by (auto elim!: run_elim simp: containsString_set simp del: run_state_bind split: if_splits sum.splits)
qed

text \<open>What registration guarantees of a redirect URI it accepts. Every other scheme of valid syntax is accepted
  as well.\<close>

lemma validateRedirectURI_accepts:
  "validateRedirectURI E raw = [] \<longleftrightarrow> (\<exists>u. url_ParseRequestURI E raw = Inr u \<and> u_Host u \<noteq> [] \<and>
     u_Scheme u \<notin> {[], ''javascript'', ''data'', ''file'', ''vbscript'', ''blob'', ''about''} \<and>
     (u_Scheme u = ''http'' \<longrightarrow> u_Hostname u \<in> {''localhost'', ''127.0.0.1''}) \<and>
     (u_Scheme u \<in> {''https'', ''mcp'', ''http''} \<or> is_lower (hd (u_Scheme u)) \<and>
       (\<forall>c \<in> set (tl (u_Scheme u)). is_lower c \<or> is_digit c \<or> c \<in> {CHR ''+'', CHR ''.'', CHR ''-''})))"
proof (cases "url_ParseRequestURI E raw")
  case (Inr u)
  have "schemeRe s \<longleftrightarrow> is_lower (hd s) \<and> (\<forall>c \<in> set (tl s). is_lower c \<or> is_digit c \<or> c \<in> {CHR ''+'', CHR ''.'', CHR ''-''})" if "s \<noteq> []" for s
    using that by (cases s) (auto simp: schemeRe_def list_all_iff)
  with Inr show ?thesis by (auto simp: validateRedirectURI_def schemeDenylist_def Let_def)
qed (simp add: validateRedirectURI_def)

section \<open>Properties\<close>

text \<open>
  Property C25. Registration stores exactly one client and only digests of its credentials. A 201 means the
  initial access token matched if one is configured, at least one redirect URI was given and every
  one is acceptable; the row holds the SHA-256 digests of the secret and the registration token that
  the response carries, the URIs, and the resource. Any other answer leaves the database as it was.
\<close>

theorem register_stores_digests:
  assumes "run_state (HandleRegister E rc r) w = (resp, w')"
  shows "rs_Status resp \<noteq> 201 \<and> w_db w' = w_db w \<or>
    rs_Status resp = 201 \<and> initial_token_ok E r \<and>
    (\<exists>uris cid secret rat row. uris \<noteq> [] \<and> (\<forall>u \<in> set uris. validateRedirectURI E u = []) \<and>
      rs_Body resp = JsonBody (register_json rc cid secret rat uris) \<and>
      w_db w' = (w_db w)\<lparr>clients := clients (w_db w) @ [row]\<rparr> \<and> cid \<notin> cl_ClientID ` set (clients (w_db w)) \<and>
      cl_ClientID row = cid \<and> cl_ClientSecretHash row = sha256Hex secret \<and> cl_RegistrationAccessTokenHash row = sha256Hex rat \<and>
      cl_Resource row = rc_Name rc \<and> cl_RedirectURIsJSON row = json_marshal (JArr (map JStr uris)))"
  using HandleRegister_result [OF assms]
proof (elim disjE conjE exE)
  fix b req
  assume a: "rs_Status resp = 201" "initial_token_ok E r" "rg_RedirectURIs req \<noteq> []"
    "\<forall>u \<in> set (rg_RedirectURIs req). validateRedirectURI E u = []" "run_state (register_client E rc req) w = (resp, w')"
  from register_client_201 [OF a(5,1)] a show ?thesis by blast
qed blast

definition sample_uri :: url where
  "sample_uri = \<lparr>u_Scheme = ''https'', u_Host = ''app'', u_Hostname = ''app'', u_Path = ''/cb'', u_Query = []\<rparr>"

definition sample_url_env :: env where
  "sample_url_env = sample_env\<lparr>url_ParseRequestURI := \<lambda>_. Inr sample_uri, url_Parse := \<lambda>_. Inr sample_uri\<rparr>"

lemma sample_url_simps [simp]:
  "clock sample_url_env n = time_Unix (1700000000 + int n)" "db_fail sample_url_env n = False"
  "rng sample_url_env n m = Some (replicate m (byte_of (n mod 256)))" "os_env sample_url_env v = []"
  "url_Parse sample_url_env x = Inr sample_uri" "url_ParseRequestURI sample_url_env x = Inr sample_uri"
  by (simp_all add: sample_url_env_def) (simp add: sample_env_def)

definition sample_register_body :: bytes where
  "sample_register_body = json_marshal (JObj [(''redirect_uris'', JArr [JStr ''https://app/cb''])])"

definition sample_register_req :: request where
  "sample_register_req = \<lparr>rq_Method = ''POST'', rq_Path = ''/oauth/register'', rq_Host = ''h'', rq_RemoteAddr = ''10.0.0.1:5000'', rq_TLS = False,
     rq_Header = [], rq_Query = [], rq_FormError = False, rq_PostForm = [],
     rq_Body = Inr sample_register_body\<rparr>"

lemma sample_register_parse:
  "parse_register sample_register_body =
     Inr \<lparr>rg_RedirectURIs = [''https://app/cb''], rg_ClientName = [], rg_GrantTypes = [], rg_Scope = []\<rparr>"
  by code_simp

lemma sample_register_length: "length sample_register_body = 36"
  by code_simp

theorem register_stores_digests_witness:
  "\<exists>resp w' row secret. run_state (HandleRegister sample_url_env sample_rc sample_register_req) sample_world = (resp, w') \<and>
     rs_Status resp = 201 \<and> clients (w_db w') = [row] \<and> cl_ClientSecretHash row = sha256Hex secret"
proof -
  have valid: "validateRedirectURI sample_url_env ''https://app/cb'' = []"
    by (simp add: validateRedirectURI_def sample_uri_def schemeDenylist_def)
  have lim: "limit_read 65536 sample_register_body = sample_register_body"
    by (simp add: limit_read_def sample_register_length)
  have ok: "initial_token_ok sample_url_env sample_register_req"
    by (simp add: initial_token_ok_def)
  have "run_state (HandleRegister sample_url_env sample_rc sample_register_req) sample_world =
    run_state (register_client sample_url_env sample_rc
      \<lparr>rg_RedirectURIs = [''https://app/cb''], rg_ClientName = [], rg_GrantTypes = [], rg_Scope = []\<rparr>) sample_world"
    using valid ok sample_register_parse lim by (simp add: HandleRegister_def) (simp add: sample_register_req_def)
  moreover have "rs_Status (fst (run_state (register_client sample_url_env sample_rc
      \<lparr>rg_RedirectURIs = [''https://app/cb''], rg_ClientName = [], rg_GrantTypes = [], rg_Scope = []\<rparr>) sample_world)) = 201"
    by (simp add: register_client_def randomHex_def InsertClient_def run_db_stmt sql_insert_def sample_world_def empty_db_def Let_def
        del: json_marshal.simps)
  ultimately obtain resp w' where r: "run_state (HandleRegister sample_url_env sample_rc sample_register_req) sample_world = (resp, w')"
    and st: "rs_Status resp = 201" by (metis prod.collapse)
  have "clients (w_db sample_world) = []" by (simp add: sample_world_def empty_db_def)
  with register_stores_digests [OF r] r st show ?thesis by auto
qed

text \<open>
  Property C12. A browser is sent to the provider only for a registered client and one of its registered
  redirect URIs, with a non-empty S256 challenge. The redirect carries a fresh state and the S256
  challenge of a fresh verifier; one session is stored under that state with that verifier, the
  client's challenge, redirect URI, client id and state, the resource of the request, and an expiry
  ten minutes ahead. Sessions are stored under states not in use.
\<close>

theorem authorize_redirect_sound:
  assumes "run_state (HandleAuthorize E rc r) w = (resp, w')" "rs_Status resp = 302"
  shows "\<exists>client uris u s now n.
    sql_get cl_ClientID (QueryGet r ''client_id'') (clients (w_db w)) = Some client \<and>
    unmarshal_strings (cl_RedirectURIsJSON client) = Inr uris \<and> QueryGet r ''redirect_uri'' \<in> set uris \<and>
    QueryGet r ''code_challenge'' \<noteq> [] \<and> QueryGet r ''code_challenge_method'' = ''S256'' \<and>
    rs_Body resp = RedirectBody u \<and> url_Get u ''state'' = se_State s \<and>
    url_Get u ''code_challenge'' = s256Challenge (se_UpstreamPKCEVerifier s) \<and>
    auth_sessions (w_db w') = auth_sessions (w_db w) @ [s] \<and> se_State s \<notin> se_State ` set (auth_sessions (w_db w)) \<and>
    se_CodeChallenge s = QueryGet r ''code_challenge'' \<and> se_CodeChallengeMethod s = ''S256'' \<and>
    se_RedirectURI s = QueryGet r ''redirect_uri'' \<and> se_ClientID s = QueryGet r ''client_id'' \<and>
    se_OriginalState s = QueryGet r ''state'' \<and> se_Resource s = rc_Name rc \<and> se_ProviderIssuer s = rc_ProviderIssuer rc \<and>
    w_tick w \<le> n \<and> now = clock E n \<and> se_ExpiresAt s = stored_time (now + 10 * minute)"
proof -
  from HandleAuthorize_302 [OF assms] obtain client uris p d w1 w2 where
    h: "QueryGet r ''code_challenge'' \<noteq> []" "QueryGet r ''code_challenge_method'' = ''S256''"
    "sql_get cl_ClientID (QueryGet r ''client_id'') (clients (w_db w)) = Some client"
    "unmarshal_strings (cl_RedirectURIsJSON client) = Inr uris" "QueryGet r ''redirect_uri'' \<in> set uris" and
    t: "run_state (TouchClient E (cl_ClientID client)) (bump w) = (d, w1)" and
    di: "run_state (Discover E (rc_ProviderIssuer rc)) w1 = (Inr p, w2)" and
    ss: "run_state (start_session E rc p r) w2 = (resp, w')" by blast
  have ticks: "w_tick w \<le> w_tick w2"
    using t di by (auto simp: store_run Discover_def Let_def split: if_splits option.splits sum.splits)
  have sess: "auth_sessions (w_db w2) = auth_sessions (w_db w)"
    using t upstream_db(1) [OF di] by (auto simp: store_run split: if_splits)
  from start_session_302 [OF ss assms(2)] obtain u n s where
    s: "rs_Body resp = RedirectBody u" "url_Get u ''state'' = se_State s" "url_Get u ''code_challenge'' = s256Challenge (se_UpstreamPKCEVerifier s)"
    "w_tick w2 \<le> n" "w_db w' = (w_db w2)\<lparr>auth_sessions := auth_sessions (w_db w2) @ [s]\<rparr>" "se_State s \<notin> se_State ` set (auth_sessions (w_db w2))"
    "se_CodeChallenge s = QueryGet r ''code_challenge''" "se_CodeChallengeMethod s = QueryGet r ''code_challenge_method''"
    "se_RedirectURI s = QueryGet r ''redirect_uri''" "se_ClientID s = QueryGet r ''client_id''" "se_Resource s = rc_Name rc"
    "se_ProviderIssuer s = rc_ProviderIssuer rc" "se_OriginalState s = QueryGet r ''state''"
    "se_ExpiresAt s = stored_time (clock E n + 10 * minute)" by blast
  show ?thesis
    using h s sess ticks
    by (intro exI [of _ client] exI [of _ uris] exI [of _ u] exI [of _ s] exI [of _ "clock E n"] exI [of _ n]) simp
qed

definition sample_provider :: Provider where
  "sample_provider = \<lparr>pr_Issuer = ''https://idp'', pr_AuthEndpoint = ''https://idp/auth'', pr_TokenEndpoint = ''https://idp/token'',
     pr_UserinfoEndpoint = [], pr_JWKSURI = []\<rparr>"

definition sample_uris :: string where
  "sample_uris = json_marshal (JArr [JStr ''https://app/cb''])"

lemma sample_uris_parse: "unmarshal_strings sample_uris = Inr [''https://app/cb'']"
  by code_simp

definition sample_client_world :: world where
  "sample_client_world = sample_world\<lparr>w_providers := [(''https://idp'', sample_provider)], w_db := empty_db\<lparr>clients :=
     [\<lparr>cl_ClientID = ''c1'', cl_ClientSecretHash = sha256Hex ''pw'', cl_RedirectURIsJSON = sample_uris,
       cl_RegistrationAccessTokenHash = [], cl_Resource = ''wiki'', cl_Scopes = ''openid'', cl_CreatedAt = 0, cl_LastUsedAt = 0\<rparr>]\<rparr>\<rparr>"

definition sample_authorize_req :: request where
  "sample_authorize_req = \<lparr>rq_Method = ''GET'', rq_Path = ''/oauth/authorize'', rq_Host = ''h'', rq_RemoteAddr = ''10.0.0.1:5000'', rq_TLS = False,
     rq_Header = [], rq_Query = [(''response_type'', ''code''), (''client_id'', ''c1''), (''redirect_uri'', ''https://app/cb''),
       (''code_challenge'', ''xyz''), (''code_challenge_method'', ''S256''), (''state'', ''st'')],
     rq_FormError = False, rq_PostForm = [], rq_Body = Inr []\<rparr>"

theorem authorize_redirect_sound_witness:
  "\<exists>resp w' s. run_state (HandleAuthorize sample_url_env sample_rc sample_authorize_req) sample_client_world = (resp, w') \<and>
     rs_Status resp = 302 \<and> auth_sessions (w_db w') = [s] \<and> se_CodeChallenge s = ''xyz'' \<and> se_OriginalState s = ''st''"
proof -
  have "rs_Status (fst (run_state (HandleAuthorize sample_url_env sample_rc sample_authorize_req) sample_client_world)) = 302"
    by (simp add: HandleAuthorize_def QueryGet_def first_value_def sample_authorize_req_def store_run sample_client_world_def sql_get_def
        sample_uris_parse Discover_def sample_rc_def start_session_def InsertAuthSession_def run_db_stmt sql_insert_def Let_def
        sample_world_def empty_db_def)
  then obtain resp w' where r: "run_state (HandleAuthorize sample_url_env sample_rc sample_authorize_req) sample_client_world = (resp, w')"
    "rs_Status resp = 302" by (metis prod.collapse)
  have e: "auth_sessions (w_db sample_client_world) = []" by (simp add: sample_client_world_def empty_db_def)
  have q: "QueryGet sample_authorize_req ''code_challenge'' = ''xyz''" "QueryGet sample_authorize_req ''state'' = ''st''"
    by (simp_all add: QueryGet_def first_value_def sample_authorize_req_def)
  from authorize_redirect_sound [OF r] r e q show ?thesis by auto
qed

end
