(* ===== verification/As_Token.thy ===== *)
theory As_Token
  imports As_Common
begin

text \<open>
  \<^verbatim>\<open>sidecar/internal/as/token.go\<close>: the token endpoint with its authorization-code and refresh-token
  grants. The properties say when tokens are issued, that codes and refresh tokens are used once,
  and what the new refresh token inherits.
\<close>

section \<open>Definitions\<close>

definition token_json :: "Issuer \<Rightarrow> string \<Rightarrow> string \<Rightarrow> string \<Rightarrow> json" where
  "token_json i accessToken refreshToken scope =
     JObj [(''access_token'', JStr accessToken), (''token_type'', JStr ''Bearer''),
       (''expires_in'', JInt (ttl_seconds (is_accessTTL i))), (''refresh_token'', JStr refreshToken), (''scope'', JStr scope)]"

definition issue_for_code :: "env \<Rightarrow> Issuer \<Rightarrow> ResourceConfig \<Rightarrow> Code \<Rightarrow> response eff" where
  "issue_for_code E i rc codeRow = do {
     a \<leftarrow> MintAccessToken E i rc (co_Sub codeRow) (co_Scopes codeRow) (co_ClientID codeRow) (stored_claims (co_ClaimsJSON codeRow));
     case a of
       Inl e \<Rightarrow> State_Monad.return (writeError 500 ''server_error'' (''failed to mint access token: '' @ err_text e))
     | Inr (accessToken, _) \<Rightarrow> do {
         m \<leftarrow> MintRefreshToken E i;
         case m of
           Inl e \<Rightarrow> State_Monad.return (writeError 500 ''server_error'' ''failed to mint refresh token'')
         | Inr (rawRefresh, refreshHash, refreshExpiry) \<Rightarrow> do {
             ins \<leftarrow> InsertRefreshToken E \<lparr>rt_TokenHash = refreshHash, rt_Sub = co_Sub codeRow, rt_Resource = co_Resource codeRow,
               rt_ClientID = co_ClientID codeRow, rt_ClaimsJSON = co_ClaimsJSON codeRow,
               rt_UpstreamRefreshEnc = co_UpstreamRefreshEnc codeRow, rt_Scopes = co_Scopes codeRow, rt_ExpiresAt = refreshExpiry\<rparr>;
             case ins of
               Inl e \<Rightarrow> State_Monad.return (writeError 500 ''server_error'' ''failed to save refresh token'')
             | Inr _ \<Rightarrow> State_Monad.return (writeJSON 200 (token_json i accessToken rawRefresh (co_Scopes codeRow))) } } }"

text \<open>The part after the lookup of the code.\<close>

definition redeem_row :: "env \<Rightarrow> Issuer \<Rightarrow> ResourceConfig \<Rightarrow> Client \<Rightarrow> request \<Rightarrow> Code \<Rightarrow> response eff" where
  "redeem_row E i rc client r codeRow = do {
     _ \<leftarrow> DeleteCode E (FormValue r ''code'');
     if co_ClientID codeRow \<noteq> cl_ClientID client then
       State_Monad.return (writeError 400 ''invalid_grant'' ''code does not belong to this client'')
     else if co_RedirectURI codeRow \<noteq> FormValue r ''redirect_uri'' then
       State_Monad.return (writeError 400 ''invalid_grant'' ''redirect_uri mismatch'')
     else do {
       now \<leftarrow> time_Now E;
       if now > co_ExpiresAt codeRow then State_Monad.return (writeError 400 ''invalid_grant'' ''code expired'')
       else if co_CodeChallengeMethod codeRow = ''S256'' then
         (if pkceS256Challenge (FormValue r ''code_verifier'') \<noteq> co_CodeChallenge codeRow then
            State_Monad.return (writeError 400 ''invalid_grant'' ''code_verifier does not match code_challenge'')
          else issue_for_code E i rc codeRow)
       else State_Monad.return (writeError 400 ''invalid_grant'' ''unsupported pkce method'') } }"

definition handleAuthorizationCode :: "env \<Rightarrow> Issuer \<Rightarrow> ResourceConfig \<Rightarrow> Client \<Rightarrow> request \<Rightarrow> response eff" where
  "handleAuthorizationCode E i rc client r =
     (let code = FormValue r ''code''; redirectURI = FormValue r ''redirect_uri''; codeVerifier = FormValue r ''code_verifier'' in
      if code = [] \<or> redirectURI = [] \<or> codeVerifier = [] then
        State_Monad.return (writeError 400 ''invalid_request'' ''missing code, redirect_uri, or code_verifier'')
      else do {
        g \<leftarrow> GetCode E code;
        case g of
          Inl e \<Rightarrow> State_Monad.return (writeError 500 ''server_error'' ''failed to look up code'')
        | Inr None \<Rightarrow> State_Monad.return (writeError 400 ''invalid_grant'' ''unknown or already used code'')
        | Inr (Some codeRow) \<Rightarrow> redeem_row E i rc client r codeRow })"

text \<open>The optional refresh at the provider: an error response in strict mode, else the ciphertext to keep.\<close>

definition upstream_failed :: response where
  "upstream_failed = writeError 400 ''invalid_grant'' ''upstream refresh failed''"

definition refresh_upstream :: "env \<Rightarrow> Cipher \<Rightarrow> ResourceConfig \<Rightarrow> bytes \<Rightarrow> (response + bytes) eff" where
  "refresh_upstream E cipher rc enc0 =
     (let strictUpstream = ParseBool (os_env E ''BOUNCER_STRICT_UPSTREAM_REFRESH'') in
      if enc0 = [] then State_Monad.return (Inr enc0)
      else case Decrypt E cipher enc0 of
        Inl e \<Rightarrow> State_Monad.return (Inr enc0)
      | Inr plain \<Rightarrow> do {
          p \<leftarrow> Discover E (rc_ProviderIssuer rc);
          case p of
            Inl e \<Rightarrow> State_Monad.return (if strictUpstream then Inl upstream_failed else Inr enc0)
          | Inr provider \<Rightarrow> do {
              u \<leftarrow> RefreshTokens E provider (rc_ClientID rc) (rc_ClientSecret rc) plain;
              case u of
                Inl e \<Rightarrow> State_Monad.return (if strictUpstream then Inl upstream_failed else Inr enc0)
              | Inr tr \<Rightarrow>
                  if tr_RefreshToken tr \<noteq> [] then do {
                    c \<leftarrow> Encrypt E cipher (tr_RefreshToken tr);
                    State_Monad.return (case c of Inl e \<Rightarrow> Inr enc0 | Inr enc \<Rightarrow> Inr enc) }
                  else State_Monad.return (Inr enc0) } })"

definition issue_for_refresh :: "env \<Rightarrow> Issuer \<Rightarrow> ResourceConfig \<Rightarrow> RefreshToken \<Rightarrow> bytes \<Rightarrow> response eff" where
  "issue_for_refresh E i rc rt upstreamRefreshEnc = do {
     a \<leftarrow> MintAccessToken E i rc (rt_Sub rt) (rt_Scopes rt) (rt_ClientID rt) (stored_claims (rt_ClaimsJSON rt));
     case a of
       Inl e \<Rightarrow> State_Monad.return (writeError 500 ''server_error'' ''failed to mint access token'')
     | Inr (accessToken, _) \<Rightarrow> do {
         m \<leftarrow> MintRefreshToken E i;
         case m of
           Inl e \<Rightarrow> State_Monad.return (writeError 500 ''server_error'' ''failed to mint refresh token'')
         | Inr (newRawRefresh, newHash, newExpiry) \<Rightarrow> do {
             ins \<leftarrow> InsertRefreshToken E (rt\<lparr>rt_TokenHash := newHash, rt_UpstreamRefreshEnc := upstreamRefreshEnc, rt_ExpiresAt := newExpiry\<rparr>);
             case ins of
               Inl e \<Rightarrow> State_Monad.return (writeError 500 ''server_error'' ''failed to save new refresh token'')
             | Inr _ \<Rightarrow> State_Monad.return (writeJSON 200 (token_json i accessToken newRawRefresh (rt_Scopes rt))) } } }"

definition handleRefreshToken :: "env \<Rightarrow> Issuer \<Rightarrow> Cipher \<Rightarrow> ResourceConfig \<Rightarrow> Client \<Rightarrow> request \<Rightarrow> response eff" where
  "handleRefreshToken E i cipher rc client r =
     (let rawRefresh = FormValue r ''refresh_token''; hash = HashToken rawRefresh in
      if rawRefresh = [] then State_Monad.return (writeError 400 ''invalid_request'' ''missing refresh_token'')
      else do {
        g \<leftarrow> GetRefreshTokenByHash E hash;
        case g of
          Inl e \<Rightarrow> State_Monad.return (writeError 500 ''server_error'' ''failed to look up refresh token'')
        | Inr None \<Rightarrow> State_Monad.return (writeError 400 ''invalid_grant'' ''unknown or already used refresh token'')
        | Inr (Some rt) \<Rightarrow> do {
            _ \<leftarrow> DeleteRefreshTokenByHash E hash;
            if rt_ClientID rt \<noteq> cl_ClientID client then
              State_Monad.return (writeError 400 ''invalid_grant'' ''refresh token does not belong to this client'')
            else do {
              now \<leftarrow> time_Now E;
              if now > rt_ExpiresAt rt then State_Monad.return (writeError 400 ''invalid_grant'' ''refresh token expired'')
              else do {
                u \<leftarrow> refresh_upstream E cipher rc (rt_UpstreamRefreshEnc rt);
                case u of
                  Inl resp \<Rightarrow> State_Monad.return resp
                | Inr enc \<Rightarrow> issue_for_refresh E i rc rt enc } } } })"

definition HandleToken :: "env \<Rightarrow> Issuer \<Rightarrow> Cipher \<Rightarrow> ResourceConfig \<Rightarrow> request \<Rightarrow> response eff" where
  "HandleToken E i cipher rc r =
     (if rq_Method r \<noteq> ''POST'' then State_Monad.return (writeError 405 ''invalid_request'' ''method not allowed'')
      else if rq_FormError r then State_Monad.return (writeError 400 ''invalid_request'' ''cannot parse form'')
      else case extractClientCredentials r of
        Inl e \<Rightarrow> State_Monad.return (writeError 401 ''invalid_client'' (err_text e))
      | Inr (clientID, clientSecret) \<Rightarrow> do {
          g \<leftarrow> GetClient E clientID;
          case g of
            Inl e \<Rightarrow> State_Monad.return (writeError 500 ''server_error'' ''failed to look up client'')
          | Inr None \<Rightarrow> State_Monad.return (writeError 401 ''invalid_client'' ''unknown client'')
          | Inr (Some client) \<Rightarrow> do {
              _ \<leftarrow> TouchClient E (cl_ClientID client);
              case check_secret client clientSecret of
                Some resp \<Rightarrow> State_Monad.return resp
              | None \<Rightarrow>
                  if FormValue r ''grant_type'' = ''authorization_code'' then handleAuthorizationCode E i rc client r
                  else if FormValue r ''grant_type'' = ''refresh_token'' then handleRefreshToken E i cipher rc client r
                  else State_Monad.return (writeError 400 ''unsupported_grant_type'' (''unsupported grant_type: '' @ FormValue r ''grant_type'')) } })"

section \<open>Inversion\<close>

text \<open>A 200 of the code grant: the stored code passed every check, and the new refresh token is its heir.\<close>

lemma issue_for_code_200:
  assumes "run_state (issue_for_code E i rc codeRow) w = (resp, w')" "rs_Status resp = 200"
  shows "\<exists>tok exp raw w1 rt. run_state (MintAccessToken E i rc (co_Sub codeRow) (co_Scopes codeRow) (co_ClientID codeRow)
      (stored_claims (co_ClaimsJSON codeRow))) w = (Inr (tok, exp), w1) \<and>
    rs_Body resp = JsonBody (token_json i tok raw (co_Scopes codeRow)) \<and>
    w_db w' = (w_db w)\<lparr>refresh_tokens := refresh_tokens (w_db w) @ [rt]\<rparr> \<and>
    HashToken raw \<notin> rt_TokenHash ` set (refresh_tokens (w_db w)) \<and> rt_TokenHash rt = HashToken raw \<and>
    rt_Sub rt = co_Sub codeRow \<and> rt_Resource rt = co_Resource codeRow \<and> rt_ClientID rt = co_ClientID codeRow \<and>
    rt_Scopes rt = co_Scopes codeRow \<and> rt_ClaimsJSON rt = co_ClaimsJSON codeRow \<and>
    rt_UpstreamRefreshEnc rt = co_UpstreamRefreshEnc codeRow"
proof -
  let ?rt = "\<lambda>h t. \<lparr>rt_TokenHash = h, rt_Sub = co_Sub codeRow, rt_Resource = co_Resource codeRow,
     rt_ClientID = co_ClientID codeRow, rt_ClaimsJSON = co_ClaimsJSON codeRow,
     rt_UpstreamRefreshEnc = co_UpstreamRefreshEnc codeRow, rt_Scopes = co_Scopes codeRow, rt_ExpiresAt = t\<rparr>"
  from assms obtain tok exp w1 raw h t w2 u where
    a: "run_state (MintAccessToken E i rc (co_Sub codeRow) (co_Scopes codeRow) (co_ClientID codeRow)
      (stored_claims (co_ClaimsJSON codeRow))) w = (Inr (tok, exp), w1)" and
    m: "run_state (MintRefreshToken E i) w1 = (Inr (raw, h, t), w2)" and
    ins: "run_state (InsertRefreshToken E (?rt h t)) w2 = (Inr u, w')" and
    b: "rs_Body resp = JsonBody (token_json i tok raw (co_Scopes codeRow))"
    unfolding issue_for_code_def by (auto elim!: run_bindE simp del: run_state_bind split: sum.splits)
  have db: "w_db w2 = w_db w"
    using keeps_db_eq [OF keeps_MintAccessToken a] keeps_db_eq [OF keeps_MintRefreshToken m] by simp
  from MintRefreshToken_ok [OF m] have h: "h = HashToken raw" by simp
  let ?new = "(?rt h t)\<lparr>rt_ExpiresAt := stored_time t\<rparr>"
  from InsertRefreshToken_ok [OF ins] db h have
    "w_db w' = (w_db w)\<lparr>refresh_tokens := refresh_tokens (w_db w) @ [?new]\<rparr>"
    "HashToken raw \<notin> rt_TokenHash ` set (refresh_tokens (w_db w))" by simp_all
  with a b h show ?thesis
    by (intro exI [of _ tok] exI [of _ exp] exI [of _ raw] exI [of _ w1] exI [of _ ?new]) simp
qed

lemma handleAuthorizationCode_200:
  assumes run: "run_state (handleAuthorizationCode E i rc client r) w = (resp, w')" and ok: "rs_Status resp = 200"
  shows "\<exists>row w1 w2 d. sql_get co_Code (FormValue r ''code'') (codes (w_db w)) = Some row \<and>
    run_state (DeleteCode E (FormValue r ''code'')) (bump w) = (d, w1) \<and> w2 = bump w1 \<and>
    co_ClientID row = cl_ClientID client \<and> co_RedirectURI row = FormValue r ''redirect_uri'' \<and>
    clock E (w_tick w1) \<le> co_ExpiresAt row \<and> co_CodeChallengeMethod row = ''S256'' \<and>
    pkceS256Challenge (FormValue r ''code_verifier'') = co_CodeChallenge row \<and>
    run_state (issue_for_code E i rc row) w2 = (resp, w')"
proof -
  from run ok obtain row w0 where g: "run_state (GetCode E (FormValue r ''code'')) w = (Inr (Some row), w0)"
    unfolding handleAuthorizationCode_def redeem_row_def Let_def by (auto elim!: run_bindE simp del: run_state_bind split: if_splits sum.splits option.splits)
  then have row: "sql_get co_Code (FormValue r ''code'') (codes (w_db w)) = Some row" and w0: "w0 = bump w"
    by (auto simp: store_run split: if_splits)
  from run ok g w0 show ?thesis
    unfolding handleAuthorizationCode_def redeem_row_def Let_def by (auto elim!: run_bindE simp: row simp del: run_state_bind split: if_splits)
qed

lemma refresh_upstream_db: "run_state (refresh_upstream E cipher rc enc) w = (x, w') \<Longrightarrow> w_db w' = w_db w"
proof -
  have "keeps (\<lambda>w. I (w_db w)) (refresh_upstream E cipher rc enc)" for I
    unfolding refresh_upstream_def Let_def by (intro hoare_rules) auto
  then show "run_state (refresh_upstream E cipher rc enc) w = (x, w') \<Longrightarrow> ?thesis" by (rule keeps_db_eq)
qed

lemma refresh_upstream_status: "run_state (refresh_upstream E cipher rc enc) w = (Inl resp, w') \<Longrightarrow> rs_Status resp = 400"
  unfolding refresh_upstream_def Let_def upstream_failed_def
  by (auto elim!: run_bindE simp del: run_state_bind split: if_splits sum.splits)

lemma issue_for_refresh_200:
  assumes "run_state (issue_for_refresh E i rc rt enc) w = (resp, w')" "rs_Status resp = 200"
  shows "\<exists>tok exp raw w1 t. run_state (MintAccessToken E i rc (rt_Sub rt) (rt_Scopes rt) (rt_ClientID rt)
      (stored_claims (rt_ClaimsJSON rt))) w = (Inr (tok, exp), w1) \<and>
    rs_Body resp = JsonBody (token_json i tok raw (rt_Scopes rt)) \<and>
    HashToken raw \<notin> rt_TokenHash ` set (refresh_tokens (w_db w)) \<and>
    w_db w' = (w_db w)\<lparr>refresh_tokens := refresh_tokens (w_db w) @
      [rt\<lparr>rt_TokenHash := HashToken raw, rt_UpstreamRefreshEnc := enc, rt_ExpiresAt := t\<rparr>]\<rparr>"
proof -
  let ?rt = "\<lambda>h t. rt\<lparr>rt_TokenHash := h, rt_UpstreamRefreshEnc := enc, rt_ExpiresAt := t\<rparr>"
  from assms obtain tok exp w1 raw h t w2 u where
    a: "run_state (MintAccessToken E i rc (rt_Sub rt) (rt_Scopes rt) (rt_ClientID rt)
      (stored_claims (rt_ClaimsJSON rt))) w = (Inr (tok, exp), w1)" and
    m: "run_state (MintRefreshToken E i) w1 = (Inr (raw, h, t), w2)" and
    ins: "run_state (InsertRefreshToken E (?rt h t)) w2 = (Inr u, w')" and
    b: "rs_Body resp = JsonBody (token_json i tok raw (rt_Scopes rt))"
    unfolding issue_for_refresh_def by (auto elim!: run_bindE simp del: run_state_bind split: sum.splits)
  have db: "w_db w2 = w_db w"
    using keeps_db_eq [OF keeps_MintAccessToken a] keeps_db_eq [OF keeps_MintRefreshToken m] by simp
  from MintRefreshToken_ok [OF m] have h: "h = HashToken raw" by simp
  from InsertRefreshToken_ok [OF ins] db h a b show ?thesis
    by (intro exI [of _ tok] exI [of _ exp] exI [of _ raw] exI [of _ w1] exI [of _ "stored_time t"]) simp
qed

lemma handleRefreshToken_200:
  assumes run: "run_state (handleRefreshToken E i cipher rc client r) w = (resp, w')" and ok: "rs_Status resp = 200"
  defines "h \<equiv> HashToken (FormValue r ''refresh_token'')"
  shows "\<exists>rt w1 d w2 enc. FormValue r ''refresh_token'' \<noteq> [] \<and> sql_get rt_TokenHash h (refresh_tokens (w_db w)) = Some rt \<and>
    run_state (DeleteRefreshTokenByHash E h) (bump w) = (d, w1) \<and>
    rt_ClientID rt = cl_ClientID client \<and> clock E (w_tick w1) \<le> rt_ExpiresAt rt \<and>
    run_state (refresh_upstream E cipher rc (rt_UpstreamRefreshEnc rt)) (bump w1) = (Inr enc, w2) \<and>
    run_state (issue_for_refresh E i rc rt enc) w2 = (resp, w')"
proof -
  from run ok obtain rt w0 where g: "run_state (GetRefreshTokenByHash E h) w = (Inr (Some rt), w0)"
    unfolding handleRefreshToken_def Let_def h_def
    by (auto elim!: run_bindE simp del: run_state_bind split: if_splits sum.splits option.splits)
  then have rt: "sql_get rt_TokenHash h (refresh_tokens (w_db w)) = Some rt" and w0: "w0 = bump w"
    by (auto simp: store_run split: if_splits)
  from run ok g w0 rt show ?thesis
    unfolding handleRefreshToken_def Let_def h_def
    by (auto elim!: run_bindE simp del: run_state_bind dest!: refresh_upstream_status split: if_splits sum.splits)
qed

lemma HandleToken_200:
  assumes run: "run_state (HandleToken E i cipher rc r) w = (resp, w')" and ok: "rs_Status resp = 200"
  shows "\<exists>cid sec client d w1. extractClientCredentials r = Inr (cid, sec) \<and>
    sql_get cl_ClientID cid (clients (w_db w)) = Some client \<and> check_secret client sec = None \<and>
    run_state (TouchClient E (cl_ClientID client)) (bump w) = (d, w1) \<and>
    (FormValue r ''grant_type'' = ''authorization_code'' \<and> run_state (handleAuthorizationCode E i rc client r) w1 = (resp, w') \<or>
     FormValue r ''grant_type'' = ''refresh_token'' \<and> run_state (handleRefreshToken E i cipher rc client r) w1 = (resp, w'))"
proof -
  from run ok obtain cid sec where c: "extractClientCredentials r = Inr (cid, sec)"
    unfolding HandleToken_def by (auto split: if_splits sum.splits)
  with run ok obtain client w0 where g: "run_state (GetClient E cid) w = (Inr (Some client), w0)"
    unfolding HandleToken_def by (auto elim!: run_bindE simp del: run_state_bind split: if_splits sum.splits option.splits)
  then have cl: "sql_get cl_ClientID cid (clients (w_db w)) = Some client" and w0: "w0 = bump w"
    by (auto simp: store_run split: if_splits)
  from run ok c g w0 cl show ?thesis
    unfolding HandleToken_def
    by (auto elim!: run_bindE simp del: run_state_bind dest!: check_secret_status split: if_splits option.splits)
qed

lemma TouchClient_result:
  assumes "run_state (TouchClient E k) w = (x, w')"
  shows "\<exists>cs. w_db w' = (w_db w)\<lparr>clients := cs\<rparr> \<and> w_tick w' = w_tick w + 2"
proof (cases "db_fail E (Suc (w_tick w))")
  case True
  with assms show ?thesis by (intro exI [of _ "clients (w_db w)"]) (auto simp: store_run)
next
  case False
  with assms show ?thesis by (auto simp: store_run)
qed

lemma DeleteCode_result:
  assumes "run_state (DeleteCode E k) w = (x, w')"
  shows "w_db w' = (if db_fail E (w_tick w) then w_db w
    else (w_db w)\<lparr>codes := sql_delete (\<lambda>c. co_Code c = k) (codes (w_db w))\<rparr>)" "w_tick w' = Suc (w_tick w)"
  using assms by (auto simp: store_run split: if_splits)

lemma DeleteRefresh_result:
  assumes "run_state (DeleteRefreshTokenByHash E k) w = (x, w')"
  shows "w_db w' = (if db_fail E (w_tick w) then w_db w
    else (w_db w)\<lparr>refresh_tokens := sql_delete (\<lambda>t. rt_TokenHash t = k) (refresh_tokens (w_db w))\<rparr>)" "w_tick w' = Suc (w_tick w)"
  using assms by (auto simp: store_run split: if_splits)

section \<open>Properties\<close>

text \<open>
  Property C3. The code grant issues tokens only to the rightful redeemer. A 200 means: the client
  authenticated (with the secret whose hash is stored, if it has one), the code was in the table, it
  belongs to that client, the redirect URI is the one of the authorization request, the code has
  not expired, and the verifier hashes to the stored S256 challenge. The response carries a token
  minted for the code's subject, scopes and client, and one refresh token is added, which inherits
  the code's subject, resource, scopes, claims and upstream token.
\<close>

theorem code_grant_sound:
  assumes "run_state (HandleToken E i cipher rc r) w = (resp, w')" "rs_Status resp = 200"
    and "FormValue r ''grant_type'' = ''authorization_code''"
  shows "\<exists>cid sec client row wm tok exp wm' raw rt.
    extractClientCredentials r = Inr (cid, sec) \<and> sql_get cl_ClientID cid (clients (w_db w)) = Some client \<and>
    (cl_ClientSecretHash client \<noteq> [] \<longrightarrow> sha256Hex sec = cl_ClientSecretHash client) \<and>
    sql_get co_Code (FormValue r ''code'') (codes (w_db w)) = Some row \<and> co_ClientID row = cid \<and>
    co_RedirectURI row = FormValue r ''redirect_uri'' \<and> clock E (w_tick w + 5) \<le> co_ExpiresAt row \<and>
    co_CodeChallengeMethod row = ''S256'' \<and> pkceS256Challenge (FormValue r ''code_verifier'') = co_CodeChallenge row \<and>
    run_state (MintAccessToken E i rc (co_Sub row) (co_Scopes row) cid (stored_claims (co_ClaimsJSON row))) wm = (Inr (tok, exp), wm') \<and>
    rs_Body resp = JsonBody (token_json i tok raw (co_Scopes row)) \<and>
    refresh_tokens (w_db w') = refresh_tokens (w_db w) @ [rt] \<and> rt_TokenHash rt = HashToken raw \<and>
    rt_ClientID rt = cid \<and> rt_Sub rt = co_Sub row \<and> rt_Resource rt = co_Resource row \<and> rt_Scopes rt = co_Scopes row \<and>
    rt_ClaimsJSON rt = co_ClaimsJSON row \<and> rt_UpstreamRefreshEnc rt = co_UpstreamRefreshEnc row"
proof -
  from HandleToken_200 [OF assms(1,2)] assms(3) obtain cid sec client d w1 where
    c: "extractClientCredentials r = Inr (cid, sec)" "sql_get cl_ClientID cid (clients (w_db w)) = Some client"
      "check_secret client sec = None" and t: "run_state (TouchClient E (cl_ClientID client)) (bump w) = (d, w1)" and
    h: "run_state (handleAuthorizationCode E i rc client r) w1 = (resp, w')" by auto
  from TouchClient_result [OF t] obtain cs where w1: "w_db w1 = (w_db w)\<lparr>clients := cs\<rparr>" "w_tick w1 = w_tick w + 3" by auto
  from handleAuthorizationCode_200 [OF h assms(2)] obtain row w2 d2 where
    row: "sql_get co_Code (FormValue r ''code'') (codes (w_db w1)) = Some row" and
    del: "run_state (DeleteCode E (FormValue r ''code'')) (bump w1) = (d2, w2)" and
    chk: "co_ClientID row = cl_ClientID client" "co_RedirectURI row = FormValue r ''redirect_uri''"
      "clock E (w_tick w2) \<le> co_ExpiresAt row" "co_CodeChallengeMethod row = ''S256''"
      "pkceS256Challenge (FormValue r ''code_verifier'') = co_CodeChallenge row" and
    iss: "run_state (issue_for_code E i rc row) (bump w2) = (resp, w')" by blast
  have w2: "refresh_tokens (w_db w2) = refresh_tokens (w_db w)" "w_tick w2 = w_tick w + 5"
    using DeleteCode_result [OF del] w1 by simp_all
  have cid: "cl_ClientID client = cid" using sql_get_Some [OF c(2)] by simp
  from issue_for_code_200 [OF iss assms(2)] obtain tok exp raw wm' rt where
    "run_state (MintAccessToken E i rc (co_Sub row) (co_Scopes row) (co_ClientID row) (stored_claims (co_ClaimsJSON row))) (bump w2)
       = (Inr (tok, exp), wm')"
    "rs_Body resp = JsonBody (token_json i tok raw (co_Scopes row))"
    "w_db w' = (w_db (bump w2))\<lparr>refresh_tokens := refresh_tokens (w_db (bump w2)) @ [rt]\<rparr>"
    "rt_TokenHash rt = HashToken raw" "rt_Sub rt = co_Sub row" "rt_Resource rt = co_Resource row" "rt_ClientID rt = co_ClientID row"
    "rt_Scopes rt = co_Scopes row" "rt_ClaimsJSON rt = co_ClaimsJSON row" "rt_UpstreamRefreshEnc rt = co_UpstreamRefreshEnc row"
    by blast
  with c row w1 w2 chk cid check_secret_None [of client sec] show ?thesis
    by (intro exI [of _ cid] exI [of _ sec] exI [of _ client] exI [of _ row] exI [of _ "bump w2"] exI [of _ tok] exI [of _ exp]
        exI [of _ wm'] exI [of _ raw] exI [of _ rt]) auto
qed

definition sample_issuer :: Issuer where
  "sample_issuer = \<lparr>is_accessTTL = hour, is_refreshTTL = 720 * hour\<rparr>"

definition sample_client :: Client where
  "sample_client = \<lparr>cl_ClientID = ''c1'', cl_ClientSecretHash = sha256Hex ''pw'', cl_RedirectURIsJSON = ''[]'',
     cl_RegistrationAccessTokenHash = [], cl_Resource = ''wiki'', cl_Scopes = ''openid'', cl_CreatedAt = 0, cl_LastUsedAt = 0\<rparr>"

definition sample_code :: Code where
  "sample_code = \<lparr>co_Code = ''abc'', co_ClientID = ''c1'', co_Resource = ''wiki'', co_Sub = ''alice'', co_ClaimsJSON = [],
     co_UpstreamRefreshEnc = [], co_Scopes = ''openid'', co_RedirectURI = ''https://app/cb'',
     co_CodeChallenge = pkceS256Challenge ''verifier'', co_CodeChallengeMethod = ''S256'', co_ExpiresAt = time_Unix 1700000060\<rparr>"

definition sample_rt :: RefreshToken where
  "sample_rt = \<lparr>rt_TokenHash = HashToken ''r1'', rt_Sub = ''alice'', rt_Resource = ''wiki'', rt_ClientID = ''c1'', rt_ClaimsJSON = [],
     rt_UpstreamRefreshEnc = [], rt_Scopes = ''openid'', rt_ExpiresAt = time_Unix 1800000000\<rparr>"

definition sample_as_world :: "Code list \<Rightarrow> RefreshToken list \<Rightarrow> world" where
  "sample_as_world cs rts = sample_world\<lparr>w_db := empty_db\<lparr>signing_keys := [sample_sk ''key1'' 0 ''active''],
     clients := [sample_client], codes := cs, refresh_tokens := rts\<rparr>\<rparr>"

definition sample_code_req :: request where
  "sample_code_req = form_request [(''grant_type'', ''authorization_code''), (''client_id'', ''c1''), (''client_secret'', ''pw''),
     (''code'', ''abc''), (''redirect_uri'', ''https://app/cb''), (''code_verifier'', ''verifier'')]"

lemma sample_creds [simp]: "extractClientCredentials sample_code_req = Inr (''c1'', ''pw'')"
  by (simp add: extractClientCredentials_def FormValue_def first_value_def sample_code_req_def form_request_def)

lemma sample_form [simp]:
  "FormValue sample_code_req ''grant_type'' = ''authorization_code''" "FormValue sample_code_req ''code'' = ''abc''"
  "FormValue sample_code_req ''redirect_uri'' = ''https://app/cb''" "FormValue sample_code_req ''code_verifier'' = ''verifier''"
  by (simp_all add: FormValue_def first_value_def sample_code_req_def form_request_def)

text \<open>The sample environment, with a fault of the statement that deletes the code if wanted.\<close>

definition delete_fault_env :: "bool \<Rightarrow> env" where
  "delete_fault_env b = sample_env\<lparr>db_fail := \<lambda>n. b \<and> n = 4\<rparr>"

lemma delete_fault_simps [simp]:
  "clock (delete_fault_env b) n = time_Unix (1700000000 + int n)" "db_fail (delete_fault_env b) n \<longleftrightarrow> b \<and> n = 4"
  "rng (delete_fault_env b) n m = Some (replicate m (byte_of (n mod 256)))" "os_env (delete_fault_env b) s = []"
  "delete_fault_env False = sample_env"
  by (simp_all add: delete_fault_env_def) (simp_all add: sample_env_def)

lemma sample_mint:
  "\<exists>tok. run_state (MintAccessToken (delete_fault_env b) i rc sub sc cid ex) w = (Inr (tok, clock (delete_fault_env b) (Suc (w_tick w)) + is_accessTTL i), bump (bump (bump w)))"
  if "w_tick w \<noteq> 4" "signing_keys (w_db w) = [sample_sk ''key1'' 0 ''active'']"
  using that
  by (simp add: MintAccessToken_def ActiveKey_def store_run sample_sk_def decodePrivatePEM_def Let_def)
    (simp add: delete_fault_env_def sample_env_def)

lemma sample_issue_code:
  assumes "4 < w_tick w" "signing_keys (w_db w) = [sample_sk ''key1'' 0 ''active'']" "refresh_tokens (w_db w) = []"
  shows "\<exists>resp w'. run_state (issue_for_code (delete_fault_env b) i rc row) w = (resp, w') \<and> rs_Status resp = 200"
proof -
  have "w_tick w \<noteq> 4" using assms(1) by simp
  from sample_mint [OF this assms(2), of b] obtain tok where
    "run_state (MintAccessToken (delete_fault_env b) i rc (co_Sub row) (co_Scopes row) (co_ClientID row) (stored_claims (co_ClaimsJSON row))) w =
       (Inr (tok, clock (delete_fault_env b) (Suc (w_tick w)) + is_accessTTL i), bump (bump (bump w)))" by blast
  then show ?thesis
    using assms by (simp add: issue_for_code_def MintRefreshToken_def Let_def InsertRefreshToken_def run_db_stmt sql_insert_def)
qed

lemma sample_redeem:
  "\<exists>resp w'. run_state (HandleToken (delete_fault_env b) sample_issuer sample_cipher rc sample_code_req) (sample_as_world [sample_code] []) = (resp, w') \<and>
     rs_Status resp = 200"
proof -
  let ?w = "(sample_as_world [sample_code] [])\<lparr>w_tick := Suc (Suc (Suc (Suc (Suc (Suc 0))))), w_db := (w_db (sample_as_world (if b then [sample_code] else []) []))\<lparr>clients :=
    [sample_client\<lparr>cl_LastUsedAt := time_Unix 1700000001\<rparr>]\<rparr>\<rparr>"
  have "run_state (HandleToken (delete_fault_env b) sample_issuer sample_cipher rc sample_code_req) (sample_as_world [sample_code] []) =
    run_state (issue_for_code (delete_fault_env b) sample_issuer rc sample_code) ?w"
    by (simp add: HandleToken_def store_run sample_as_world_def sample_world_def empty_db_def sample_client_def check_secret_def
        handleAuthorizationCode_def redeem_row_def Let_def sql_get_def sample_code_def sql_update_def sql_delete_def bump_def
        sample_code_req_def form_request_def FormValue_def first_value_def extractClientCredentials_def
        time_Unix_def second_def stored_time_def unix_sec_def)
  moreover have "signing_keys (w_db ?w) = [sample_sk ''key1'' 0 ''active'']" "refresh_tokens (w_db ?w) = []"
    by (simp_all add: sample_as_world_def empty_db_def)
  moreover have "4 < w_tick ?w" by simp
  ultimately show ?thesis using sample_issue_code [of ?w b] by simp
qed

theorem code_grant_sound_witness:
  "\<exists>resp w' row. run_state (HandleToken sample_env sample_issuer sample_cipher sample_rc sample_code_req) (sample_as_world [sample_code] []) = (resp, w') \<and>
     rs_Status resp = 200 \<and> sql_get co_Code ''abc'' (codes (w_db (sample_as_world [sample_code] []))) = Some row \<and>
     pkceS256Challenge ''verifier'' = co_CodeChallenge row \<and> co_RedirectURI row = ''https://app/cb''"
proof -
  from sample_redeem [of False sample_rc, simplified] obtain resp w' where
    r: "run_state (HandleToken sample_env sample_issuer sample_cipher sample_rc sample_code_req) (sample_as_world [sample_code] []) = (resp, w')"
      "rs_Status resp = 200" by blast
  from code_grant_sound [OF r] r show ?thesis by auto
qed

text \<open>What a code grant that answers 200 leaves of the code table.\<close>

lemma code_grant_codes:
  assumes "run_state (HandleToken E i cipher rc r) w = (resp, w')" "rs_Status resp = 200"
    and "FormValue r ''grant_type'' = ''authorization_code''"
  shows "codes (w_db w') = (if db_fail E (w_tick w + 4) then codes (w_db w)
    else sql_delete (\<lambda>c. co_Code c = FormValue r ''code'') (codes (w_db w)))"
proof -
  from HandleToken_200 [OF assms(1,2)] assms(3) obtain client d w1 where
    t: "run_state (TouchClient E (cl_ClientID client)) (bump w) = (d, w1)" and
    h: "run_state (handleAuthorizationCode E i rc client r) w1 = (resp, w')" by auto
  from TouchClient_result [OF t] obtain cs where w1: "w_db w1 = (w_db w)\<lparr>clients := cs\<rparr>" "w_tick w1 = w_tick w + 3" by auto
  from handleAuthorizationCode_200 [OF h assms(2)] obtain row w2 d2 where
    del: "run_state (DeleteCode E (FormValue r ''code'')) (bump w1) = (d2, w2)" and
    iss: "run_state (issue_for_code E i rc row) (bump w2) = (resp, w')" by blast
  from issue_for_code_200 [OF iss assms(2)] have "codes (w_db w') = codes (w_db w2)" by auto
  with DeleteCode_result [OF del] w1 show ?thesis by (simp add: add.commute)
qed

text \<open>
  Property C4. A code is good for one redemption when requests follow each other and the deletion works. After a request
  was answered 200 for a code, with its delete statement not failing, no later request for that code, one that starts
  after the first has ended, is answered 200, by any client at any resource, as long as no new row
  is stored under the code.
\<close>

theorem code_single_use:
  assumes "run_state (HandleToken E i cipher rc r) w = (resp, w1)" "rs_Status resp = 200"
    and "FormValue r ''grant_type'' = ''authorization_code''" "\<not> db_fail E (w_tick w + 4)"
    and "FormValue r ''code'' \<in> co_Code ` set (codes (w_db w2)) \<longrightarrow> FormValue r ''code'' \<in> co_Code ` set (codes (w_db w1))"
    and "run_state (HandleToken E' i' cipher' rc' r') w2 = (resp', w3)"
    and "FormValue r' ''grant_type'' = ''authorization_code''" "FormValue r' ''code'' = FormValue r ''code''"
  shows "rs_Status resp' \<noteq> 200"
proof
  assume ok: "rs_Status resp' = 200"
  from HandleToken_200 [OF assms(6) ok] assms(7) obtain client d w4 where
    t: "run_state (TouchClient E' (cl_ClientID client)) (bump w2) = (d, w4)" and
    h: "run_state (handleAuthorizationCode E' i' rc' client r') w4 = (resp', w3)" by auto
  from TouchClient_result [OF t] have "codes (w_db w4) = codes (w_db w2)" by auto
  with handleAuthorizationCode_200 [OF h ok] assms(8) obtain row where
    "sql_get co_Code (FormValue r ''code'') (codes (w_db w2)) = Some row" by auto
  then have "FormValue r ''code'' \<in> co_Code ` set (codes (w_db w2))" using sql_get_Some by force
  with assms(5) code_grant_codes [OF assms(1-3)] assms(4) show False by auto
qed

theorem code_single_use_witness:
  "\<exists>resp w1 resp' w3. run_state (HandleToken sample_env sample_issuer sample_cipher sample_rc sample_code_req) (sample_as_world [sample_code] []) = (resp, w1) \<and>
     rs_Status resp = 200 \<and>
     run_state (HandleToken sample_env sample_issuer sample_cipher sample_rc sample_code_req) w1 = (resp', w3) \<and> rs_Status resp' \<noteq> 200"
proof -
  from sample_redeem [of False sample_rc, simplified] obtain resp w1 where
    r: "run_state (HandleToken sample_env sample_issuer sample_cipher sample_rc sample_code_req) (sample_as_world [sample_code] []) = (resp, w1)"
      "rs_Status resp = 200" by blast
  obtain resp' w3 where r': "run_state (HandleToken sample_env sample_issuer sample_cipher sample_rc sample_code_req) w1 = (resp', w3)"
    by fastforce
  from code_single_use [OF r, of w1, OF _ _ _ r'] r r' show ?thesis by auto
qed

text \<open>
  The result of the delete statement is ignored. When it fails, the request is answered 200
  all the same and the row stays, so the code can be redeemed again.
\<close>

theorem code_survives_delete_fault:
  assumes "run_state (HandleToken E i cipher rc r) w = (resp, w')" "rs_Status resp = 200"
    and "FormValue r ''grant_type'' = ''authorization_code''" "db_fail E (w_tick w + 4)"
  shows "\<exists>row. sql_get co_Code (FormValue r ''code'') (codes (w_db w')) = Some row \<and>
    sql_get co_Code (FormValue r ''code'') (codes (w_db w)) = Some row"
proof -
  from HandleToken_200 [OF assms(1,2)] assms(3) obtain client d w1 where
    t: "run_state (TouchClient E (cl_ClientID client)) (bump w) = (d, w1)" and
    h: "run_state (handleAuthorizationCode E i rc client r) w1 = (resp, w')" by auto
  from TouchClient_result [OF t] have "codes (w_db w1) = codes (w_db w)" by auto
  with handleAuthorizationCode_200 [OF h assms(2)] code_grant_codes [OF assms(1-3)] assms(4) show ?thesis by auto
qed

theorem code_survives_delete_fault_witness:
  "\<exists>resp w' row. run_state (HandleToken (delete_fault_env True) sample_issuer sample_cipher sample_rc sample_code_req) (sample_as_world [sample_code] []) = (resp, w') \<and>
     rs_Status resp = 200 \<and> sql_get co_Code ''abc'' (codes (w_db w')) = Some row"
proof -
  from sample_redeem [of True sample_rc] obtain resp w' where
    r: "run_state (HandleToken (delete_fault_env True) sample_issuer sample_cipher sample_rc sample_code_req) (sample_as_world [sample_code] []) = (resp, w')"
      "rs_Status resp = 200" by blast
  have "db_fail (delete_fault_env True) (w_tick (sample_as_world [sample_code] []) + 4)"
    by (simp add: sample_as_world_def sample_world_def)
  from code_survives_delete_fault [OF r _ this] r show ?thesis by auto
qed

text \<open>
  Property C9. The refresh grant rotates. A 200 means: the client authenticated, the hash of the presented
  token was in the table, the row belongs to that client and has not expired. The old row is gone
  (unless the delete statement failed) and one row is added under the hash of the new token, equal
  to the old one but for the hash, the expiry and the upstream ciphertext; subject, scopes,
  resource, client and claims cannot change over any number of rotations.
\<close>

theorem refresh_grant_rotates:
  assumes "run_state (HandleToken E i cipher rc r) w = (resp, w')" "rs_Status resp = 200"
    and "FormValue r ''grant_type'' = ''refresh_token''"
  shows "\<exists>cid sec client rt wm tok exp wm' raw enc t.
    extractClientCredentials r = Inr (cid, sec) \<and> sql_get cl_ClientID cid (clients (w_db w)) = Some client \<and>
    (cl_ClientSecretHash client \<noteq> [] \<longrightarrow> sha256Hex sec = cl_ClientSecretHash client) \<and>
    sql_get rt_TokenHash (HashToken (FormValue r ''refresh_token'')) (refresh_tokens (w_db w)) = Some rt \<and>
    rt_ClientID rt = cid \<and> clock E (w_tick w + 5) \<le> rt_ExpiresAt rt \<and>
    run_state (MintAccessToken E i rc (rt_Sub rt) (rt_Scopes rt) cid (stored_claims (rt_ClaimsJSON rt))) wm = (Inr (tok, exp), wm') \<and>
    rs_Body resp = JsonBody (token_json i tok raw (rt_Scopes rt)) \<and> codes (w_db w') = codes (w_db w) \<and>
    refresh_tokens (w_db w') =
      (if db_fail E (w_tick w + 4) then refresh_tokens (w_db w)
       else sql_delete (\<lambda>x. rt_TokenHash x = rt_TokenHash rt) (refresh_tokens (w_db w))) @
      [rt\<lparr>rt_TokenHash := HashToken raw, rt_UpstreamRefreshEnc := enc, rt_ExpiresAt := t\<rparr>]"
proof -
  from HandleToken_200 [OF assms(1,2)] assms(3) obtain cid sec client d w1 where
    c: "extractClientCredentials r = Inr (cid, sec)" "sql_get cl_ClientID cid (clients (w_db w)) = Some client"
      "check_secret client sec = None" and t: "run_state (TouchClient E (cl_ClientID client)) (bump w) = (d, w1)" and
    h: "run_state (handleRefreshToken E i cipher rc client r) w1 = (resp, w')" by auto
  from TouchClient_result [OF t] obtain cs where w1: "w_db w1 = (w_db w)\<lparr>clients := cs\<rparr>" "w_tick w1 = w_tick w + 3" by auto
  let ?h = "HashToken (FormValue r ''refresh_token'')"
  from handleRefreshToken_200 [OF h assms(2)] obtain rt w2 d2 w3 enc where
    rt: "sql_get rt_TokenHash ?h (refresh_tokens (w_db w1)) = Some rt" and
    del: "run_state (DeleteRefreshTokenByHash E ?h) (bump w1) = (d2, w2)" and
    chk: "rt_ClientID rt = cl_ClientID client" "clock E (w_tick w2) \<le> rt_ExpiresAt rt" and
    up: "run_state (refresh_upstream E cipher rc (rt_UpstreamRefreshEnc rt)) (bump w2) = (Inr enc, w3)" and
    iss: "run_state (issue_for_refresh E i rc rt enc) w3 = (resp, w')" by blast
  have w2: "w_tick w2 = w_tick w + 5" using DeleteRefresh_result(2) [OF del] w1(2) by simp
  have w3: "w_db w3 = w_db w2" using refresh_upstream_db [OF up] by simp
  have cid: "cl_ClientID client = cid" using sql_get_Some [OF c(2)] by simp
  have hash: "rt_TokenHash rt = ?h" using sql_get_Some [OF rt] by simp
  have tabs: "refresh_tokens (w_db w3) = (if db_fail E (w_tick w + 4) then refresh_tokens (w_db w)
       else sql_delete (\<lambda>x. rt_TokenHash x = rt_TokenHash rt) (refresh_tokens (w_db w)))" "codes (w_db w3) = codes (w_db w)"
    using DeleteRefresh_result(1) [OF del] w1 w3 hash by (simp_all add: add.commute)
  from issue_for_refresh_200 [OF iss assms(2)] obtain tok exp raw wm' t where
    i: "run_state (MintAccessToken E i rc (rt_Sub rt) (rt_Scopes rt) (rt_ClientID rt) (stored_claims (rt_ClaimsJSON rt))) w3 = (Inr (tok, exp), wm')"
    "rs_Body resp = JsonBody (token_json i tok raw (rt_Scopes rt))"
    "w_db w' = (w_db w3)\<lparr>refresh_tokens := refresh_tokens (w_db w3) @ [rt\<lparr>rt_TokenHash := HashToken raw, rt_UpstreamRefreshEnc := enc, rt_ExpiresAt := t\<rparr>]\<rparr>"
    by blast
  have "codes (w_db w') = codes (w_db w)" using i(3) tabs(2) by simp
  moreover have "refresh_tokens (w_db w') = (if db_fail E (w_tick w + 4) then refresh_tokens (w_db w)
       else sql_delete (\<lambda>x. rt_TokenHash x = rt_TokenHash rt) (refresh_tokens (w_db w))) @
      [rt\<lparr>rt_TokenHash := HashToken raw, rt_UpstreamRefreshEnc := enc, rt_ExpiresAt := t\<rparr>]"
    unfolding i(3) tabs(1) [symmetric] by simp
  moreover have "sql_get rt_TokenHash ?h (refresh_tokens (w_db w)) = Some rt" using rt w1 by simp
  ultimately show ?thesis
    using c chk cid i(1,2) w2 check_secret_None [of client sec] by metis
qed

definition sample_refresh_req :: request where
  "sample_refresh_req = form_request [(''grant_type'', ''refresh_token''), (''client_id'', ''c1''), (''client_secret'', ''pw''),
     (''refresh_token'', ''r1'')]"

lemma sample_refresh_form [simp]:
  "FormValue sample_refresh_req ''grant_type'' = ''refresh_token''" "FormValue sample_refresh_req ''refresh_token'' = ''r1''"
  by (simp_all add: FormValue_def first_value_def sample_refresh_req_def form_request_def)

lemma sample_issue_refresh:
  assumes "signing_keys (w_db w) = [sample_sk ''key1'' 0 ''active'']" "refresh_tokens (w_db w) = []"
  shows "\<exists>resp w'. run_state (issue_for_refresh sample_env i rc rt enc) w = (resp, w') \<and> rs_Status resp = 200"
proof -
  obtain tok x w1 where "run_state (MintAccessToken sample_env i rc (rt_Sub rt) (rt_Scopes rt) (rt_ClientID rt) (stored_claims (rt_ClaimsJSON rt))) w =
       (Inr (tok, x), w1)" "w_db w1 = w_db w"
    using assms(1) by (simp add: MintAccessToken_def ActiveKey_def store_run sample_sk_def decodePrivatePEM_def Let_def)
      (simp add: sample_env_def)
  then show ?thesis
    using assms(2) by (simp add: issue_for_refresh_def MintRefreshToken_def Let_def InsertRefreshToken_def run_db_stmt sql_insert_def)
qed

lemma sample_refresh:
  "\<exists>resp w'. run_state (HandleToken sample_env sample_issuer sample_cipher rc sample_refresh_req) (sample_as_world [] [sample_rt]) = (resp, w') \<and>
     rs_Status resp = 200"
proof -
  let ?w = "(sample_as_world [] [])\<lparr>w_tick := Suc (Suc (Suc (Suc (Suc (Suc 0))))), w_db := (w_db (sample_as_world [] []))\<lparr>clients :=
    [sample_client\<lparr>cl_LastUsedAt := time_Unix 1700000001\<rparr>]\<rparr>\<rparr>"
  have "run_state (HandleToken sample_env sample_issuer sample_cipher rc sample_refresh_req) (sample_as_world [] [sample_rt]) =
    run_state (issue_for_refresh sample_env sample_issuer rc sample_rt []) ?w"
    by (simp add: HandleToken_def store_run sample_as_world_def sample_world_def empty_db_def sample_client_def check_secret_def
        handleRefreshToken_def refresh_upstream_def Let_def sql_get_def sample_rt_def sql_update_def sql_delete_def bump_def
        sample_refresh_req_def form_request_def FormValue_def first_value_def extractClientCredentials_def
        time_Unix_def second_def stored_time_def unix_sec_def)
  moreover have "signing_keys (w_db ?w) = [sample_sk ''key1'' 0 ''active'']" "refresh_tokens (w_db ?w) = []"
    by (simp_all add: sample_as_world_def empty_db_def)
  ultimately show ?thesis using sample_issue_refresh [of ?w] by simp
qed

theorem refresh_grant_rotates_witness:
  "\<exists>resp w' new. run_state (HandleToken sample_env sample_issuer sample_cipher sample_rc sample_refresh_req) (sample_as_world [] [sample_rt]) = (resp, w') \<and>
     rs_Status resp = 200 \<and> refresh_tokens (w_db w') = [new] \<and> rt_Sub new = ''alice'' \<and> rt_ClientID new = ''c1''"
proof -
  from sample_refresh [of sample_rc] obtain resp w' where
    r: "run_state (HandleToken sample_env sample_issuer sample_cipher sample_rc sample_refresh_req) (sample_as_world [] [sample_rt]) = (resp, w')"
      "rs_Status resp = 200" by blast
  from refresh_grant_rotates [OF r] obtain rt raw enc t where
    "sql_get rt_TokenHash (HashToken ''r1'') (refresh_tokens (w_db (sample_as_world [] [sample_rt]))) = Some rt"
    "refresh_tokens (w_db w') = sql_delete (\<lambda>x. rt_TokenHash x = rt_TokenHash rt) (refresh_tokens (w_db (sample_as_world [] [sample_rt]))) @
      [rt\<lparr>rt_TokenHash := HashToken raw, rt_UpstreamRefreshEnc := enc, rt_ExpiresAt := t\<rparr>]" by auto
  with r show ?thesis by (auto simp: sample_as_world_def sql_get_def sql_delete_def sample_rt_def)
qed

section \<open>After the lookup\<close>

text \<open>Operations whose result does not depend on the code table.\<close>

abbreviation with_codes :: "Code list \<Rightarrow> world \<Rightarrow> world" where
  "with_codes cs w \<equiv> w\<lparr>w_db := (w_db w)\<lparr>codes := cs\<rparr>\<rparr>"

definition codes_blind :: "'a eff \<Rightarrow> bool" where
  "codes_blind m \<longleftrightarrow> (\<forall>w cs. \<exists>cs'. run_state m (with_codes cs w) = (fst (run_state m w), with_codes cs' (snd (run_state m w))))"

lemma blind_return: "codes_blind (State_Monad.return a)"
  by (auto simp: codes_blind_def)

lemma blind_bind:
  assumes "codes_blind m" "\<And>a. codes_blind (f a)"
  shows "codes_blind (State_Monad.bind m f)"
  unfolding codes_blind_def
proof (intro allI)
  fix w cs
  from assms(1) obtain cs1 where "run_state m (with_codes cs w) = (fst (run_state m w), with_codes cs1 (snd (run_state m w)))"
    unfolding codes_blind_def by blast
  moreover from assms(2) obtain cs2 where "run_state (f (fst (run_state m w))) (with_codes cs1 (snd (run_state m w))) =
     (fst (run_state (f (fst (run_state m w))) (snd (run_state m w))), with_codes cs2 (snd (run_state (f (fst (run_state m w))) (snd (run_state m w)))))"
    unfolding codes_blind_def by blast
  ultimately show "\<exists>cs'. run_state (State_Monad.bind m f) (with_codes cs w) =
     (fst (run_state (State_Monad.bind m f) w), with_codes cs' (snd (run_state (State_Monad.bind m f) w)))"
    by (auto simp: case_prod_beta)
qed

lemma blind_effects: "codes_blind (time_Now E)" "codes_blind (rand_Read E n)"
  by (auto simp: codes_blind_def)

lemma blind_stmt:
  assumes "\<And>d cs. \<exists>cs'. f (d\<lparr>codes := cs\<rparr>) = (fst (f d), (snd (f d))\<lparr>codes := cs'\<rparr>)"
  shows "codes_blind (db_stmt E x f)"
  unfolding codes_blind_def
proof (intro allI)
  fix w :: world and cs
  obtain cs' where "f ((w_db w)\<lparr>codes := cs\<rparr>) = (fst (f (w_db w)), (snd (f (w_db w)))\<lparr>codes := cs'\<rparr>)" using assms by blast
  then show "\<exists>cs'. run_state (db_stmt E x f) (with_codes cs w) = (fst (run_state (db_stmt E x f) w), with_codes cs' (snd (run_state (db_stmt E x f) w)))"
    by (auto simp: run_db_stmt)
qed

lemma blind_if: "codes_blind m \<Longrightarrow> codes_blind n \<Longrightarrow> codes_blind (if b then m else n)"
  by simp

lemma blind_case_sum: "(\<And>e. codes_blind (g e)) \<Longrightarrow> (\<And>y. codes_blind (f y)) \<Longrightarrow> codes_blind (case x of Inl e \<Rightarrow> g e | Inr y \<Rightarrow> f y)"
  by (cases x) auto

lemma blind_case_prod: "(\<And>a b. codes_blind (f a b)) \<Longrightarrow> codes_blind (case x of (a, b) \<Rightarrow> f a b)"
  by (cases x) auto

lemma blind_case_option: "codes_blind m \<Longrightarrow> (\<And>y. codes_blind (f y)) \<Longrightarrow> codes_blind (case x of None \<Rightarrow> m | Some y \<Rightarrow> f y)"
  by (cases x) auto

lemmas blind_rules = blind_bind blind_return blind_effects blind_if blind_case_sum blind_case_prod blind_case_option

lemma blind_statements:
  "codes_blind (GetActiveSigningKey E)" "codes_blind (DeleteCode E k)" "codes_blind (InsertRefreshToken E t)"
  unfolding GetActiveSigningKey_def DeleteCode_def InsertRefreshToken_def
  subgoal by (rule blind_stmt) auto
  subgoal by (rule blind_stmt) auto
  subgoal
  proof (rule blind_stmt)
    fix d :: db and cs
    let ?f = "\<lambda>d. case sql_insert rt_TokenHash (t\<lparr>rt_ExpiresAt := stored_time (rt_ExpiresAt t)\<rparr>) (refresh_tokens d) of
       None \<Rightarrow> (Inl (GoWrap ''InsertRefreshToken'' constraint_error), d) | Some t \<Rightarrow> (Inr (), d\<lparr>refresh_tokens := t\<rparr>)"
    have "?f (d\<lparr>codes := cs\<rparr>) = (fst (?f d), (snd (?f d))\<lparr>codes := cs\<rparr>)" by (simp split: option.split)
    then show "\<exists>cs'. ?f (d\<lparr>codes := cs\<rparr>) = (fst (?f d), (snd (?f d))\<lparr>codes := cs'\<rparr>)" by blast
  qed
  done

lemma blind_mint: "codes_blind (MintAccessToken E i rc sub sc cid ex)" "codes_blind (MintRefreshToken E i)"
  unfolding MintAccessToken_def ActiveKey_def MintRefreshToken_def Let_def by (intro blind_rules blind_statements)+

lemma blind_redeem_row: "codes_blind (redeem_row E i rc client r row)"
  unfolding redeem_row_def issue_for_code_def by (intro blind_rules blind_statements blind_mint)

text \<open>
  Property C39. Nothing looks at the code table after the lookup: the answer to the rest of a redemption is the
  same whatever the table holds by then. In particular it is not changed by a concurrent request that
  redeems and deletes the same code between the lookup and the deletion, so two requests that both
  read the row before either deletes it are both answered as if the code were theirs alone.
\<close>

theorem redemption_ignores_code_table:
  "fst (run_state (redeem_row E i rc client r row) (with_codes cs w)) = fst (run_state (redeem_row E i rc client r row) w)"
  using blind_redeem_row [of E i rc client r row] unfolding codes_blind_def by (metis fst_conv)

section \<open>The resource of a code\<close>

text \<open>Two worlds that differ only in the resources of stored codes and refresh tokens, and operations that
  answer alike in such worlds.\<close>

definition res_free :: "db \<Rightarrow> db" where
  "res_free d = d\<lparr>codes := map (\<lambda>c. c\<lparr>co_Resource := []\<rparr>) (codes d), refresh_tokens := map (\<lambda>t. t\<lparr>rt_Resource := []\<rparr>) (refresh_tokens d)\<rparr>"

definition res_eq :: "world \<Rightarrow> world \<Rightarrow> bool" where
  "res_eq w w' \<longleftrightarrow> w_tick w = w_tick w' \<and> w_providers w = w_providers w' \<and> res_free (w_db w) = res_free (w_db w')"

definition res_alike :: "'a eff \<Rightarrow> 'a eff \<Rightarrow> bool" where
  "res_alike m m' \<longleftrightarrow> (\<forall>w w'. res_eq w w' \<longrightarrow> fst (run_state m w) = fst (run_state m' w') \<and> res_eq (snd (run_state m w)) (snd (run_state m' w')))"

lemma alike_return: "res_alike (State_Monad.return a) (State_Monad.return a)"
  by (simp add: res_alike_def)

lemma alike_bind:
  assumes "res_alike m m'" "\<And>a. res_alike (f a) (f' a)"
  shows "res_alike (State_Monad.bind m f) (State_Monad.bind m' f')"
  unfolding res_alike_def
proof (intro allI impI)
  fix w w' assume "res_eq w w'"
  with assms(1) have "fst (run_state m w) = fst (run_state m' w')" "res_eq (snd (run_state m w)) (snd (run_state m' w'))"
    unfolding res_alike_def by blast+
  with assms(2) show "fst (run_state (State_Monad.bind m f) w) = fst (run_state (State_Monad.bind m' f') w') \<and>
      res_eq (snd (run_state (State_Monad.bind m f) w)) (snd (run_state (State_Monad.bind m' f') w'))"
    unfolding res_alike_def by (simp add: case_prod_beta)
qed

lemma alike_cases:
  "res_alike m m' \<Longrightarrow> res_alike n n' \<Longrightarrow> res_alike (if b then m else n) (if b then m' else n')"
  "(\<And>e. res_alike (g e) (g' e)) \<Longrightarrow> (\<And>y. res_alike (f y) (f' y)) \<Longrightarrow>
     res_alike (case x of Inl e \<Rightarrow> g e | Inr y \<Rightarrow> f y) (case x of Inl e \<Rightarrow> g' e | Inr y \<Rightarrow> f' y)"
  "(\<And>a b. res_alike (h a b) (h' a b)) \<Longrightarrow> res_alike (case z of (a, b) \<Rightarrow> h a b) (case z of (a, b) \<Rightarrow> h' a b)"
  "res_alike m m' \<Longrightarrow> (\<And>y. res_alike (f y) (f' y)) \<Longrightarrow>
     res_alike (case v of None \<Rightarrow> m | Some y \<Rightarrow> f y) (case v of None \<Rightarrow> m' | Some y \<Rightarrow> f' y)"
  by (auto split: sum.split prod.split option.split)

lemma alike_effects: "res_alike (time_Now E) (time_Now E)" "res_alike (rand_Read E n) (rand_Read E n)" "res_alike (http_Do E q) (http_Do E q)"
  "res_alike (cached_provider x) (cached_provider x)" "res_alike (cache_provider x p) (cache_provider x p)"
  by (auto simp: res_alike_def res_eq_def)

lemma alike_stmt:
  assumes "\<And>d d'. res_free d = res_free d' \<Longrightarrow> fst (f d) = fst (f' d') \<and> res_free (snd (f d)) = res_free (snd (f' d'))"
  shows "res_alike (db_stmt E x f) (db_stmt E x f')"
  using assms by (auto simp: res_alike_def res_eq_def run_db_stmt)

lemmas alike_rules = alike_bind alike_return alike_effects alike_cases

text \<open>Tables that agree up to a change of rows that keeps their keys.\<close>

lemma sql_get_map: "(\<And>x. key (e x) = key x) \<Longrightarrow> sql_get key k (map e t) = map_option e (sql_get key k t)"
  by (induction t) (auto simp: sql_get_def)

lemma sql_delete_map: "(\<And>x. P (e x) = P x) \<Longrightarrow> map e (sql_delete P t) = sql_delete P (map e t)"
  by (induction t) (auto simp: sql_delete_def)

lemma keys_map: "(\<And>x. key (e x) = key x) \<Longrightarrow> key ` set (map e t) = key ` set t"
  by (auto simp: image_image)

lemma res_free_eq:
  "res_free d = res_free d' \<longleftrightarrow> map (\<lambda>c. c\<lparr>co_Resource := []\<rparr>) (codes d) = map (\<lambda>c. c\<lparr>co_Resource := []\<rparr>) (codes d') \<and>
     map (\<lambda>t. t\<lparr>rt_Resource := []\<rparr>) (refresh_tokens d) = map (\<lambda>t. t\<lparr>rt_Resource := []\<rparr>) (refresh_tokens d') \<and>
     signing_keys d = signing_keys d' \<and> clients d = clients d' \<and> auth_sessions d = auth_sessions d' \<and>
     resource_configs d = resource_configs d' \<and> audit_events d = audit_events d' \<and> encryption_keys d = encryption_keys d'"
  by (cases d; cases d') (auto simp: res_free_def)

lemma alike_statements:
  "res_alike (GetClient E k) (GetClient E k)" "res_alike (TouchClient E k) (TouchClient E k)"
  "res_alike (GetActiveSigningKey E) (GetActiveSigningKey E)" "res_alike (DeleteCode E k) (DeleteCode E k)"
  "res_alike (DeleteRefreshTokenByHash E k) (DeleteRefreshTokenByHash E k)"
  unfolding GetClient_def TouchClient_def GetActiveSigningKey_def DeleteCode_def DeleteRefreshTokenByHash_def
  by (intro alike_rules alike_stmt; simp add: res_free_eq sql_delete_map)+

lemma alike_InsertRefreshToken:
  assumes "t\<lparr>rt_Resource := []\<rparr> = t'\<lparr>rt_Resource := []\<rparr>"
  shows "res_alike (InsertRefreshToken E t) (InsertRefreshToken E t')"
  unfolding InsertRefreshToken_def
proof (rule alike_stmt)
  fix d d' assume d: "res_free d = res_free d'"
  let ?e = "\<lambda>t. t\<lparr>rt_Resource := []\<rparr>"
  obtain x where t': "t' = t\<lparr>rt_Resource := x\<rparr>" using assms by (cases t; cases t') auto
  have "map ?e (refresh_tokens d) = map ?e (refresh_tokens d')" using d by (simp add: res_free_eq)
  then have h: "rt_TokenHash ` set (refresh_tokens d') = rt_TokenHash ` set (refresh_tokens d)"
    using keys_map [of rt_TokenHash ?e "refresh_tokens d"] keys_map [of rt_TokenHash ?e "refresh_tokens d'"] by simp
  let ?f = "\<lambda>t d. case sql_insert rt_TokenHash (t\<lparr>rt_ExpiresAt := stored_time (rt_ExpiresAt t)\<rparr>) (refresh_tokens d) of
     None \<Rightarrow> (Inl (GoWrap ''InsertRefreshToken'' constraint_error), d) | Some u \<Rightarrow> (Inr (), d\<lparr>refresh_tokens := u\<rparr>)"
  show "fst (?f t d) = fst (?f t' d') \<and> res_free (snd (?f t d)) = res_free (snd (?f t' d'))"
    unfolding t' sql_insert_def using d by (cases "rt_TokenHash t \<in> rt_TokenHash ` set (refresh_tokens d)") (simp_all add: h res_free_eq)
qed

lemma alike_lookup:
  assumes run: "\<And>w. run_state m w = (if db_fail E (w_tick w) then (Inl err, bump w) else (Inr (get (w_db w)), bump w))"
    and get: "\<And>d d'. res_free d = res_free d' \<Longrightarrow> rel_option R (get d) (get d')"
    and f: "\<And>e. res_alike (f (Inl e)) (f (Inl e))" "res_alike (f (Inr None)) (f (Inr None))"
      "\<And>c c'. R c c' \<Longrightarrow> res_alike (f (Inr (Some c))) (f (Inr (Some c')))"
  shows "res_alike (State_Monad.bind m f) (State_Monad.bind m f)"
  unfolding res_alike_def
proof (intro allI impI)
  fix w w' assume e: "res_eq w w'"
  then have "rel_option R (get (w_db w)) (get (w_db w'))" by (intro get) (simp add: res_eq_def)
  then have "res_alike (f (Inr (get (w_db w)))) (f (Inr (get (w_db w'))))" using f(2,3) by (cases rule: option.rel_cases) auto
  moreover have "res_eq (bump w) (bump w')" "w_tick w' = w_tick w" using e by (simp_all add: res_eq_def)
  ultimately show "fst (run_state (State_Monad.bind m f) w) = fst (run_state (State_Monad.bind m f) w') \<and>
      res_eq (snd (run_state (State_Monad.bind m f) w)) (snd (run_state (State_Monad.bind m f) w'))"
    using f(1) unfolding res_alike_def by (simp add: run)
qed

lemma sql_get_rel:
  assumes "map e t = map e t'" "\<And>x. key (e x) = key x"
  shows "rel_option (\<lambda>x y. e x = e y) (sql_get key k t) (sql_get key k t')"
proof -
  have "map_option e (sql_get key k t) = map_option e (sql_get key k t')"
    using assms sql_get_map [of key e k t] sql_get_map [of key e k t'] by simp
  then show ?thesis by (cases "sql_get key k t"; cases "sql_get key k t'") auto
qed

lemma alike_GetCode:
  assumes "\<And>e. res_alike (f (Inl e)) (f (Inl e))" "res_alike (f (Inr None)) (f (Inr None))"
    and "\<And>c x. res_alike (f (Inr (Some c))) (f (Inr (Some (c\<lparr>co_Resource := x\<rparr>))))"
  shows "res_alike (State_Monad.bind (GetCode E k) f) (State_Monad.bind (GetCode E k) f)"
proof (rule alike_lookup [OF run_GetCode _ assms(1,2)])
  show "rel_option (\<lambda>c c'. c\<lparr>co_Resource := []\<rparr> = c'\<lparr>co_Resource := []\<rparr>) (sql_get co_Code k (codes d)) (sql_get co_Code k (codes d'))"
    if "res_free d = res_free d'" for d d' using that by (intro sql_get_rel) (simp_all add: res_free_eq)
  show "res_alike (f (Inr (Some c))) (f (Inr (Some c')))" if c: "c\<lparr>co_Resource := []\<rparr> = c'\<lparr>co_Resource := []\<rparr>" for c c'
  proof -
    obtain x where "c' = c\<lparr>co_Resource := x\<rparr>" using c by (cases c; cases c') auto
    with assms(3) show ?thesis by simp
  qed
qed

lemma alike_GetRefreshToken:
  assumes "\<And>e. res_alike (f (Inl e)) (f (Inl e))" "res_alike (f (Inr None)) (f (Inr None))"
    and "\<And>t x. res_alike (f (Inr (Some t))) (f (Inr (Some (t\<lparr>rt_Resource := x\<rparr>))))"
  shows "res_alike (State_Monad.bind (GetRefreshTokenByHash E k) f) (State_Monad.bind (GetRefreshTokenByHash E k) f)"
proof (rule alike_lookup [OF run_GetRefreshTokenByHash _ assms(1,2)])
  show "rel_option (\<lambda>t t'. t\<lparr>rt_Resource := []\<rparr> = t'\<lparr>rt_Resource := []\<rparr>)
      (sql_get rt_TokenHash k (refresh_tokens d)) (sql_get rt_TokenHash k (refresh_tokens d'))"
    if "res_free d = res_free d'" for d d' using that by (intro sql_get_rel) (simp_all add: res_free_eq)
  show "res_alike (f (Inr (Some t))) (f (Inr (Some t')))" if t: "t\<lparr>rt_Resource := []\<rparr> = t'\<lparr>rt_Resource := []\<rparr>" for t t'
  proof -
    obtain x where "t' = t\<lparr>rt_Resource := x\<rparr>" using t by (cases t; cases t') auto
    with assms(3) show ?thesis by simp
  qed
qed

lemma alike_mint:
  "res_alike (MintAccessToken E i rc sub sc cid ex) (MintAccessToken E i rc sub sc cid ex)" "res_alike (MintRefreshToken E i) (MintRefreshToken E i)"
  unfolding MintAccessToken_def ActiveKey_def MintRefreshToken_def Let_def by (intro alike_rules alike_statements)+

lemma alike_refresh_upstream: "res_alike (refresh_upstream E cipher rc enc) (refresh_upstream E cipher rc enc)"
  unfolding refresh_upstream_def Discover_def RefreshTokens_def postToken_def Encrypt_def Let_def by (intro alike_rules)

lemma other_resource:
  "co_Sub (c\<lparr>co_Resource := x\<rparr>) = co_Sub c" "co_Scopes (c\<lparr>co_Resource := x\<rparr>) = co_Scopes c" "co_ClientID (c\<lparr>co_Resource := x\<rparr>) = co_ClientID c"
  "co_ClaimsJSON (c\<lparr>co_Resource := x\<rparr>) = co_ClaimsJSON c" "co_UpstreamRefreshEnc (c\<lparr>co_Resource := x\<rparr>) = co_UpstreamRefreshEnc c"
  "co_RedirectURI (c\<lparr>co_Resource := x\<rparr>) = co_RedirectURI c" "co_ExpiresAt (c\<lparr>co_Resource := x\<rparr>) = co_ExpiresAt c"
  "co_CodeChallenge (c\<lparr>co_Resource := x\<rparr>) = co_CodeChallenge c" "co_CodeChallengeMethod (c\<lparr>co_Resource := x\<rparr>) = co_CodeChallengeMethod c"
  "rt_Sub (t\<lparr>rt_Resource := y\<rparr>) = rt_Sub t" "rt_Scopes (t\<lparr>rt_Resource := y\<rparr>) = rt_Scopes t" "rt_ClientID (t\<lparr>rt_Resource := y\<rparr>) = rt_ClientID t"
  "rt_ClaimsJSON (t\<lparr>rt_Resource := y\<rparr>) = rt_ClaimsJSON t" "rt_ExpiresAt (t\<lparr>rt_Resource := y\<rparr>) = rt_ExpiresAt t"
  "rt_UpstreamRefreshEnc (t\<lparr>rt_Resource := y\<rparr>) = rt_UpstreamRefreshEnc t"
  by simp_all

lemma alike_redeem_row: "res_alike (redeem_row E i rc client r c) (redeem_row E i rc client r (c\<lparr>co_Resource := x\<rparr>))"
  unfolding redeem_row_def issue_for_code_def other_resource
  by (intro alike_rules alike_statements alike_mint alike_InsertRefreshToken) simp

lemma alike_issue_for_refresh: "res_alike (issue_for_refresh E i rc t enc) (issue_for_refresh E i rc (t\<lparr>rt_Resource := x\<rparr>) enc)"
  unfolding issue_for_refresh_def other_resource by (intro alike_rules alike_mint alike_InsertRefreshToken) simp

lemma alike_HandleToken: "res_alike (HandleToken E i cipher rc r) (HandleToken E i cipher rc r)"
proof -
  have "res_alike (handleAuthorizationCode E i rc client r) (handleAuthorizationCode E i rc client r)" for client
    unfolding handleAuthorizationCode_def Let_def
    by (intro alike_cases(1) alike_return alike_GetCode) (simp_all add: alike_return alike_redeem_row)
  moreover have "res_alike (handleRefreshToken E i cipher rc client r) (handleRefreshToken E i cipher rc client r)" for client
    unfolding handleRefreshToken_def Let_def
    by (intro alike_cases(1) alike_return alike_GetRefreshToken; unfold sum.case option.case other_resource)
      (intro alike_rules alike_statements alike_refresh_upstream alike_issue_for_refresh)+
  ultimately show ?thesis
    unfolding HandleToken_def by (intro alike_rules alike_statements | assumption)+
qed

text \<open>
  Property C38. The token endpoint never looks at the resource a code or a refresh token was issued for. Whatever
  environment, world and request, the answer is the same when the resources of all stored codes and refresh tokens
  are replaced by others. So a code of one resource is redeemed at every other one under the same
  conditions as at its own, and the access token names the resource that serves the request.
\<close>

theorem code_crosses_resources:
  "fst (run_state (HandleToken E i cipher rc r) (w\<lparr>w_db := (w_db w)\<lparr>codes := map (\<lambda>c. c\<lparr>co_Resource := f c\<rparr>) (codes (w_db w)),
       refresh_tokens := map (\<lambda>t. t\<lparr>rt_Resource := g t\<rparr>) (refresh_tokens (w_db w))\<rparr>\<rparr>)) =
   fst (run_state (HandleToken E i cipher rc r) w)"
proof -
  let ?w = "w\<lparr>w_db := (w_db w)\<lparr>codes := map (\<lambda>c. c\<lparr>co_Resource := f c\<rparr>) (codes (w_db w)),
    refresh_tokens := map (\<lambda>t. t\<lparr>rt_Resource := g t\<rparr>) (refresh_tokens (w_db w))\<rparr>\<rparr>"
  have "res_eq ?w w" by (simp add: res_eq_def res_free_eq comp_def)
  with alike_HandleToken [of E i cipher rc r] show ?thesis unfolding res_alike_def by blast
qed

end
