(* ===== verification/As_Callback.thy ===== *)
theory As_Callback
  imports As_Authorize
begin

text \<open>
  \<^verbatim>\<open>sidecar/internal/as/callback.go\<close>: the provider's redirect back. The property says that a local code
  is issued only for a live session, that it inherits the session's PKCE challenge, redirect URI
  and client, and that only allow-listed claims are kept.
\<close>

section \<open>Definitions\<close>

definition allowed_claims :: "string list" where
  "allowed_claims = [''email'', ''email_verified'', ''name'', ''given_name'', ''family_name'', ''picture'', ''locale'', ''hd'',
     ''preferred_username'']"

text \<open>The redirect that passes an upstream error on to the client.\<close>

definition error_redirect :: "request \<Rightarrow> AuthSession \<Rightarrow> url \<Rightarrow> url" where
  "error_redirect r sess u =
     (let u1 = url_Set ''error'' (QueryGet r ''error'') u;
          u2 = (if QueryGet r ''error_description'' \<noteq> [] then url_Set ''error_description'' (QueryGet r ''error_description'') u1 else u1)
      in if se_OriginalState sess \<noteq> [] then url_Set ''state'' (se_OriginalState sess) u2 else u2)"

definition callback_error :: "env \<Rightarrow> request \<Rightarrow> response eff" where
  "callback_error E r =
     (let state = QueryGet r ''state'';
          fallback = State_Monad.return (writeError 400 (QueryGet r ''error'') (QueryGet r ''error_description'')) in
      if state \<noteq> [] then do {
        g \<leftarrow> GetAuthSession E state;
        case g of
          Inr (Some sess) \<Rightarrow> do {
            _ \<leftarrow> DeleteAuthSession E state;
            case url_Parse E (se_RedirectURI sess) of
              Inr u \<Rightarrow> State_Monad.return (http_Redirect (error_redirect r sess u))
            | Inl e \<Rightarrow> fallback }
        | _ \<Rightarrow> fallback }
      else fallback)"

text \<open>The user's claims from the ID token or the userinfo endpoint; a failure gives none.\<close>

definition fetch_claims :: "env \<Rightarrow> Provider \<Rightarrow> TokenResponse \<Rightarrow> jmap option eff" where
  "fetch_claims E provider tr =
     (if tr_IDToken tr \<noteq> [] then
        State_Monad.return (case DecodeIDToken (tr_IDToken tr) of Inl e \<Rightarrow> Some [] | Inr m \<Rightarrow> m)
      else do {
        u \<leftarrow> oidc_Userinfo E provider (tr_AccessToken tr);
        State_Monad.return (case u of Inl e \<Rightarrow> Some [] | Inr m \<Rightarrow> m) })"

definition claims_sub :: "jmap option \<Rightarrow> string" where
  "claims_sub c = (let s = (case c of None \<Rightarrow> [] | Some m \<Rightarrow> jget_str m ''sub'') in if s = [] then ''unknown'' else s)"

definition filter_claims :: "jmap \<Rightarrow> jmap" where
  "filter_claims m = filter (\<lambda>(k, v). k \<in> set allowed_claims) m"

definition claims_json :: "jmap option \<Rightarrow> string" where
  "claims_json c = (case c of None \<Rightarrow> ''null'' | Some m \<Rightarrow> json_marshal (JObj (filter_claims m)))"

definition encrypt_refresh :: "env \<Rightarrow> Cipher \<Rightarrow> string \<Rightarrow> bytes result eff" where
  "encrypt_refresh E cipher rt = (if rt \<noteq> [] then Encrypt E cipher rt else State_Monad.return (Inr []))"

text \<open>The redirect that delivers the local code.\<close>

definition code_redirect :: "AuthSession \<Rightarrow> string \<Rightarrow> url \<Rightarrow> url" where
  "code_redirect sess localCode u =
     (let u1 = url_Set ''code'' localCode u in
      if se_OriginalState sess \<noteq> [] then url_Set ''state'' (se_OriginalState sess) u1 else u1)"

definition issue_code :: "env \<Rightarrow> Cipher \<Rightarrow> AuthSession \<Rightarrow> string \<Rightarrow> TokenResponse \<Rightarrow> jmap option \<Rightarrow> response eff" where
  "issue_code E cipher sess state tr userClaims = do {
     enc \<leftarrow> encrypt_refresh E cipher (tr_RefreshToken tr);
     case enc of
       Inl e \<Rightarrow> State_Monad.return (writeError 500 ''server_error'' ''failed to encrypt refresh token'')
     | Inr upstreamRefreshEnc \<Rightarrow> do {
         cb \<leftarrow> rand_Read E 32;
         case cb of
           Inl e \<Rightarrow> State_Monad.return (writeError 500 ''server_error'' ''failed to generate local code'')
         | Inr codeBytes \<Rightarrow> do {
             now \<leftarrow> time_Now E;
             let localCode = b64_EncodeToString RawURLEncoding codeBytes in do {
             ins \<leftarrow> InsertCode E
               \<lparr>co_Code = localCode, co_ClientID = se_ClientID sess, co_Resource = se_Resource sess, co_Sub = claims_sub userClaims,
                co_ClaimsJSON = claims_json userClaims, co_UpstreamRefreshEnc = upstreamRefreshEnc, co_Scopes = se_Scopes sess,
                co_RedirectURI = se_RedirectURI sess, co_CodeChallenge = se_CodeChallenge sess,
                co_CodeChallengeMethod = se_CodeChallengeMethod sess, co_ExpiresAt = now + 60 * second\<rparr>;
             case ins of
               Inl e \<Rightarrow> State_Monad.return (writeError 500 ''server_error'' ''failed to save code'')
             | Inr _ \<Rightarrow> do {
                 _ \<leftarrow> DeleteAuthSession E state;
                 case url_Parse E (se_RedirectURI sess) of
                   Inl e \<Rightarrow> State_Monad.return (writeError 500 ''server_error'' ''invalid redirect_uri in session'')
                 | Inr u \<Rightarrow> State_Monad.return (http_Redirect (code_redirect sess localCode u)) } } } } }"

definition HandleCallback :: "env \<Rightarrow> Cipher \<Rightarrow> ResourceConfig \<Rightarrow> request \<Rightarrow> response eff" where
  "HandleCallback E cipher rc r =
     (let code = QueryGet r ''code''; state = QueryGet r ''state'' in
      if QueryGet r ''error'' \<noteq> [] then callback_error E r
      else if code = [] \<or> state = [] then State_Monad.return (writeError 400 ''invalid_request'' ''missing code or state'')
      else do {
        g \<leftarrow> GetAuthSession E state;
        case g of
          Inl e \<Rightarrow> State_Monad.return (writeError 500 ''server_error'' ''failed to look up session'')
        | Inr None \<Rightarrow> State_Monad.return (writeError 400 ''invalid_request'' ''unknown or expired state'')
        | Inr (Some sess) \<Rightarrow> do {
            now \<leftarrow> time_Now E;
            if now > se_ExpiresAt sess then do {
              _ \<leftarrow> DeleteAuthSession E state;
              State_Monad.return (writeError 400 ''invalid_request'' ''session expired'') }
            else do {
              p \<leftarrow> Discover E (se_ProviderIssuer sess);
              case p of
                Inl e \<Rightarrow> State_Monad.return (writeError 502 ''server_error'' (''upstream discovery failed: '' @ err_text e))
              | Inr provider \<Rightarrow> do {
                  t \<leftarrow> ExchangeCode E provider (rc_ClientID rc) (rc_ClientSecret rc) code (se_PublicBase sess @ ''/oauth/callback'')
                    (se_UpstreamPKCEVerifier sess);
                  case t of
                    Inl e \<Rightarrow> State_Monad.return (writeError 502 ''server_error'' (''upstream token exchange failed: '' @ err_text e))
                  | Inr tr \<Rightarrow> do {
                      userClaims \<leftarrow> fetch_claims E provider tr;
                      issue_code E cipher sess state tr userClaims } } } } })"

section \<open>Lemmas\<close>

lemma keeps_fetch_claims [hoare_rules]: "keeps (\<lambda>w. I (w_db w)) (fetch_claims E p tr)"
  unfolding fetch_claims_def by (intro hoare_rules) auto

lemma keeps_encrypt_refresh [hoare_rules]: "keeps (\<lambda>w. I (w_db w)) (encrypt_refresh E c t)"
  unfolding encrypt_refresh_def by (intro hoare_rules) auto

lemma ticks_fetch_claims [hoare_rules]: "keeps (ticks n) (fetch_claims E p tr)"
  unfolding fetch_claims_def by (intro hoare_rules) auto

lemma ticks_encrypt_refresh [hoare_rules]: "keeps (ticks n) (encrypt_refresh E c t)"
  unfolding encrypt_refresh_def by (intro hoare_rules) auto

lemma DeleteAuthSession_result:
  assumes "run_state (DeleteAuthSession E k) w = (x, w')"
  shows "w_db w' = (if db_fail E (w_tick w) then w_db w
    else (w_db w)\<lparr>auth_sessions := sql_delete (\<lambda>s. se_State s = k) (auth_sessions (w_db w))\<rparr>)" "w_tick w' = Suc (w_tick w)"
  using assms by (auto simp: store_run split: if_splits)

lemma set_filter_claims: "(k, v) \<in> set (filter_claims m) \<Longrightarrow> k \<in> set allowed_claims \<and> (k, v) \<in> set m"
  by (auto simp: filter_claims_def)

text \<open>Every path that stores a code ends with the same row; a 302 of this part stores one.\<close>

lemma issue_code_302:
  assumes "run_state (issue_code E cipher sess state tr uc) w = (resp, w')" "rs_Status resp = 302"
  shows "\<exists>row n u0 d. url_Parse E (se_RedirectURI sess) = Inr u0 \<and>
    rs_Body resp = RedirectBody (code_redirect sess (co_Code row) u0) \<and> w_tick w \<le> n \<and> co_ExpiresAt row = stored_time (clock E n + 60 * second) \<and>
    co_Code row \<notin> co_Code ` set (codes (w_db w)) \<and>
    w_db w' = (if d then w_db w else (w_db w)\<lparr>auth_sessions := sql_delete (\<lambda>s. se_State s = state) (auth_sessions (w_db w))\<rparr>)
       \<lparr>codes := codes (w_db w) @ [row]\<rparr> \<and> (d \<longrightarrow> \<not> no_faults E) \<and>
    co_ClientID row = se_ClientID sess \<and> co_Resource row = se_Resource sess \<and> co_Sub row = claims_sub uc \<and>
    co_ClaimsJSON row = claims_json uc \<and> co_Scopes row = se_Scopes sess \<and> co_RedirectURI row = se_RedirectURI sess \<and>
    co_CodeChallenge row = se_CodeChallenge sess \<and> co_CodeChallengeMethod row = se_CodeChallengeMethod sess"
proof -
  let ?row = "\<lambda>c e t. \<lparr>co_Code = c, co_ClientID = se_ClientID sess, co_Resource = se_Resource sess, co_Sub = claims_sub uc,
                co_ClaimsJSON = claims_json uc, co_UpstreamRefreshEnc = e, co_Scopes = se_Scopes sess,
                co_RedirectURI = se_RedirectURI sess, co_CodeChallenge = se_CodeChallenge sess,
                co_CodeChallengeMethod = se_CodeChallengeMethod sess, co_ExpiresAt = t\<rparr>"
  from assms obtain enc w1 cb y w2 x u0 where
    e: "run_state (encrypt_refresh E cipher (tr_RefreshToken tr)) w = (Inr enc, w1)" and
    cb: "rng E (w_tick w1) 32 = Some cb" and
    ins: "run_state (InsertCode E (?row (b64_EncodeToString RawURLEncoding cb) enc (clock E (Suc (w_tick w1)) + 60 * second)))
      (bump (bump w1)) = (Inr y, w2)" and
    del: "run_state (DeleteAuthSession E state) w2 = (x, w')" and u0: "url_Parse E (se_RedirectURI sess) = Inr u0" and
    b: "resp = http_Redirect (code_redirect sess (b64_EncodeToString RawURLEncoding cb) u0)"
    unfolding issue_code_def Let_def
    by (auto elim!: run_elim simp del: run_state_bind split: sum.splits option.splits)
  define c where "c = b64_EncodeToString RawURLEncoding cb"
  define n where "n = Suc (w_tick w1)"
  note ins = ins [folded c_def n_def] and b = b [folded c_def]
  have db: "w_db (bump (bump w1)) = w_db w" using keeps_db_eq [OF keeps_encrypt_refresh e] by simp
  have tick: "w_tick w \<le> n"
    using e by (auto simp: n_def encrypt_refresh_def Encrypt_def split: if_splits option.splits sum.splits)
  let ?new = "?row c enc (stored_time (clock E n + 60 * second))"
  from InsertCode_ok [OF ins] db have w2: "w_db w2 = (w_db w)\<lparr>codes := codes (w_db w) @ [?new]\<rparr>"
    and fresh: "c \<notin> co_Code ` set (codes (w_db w))" by simp_all
  have w': "w_db w' = (if db_fail E (w_tick w2) then w_db w else (w_db w)\<lparr>auth_sessions := sql_delete (\<lambda>s. se_State s = state) (auth_sessions (w_db w))\<rparr>)
       \<lparr>codes := codes (w_db w) @ [?new]\<rparr>"
    using DeleteAuthSession_result(1) [OF del] w2 by simp
  show ?thesis
    by (intro exI [of _ ?new] exI [of _ n] exI [of _ u0] exI [of _ "db_fail E (w_tick w2)"])
      (auto simp: b u0 tick fresh w' no_faults_def)
qed

lemma HandleCallback_302:
  assumes "run_state (HandleCallback E cipher rc r) w = (resp, w')" "rs_Status resp = 302" "QueryGet r ''error'' = []"
  shows "\<exists>sess p tr uc w1 w2 w3. QueryGet r ''state'' \<noteq> [] \<and> QueryGet r ''code'' \<noteq> [] \<and>
    sql_get se_State (QueryGet r ''state'') (auth_sessions (w_db w)) = Some sess \<and>
    clock E (Suc (w_tick w)) \<le> se_ExpiresAt sess \<and>
    run_state (Discover E (se_ProviderIssuer sess)) (bump (bump w)) = (Inr p, w1) \<and>
    run_state (ExchangeCode E p (rc_ClientID rc) (rc_ClientSecret rc) (QueryGet r ''code'') (se_PublicBase sess @ ''/oauth/callback'')
      (se_UpstreamPKCEVerifier sess)) w1 = (Inr tr, w2) \<and>
    run_state (fetch_claims E p tr) w2 = (uc, w3) \<and> run_state (issue_code E cipher sess (QueryGet r ''state'') tr uc) w3 = (resp, w')"
proof -
  from assms obtain sess w0 where g: "run_state (GetAuthSession E (QueryGet r ''state'')) w = (Inr (Some sess), w0)"
    unfolding HandleCallback_def Let_def
    by (auto elim!: run_elim simp del: run_state_bind split: if_splits sum.splits option.splits)
  then have s: "sql_get se_State (QueryGet r ''state'') (auth_sessions (w_db w)) = Some sess" and w0: "w0 = bump w"
    by (auto simp: store_run split: if_splits)
  from assms g w0 s show ?thesis
    unfolding HandleCallback_def Let_def
    by (auto elim!: run_elim simp del: run_state_bind split: if_splits sum.splits)
qed

text \<open>Every redirect of the callback, with a code or with an error, goes to the URI of a stored session: only
  the query differs.\<close>

lemma redirect_target:
  "\<exists>q. code_redirect sess c u = u\<lparr>u_Query := q\<rparr>" "\<exists>q. error_redirect r sess u = u\<lparr>u_Query := q\<rparr>"
  by (auto simp: code_redirect_def error_redirect_def Let_def url_Set_def)

lemma callback_redirects:
  assumes "run_state (HandleCallback E cipher rc r) w = (resp, w')" "rs_Status resp = 302"
  shows "\<exists>sess u q. sess \<in> set (auth_sessions (w_db w)) \<and> url_Parse E (se_RedirectURI sess) = Inr u \<and> rs_Body resp = RedirectBody (u\<lparr>u_Query := q\<rparr>)"
proof (cases "QueryGet r ''error'' = []")
  case True
  from HandleCallback_302 [OF assms True] obtain sess tr uc w3 where
    s: "sql_get se_State (QueryGet r ''state'') (auth_sessions (w_db w)) = Some sess" and
    i: "run_state (issue_code E cipher sess (QueryGet r ''state'') tr uc) w3 = (resp, w')" by blast
  from issue_code_302 [OF i assms(2)] obtain u c where
    u: "url_Parse E (se_RedirectURI sess) = Inr u" "rs_Body resp = RedirectBody (code_redirect sess c u)" by blast
  moreover obtain q where "code_redirect sess c u = u\<lparr>u_Query := q\<rparr>" using redirect_target(1) by blast
  ultimately show ?thesis using sql_get_Some [OF s] by auto
next
  case False
  with assms(1) have "run_state (callback_error E r) w = (resp, w')" by (simp add: HandleCallback_def)
  with assms(2) obtain sess u w0 where g: "run_state (GetAuthSession E (QueryGet r ''state'')) w = (Inr (Some sess), w0)"
    and u: "url_Parse E (se_RedirectURI sess) = Inr u" and b: "rs_Body resp = RedirectBody (error_redirect r sess u)"
    unfolding callback_error_def Let_def
    by (auto elim!: run_elim simp del: run_state_bind split: if_splits sum.splits option.splits)
  from g have "sql_get se_State (QueryGet r ''state'') (auth_sessions (w_db w)) = Some sess" by (auto simp: store_run split: if_splits)
  then have "sess \<in> set (auth_sessions (w_db w))" using sql_get_Some by metis
  moreover obtain q where "error_redirect r sess u = u\<lparr>u_Query := q\<rparr>" using redirect_target(2) by blast
  ultimately show ?thesis using u b by auto
qed

section \<open>Properties\<close>

text \<open>
  Property C11. A local code is delivered only for a live session. If the callback redirects with a code, the
  state names a stored session that has not expired; the code row takes client, resource, scopes,
  redirect URI, challenge and challenge method from that session and expires sixty seconds later;
  the redirect goes to the session's redirect URI with the code and the client's own state; every
  stored claim is on the allowlist; and, without database faults, the session is gone.
\<close>

theorem callback_code_sound:
  assumes "run_state (HandleCallback E cipher rc r) w = (resp, w')" "rs_Status resp = 302" "QueryGet r ''error'' = []"
  shows "\<exists>sess row u0 uc n.
    sql_get se_State (QueryGet r ''state'') (auth_sessions (w_db w)) = Some sess \<and> clock E (Suc (w_tick w)) \<le> se_ExpiresAt sess \<and>
    codes (w_db w') = codes (w_db w) @ [row] \<and> co_Code row \<notin> co_Code ` set (codes (w_db w)) \<and>
    co_ClientID row = se_ClientID sess \<and> co_Resource row = se_Resource sess \<and> co_Scopes row = se_Scopes sess \<and>
    co_RedirectURI row = se_RedirectURI sess \<and> co_CodeChallenge row = se_CodeChallenge sess \<and>
    co_CodeChallengeMethod row = se_CodeChallengeMethod sess \<and> w_tick w \<le> n \<and> co_ExpiresAt row = stored_time (clock E n + 60 * second) \<and>
    url_Parse E (se_RedirectURI sess) = Inr u0 \<and> rs_Body resp = RedirectBody (code_redirect sess (co_Code row) u0) \<and>
    co_Sub row = claims_sub uc \<and> co_ClaimsJSON row = claims_json uc \<and>
    (\<forall>m k v. uc = Some m \<and> (k, v) \<in> set (filter_claims m) \<longrightarrow> k \<in> set allowed_claims) \<and>
    (no_faults E \<longrightarrow> QueryGet r ''state'' \<notin> se_State ` set (auth_sessions (w_db w')))"
proof -
  from HandleCallback_302 [OF assms] obtain sess p tr uc w1 w2 w3 where
    s: "sql_get se_State (QueryGet r ''state'') (auth_sessions (w_db w)) = Some sess" "clock E (Suc (w_tick w)) \<le> se_ExpiresAt sess" and
    d: "run_state (Discover E (se_ProviderIssuer sess)) (bump (bump w)) = (Inr p, w1)" and
    x: "run_state (ExchangeCode E p (rc_ClientID rc) (rc_ClientSecret rc) (QueryGet r ''code'') (se_PublicBase sess @ ''/oauth/callback'')
      (se_UpstreamPKCEVerifier sess)) w1 = (Inr tr, w2)" and
    f: "run_state (fetch_claims E p tr) w2 = (uc, w3)" and
    i: "run_state (issue_code E cipher sess (QueryGet r ''state'') tr uc) w3 = (resp, w')" by blast
  have db: "w_db w3 = w_db w"
    using upstream_db(1) [OF d] upstream_db(2) [OF x] keeps_db_eq [OF keeps_fetch_claims f] by simp
  have ticks: "w_tick (bump (bump w)) \<le> w_tick w1" "w_tick w1 \<le> w_tick w2" "w_tick w2 \<le> w_tick w3"
    by (rule ticks_mono [OF _ d] ticks_mono [OF _ x] ticks_mono [OF _ f], rule hoare_rules)+
  from issue_code_302 [OF i assms(2)] obtain row n u0 df where
    r: "url_Parse E (se_RedirectURI sess) = Inr u0" "rs_Body resp = RedirectBody (code_redirect sess (co_Code row) u0)"
    "w_tick w3 \<le> n" "co_ExpiresAt row = stored_time (clock E n + 60 * second)" "co_Code row \<notin> co_Code ` set (codes (w_db w3))"
    "w_db w' = (if df then w_db w3 else (w_db w3)\<lparr>auth_sessions := sql_delete (\<lambda>s. se_State s = QueryGet r ''state'') (auth_sessions (w_db w3))\<rparr>)
       \<lparr>codes := codes (w_db w3) @ [row]\<rparr>" "df \<longrightarrow> \<not> no_faults E"
    "co_ClientID row = se_ClientID sess" "co_Resource row = se_Resource sess" "co_Sub row = claims_sub uc"
    "co_ClaimsJSON row = claims_json uc" "co_Scopes row = se_Scopes sess" "co_RedirectURI row = se_RedirectURI sess"
    "co_CodeChallenge row = se_CodeChallenge sess" "co_CodeChallengeMethod row = se_CodeChallengeMethod sess" by blast
  have "codes (w_db w') = codes (w_db w) @ [row]" using r(6) db by simp
  moreover have "QueryGet r ''state'' \<notin> se_State ` set (auth_sessions (w_db w'))" if "no_faults E"
    using r(6,7) that by auto
  moreover have "w_tick w \<le> n" using ticks r(3) by simp
  ultimately show ?thesis
    using s r db
    by (intro exI [of _ sess] exI [of _ row] exI [of _ u0] exI [of _ uc] exI [of _ n]) (auto dest: set_filter_claims)
qed

definition sample_token_body :: bytes where
  "sample_token_body = json_marshal (JObj [(''access_token'', JStr ''up'')])"

lemma sample_exchange_parse:
  "parse_token_response sample_token_body =
     Inr \<lparr>tr_AccessToken = ''up'', tr_RefreshToken = [], tr_IDToken = [], tr_TokenType = [], tr_Scope = []\<rparr>"
  by code_simp

lemma sample_token_length: "length sample_token_body = 21"
  by code_simp

definition sample_up_env :: env where
  "sample_up_env = sample_url_env\<lparr>http_do := \<lambda>i q. Inr \<lparr>hp_Status = 200, hp_Body = Inr sample_token_body\<rparr>\<rparr>"

lemma sample_up_simps [simp]:
  "clock sample_up_env n = time_Unix (1700000000 + int n)" "db_fail sample_up_env n = False"
  "rng sample_up_env n m = Some (replicate m (byte_of (n mod 256)))" "url_Parse sample_up_env x = Inr sample_uri"
  "http_do sample_up_env n q = Inr \<lparr>hp_Status = 200, hp_Body = Inr sample_token_body\<rparr>"
  by (simp_all add: sample_up_env_def)

definition sample_session :: AuthSession where
  "sample_session = \<lparr>se_State = ''st1'', se_CodeChallenge = ''xyz'', se_CodeChallengeMethod = ''S256'', se_RedirectURI = ''https://app/cb'',
     se_ClientID = ''c1'', se_Resource = ''wiki'', se_Scopes = ''openid'', se_ProviderIssuer = ''https://idp'', se_PublicBase = ''https://h'',
     se_UpstreamState = ''st1'', se_UpstreamPKCEVerifier = ''v'', se_OriginalState = ''st'', se_CreatedAt = time_Unix 1700000000,
     se_ExpiresAt = time_Unix 1700000600\<rparr>"

definition sample_session_world :: world where
  "sample_session_world = sample_client_world\<lparr>w_db := (w_db sample_client_world)\<lparr>auth_sessions := [sample_session]\<rparr>\<rparr>"

definition sample_callback_req :: request where
  "sample_callback_req = sample_authorize_req\<lparr>rq_Query := [(''code'', ''upcode''), (''state'', ''st1'')]\<rparr>"

theorem callback_code_sound_witness:
  "\<exists>resp w' row. run_state (HandleCallback sample_up_env sample_cipher sample_rc sample_callback_req) sample_session_world = (resp, w') \<and>
     rs_Status resp = 302 \<and> codes (w_db w') = [row] \<and> co_CodeChallenge row = ''xyz'' \<and> co_ClientID row = ''c1''"
proof -
  have lim: "limit_read body_limit sample_token_body = sample_token_body"
    by (simp add: limit_read_def sample_token_length body_limit_def)
  have q: "QueryGet sample_callback_req ''error'' = []" "QueryGet sample_callback_req ''state'' = ''st1''"
    "QueryGet sample_callback_req ''code'' = ''upcode''"
    by (simp_all add: QueryGet_def first_value_def sample_callback_req_def)
  have "rs_Status (fst (run_state (HandleCallback sample_up_env sample_cipher sample_rc sample_callback_req) sample_session_world)) = 302"
    by (simp add: HandleCallback_def q store_run sample_session_world_def sample_session_def sql_get_def sample_client_world_def sample_world_def
        Discover_def sample_provider_def ExchangeCode_def postToken_def lim sample_exchange_parse fetch_claims_def oidc_Userinfo_def
        issue_code_def encrypt_refresh_def InsertCode_def run_db_stmt sql_insert_def Let_def empty_db_def time_Unix_def second_def)
  then obtain resp w' where r: "run_state (HandleCallback sample_up_env sample_cipher sample_rc sample_callback_req) sample_session_world = (resp, w')"
    "rs_Status resp = 302" by (metis prod.collapse)
  have e: "codes (w_db sample_session_world) = []" "sql_get se_State ''st1'' (auth_sessions (w_db sample_session_world)) = Some sample_session"
    by (simp_all add: sample_session_world_def sample_client_world_def empty_db_def sql_get_def sample_session_def)
  from callback_code_sound [OF r q(1)] r e q show ?thesis by (auto simp: sample_session_def)
qed

end
