(* ===== verification/As_Inspect.thy ===== *)
theory As_Inspect
  imports As_Common
begin

text \<open>
  The endpoints that read or end tokens: \<^verbatim>\<open>revoke.go\<close>, \<^verbatim>\<open>introspect.go\<close>, \<^verbatim>\<open>userinfo.go\<close>, and the metadata of
  \<^verbatim>\<open>wellknown.go\<close> and \<^verbatim>\<open>jwks.go\<close>. Both local JWT verifiers are instances of \<open>jwt_verifier\<close>.
\<close>

section \<open>Revocation\<close>

definition HandleRevoke :: "env \<Rightarrow> request \<Rightarrow> response eff" where
  "HandleRevoke E r =
     (if rq_Method r \<noteq> ''POST'' then State_Monad.return (writeError 405 ''invalid_request'' ''method not allowed'')
      else if rq_FormError r then State_Monad.return (writeError 400 ''invalid_request'' ''cannot parse form'')
      else case extractClientCredentials r of
        Inl e \<Rightarrow> State_Monad.return (writeError 401 ''invalid_client'' (err_text e))
      | Inr (clientID, clientSecret) \<Rightarrow> do {
          g \<leftarrow> GetClient E clientID;
          case g of
            Inl e \<Rightarrow> State_Monad.return (writeError 500 ''server_error'' ''failed to look up client'')
          | Inr None \<Rightarrow> State_Monad.return (writeError 401 ''invalid_client'' ''unknown client'')
          | Inr (Some client) \<Rightarrow>
              (case check_secret client clientSecret of
                 Some resp \<Rightarrow> State_Monad.return resp
               | None \<Rightarrow>
                   let token = FormValue r ''token'' in
                   if token = [] then State_Monad.return (writeError 400 ''invalid_request'' ''missing token'')
                   else if FormValue r ''token_type_hint'' = ''access_token'' then State_Monad.return (WriteHeader 200)
                   else do {
                     l \<leftarrow> GetRefreshTokenByHash E (HashToken token);
                     case l of
                       Inl e \<Rightarrow> State_Monad.return (WriteHeader 200)
                     | Inr None \<Rightarrow> State_Monad.return (WriteHeader 200)
                     | Inr (Some rt) \<Rightarrow>
                         if rt_ClientID rt \<noteq> cl_ClientID client then State_Monad.return (WriteHeader 200)
                         else do {
                           _ \<leftarrow> DeleteRefreshTokenByHash E (HashToken token);
                           State_Monad.return (WriteHeader 200) } }) })"

section \<open>Introspection\<close>

definition inactive :: json where
  "inactive = JObj [(''active'', JBool False)]"

text \<open>The key of the first row with the kid.\<close>

fun find_pub :: "env \<Rightarrow> string \<Rightarrow> SigningKey list \<Rightarrow> bytes result" where
  "find_pub E kid [] = Inl (GoErr ''unknown kid'')"
| "find_pub E kid (k # ks) =
     (if sk_Kid k \<noteq> kid then find_pub E kid ks
      else case decodePublicPEM E (sk_PublicPEM k) of
        Inl e \<Rightarrow> Inl (GoWrap ''decode public key'' e)
      | Inr pub \<Rightarrow> Inr pub)"

text \<open>The checks on the claims after the signature, at the time \<open>now\<close> in seconds.\<close>

definition check_access_claims :: "env \<Rightarrow> ResourceConfig \<Rightarrow> int \<Rightarrow> jmap \<Rightarrow> jmap result" where
  "check_access_claims E rc now claims =
     (if (case jget claims ''exp'' of Some (JFloat m e) \<Rightarrow> now > f64_to_int64 E m e | _ \<Rightarrow> False) then Inl (GoErr ''token expired'')
      else if (case jget claims ''nbf'' of Some (JFloat m e) \<Rightarrow> now < f64_to_int64 E m e | _ \<Rightarrow> False) then Inl (GoErr ''token not yet valid'')
      else if jget_str claims ''iss'' \<noteq> rc_PublicBase rc then Inl (GoErr ''iss mismatch'')
      else if \<not> audContains (jget claims ''aud'') (rc_PublicBase rc @ ''/'') then Inl (GoErr ''aud mismatch'')
      else Inr claims)"

definition verifyAccessJWT :: "env \<Rightarrow> ResourceConfig \<Rightarrow> string \<Rightarrow> jmap result eff" where
  "verifyAccessJWT E rc token =
     (case Split token CHR ''.'' of
        [h, p, s] \<Rightarrow>
          (case b64_DecodeString RawURLEncoding h of
             Inl e \<Rightarrow> State_Monad.return (Inl (GoWrap ''header decode'' e))
           | Inr headerJSON \<Rightarrow>
               (case unmarshal_map headerJSON of
                  Inl e \<Rightarrow> State_Monad.return (Inl (GoWrap ''header parse'' e))
                | Inr header \<Rightarrow>
                    if jget_str header ''alg'' \<noteq> ''EdDSA'' then State_Monad.return (Inl (GoErr ''unsupported alg''))
                    else do {
                      l \<leftarrow> AllPublishableKeys E;
                      case l of
                        Inl e \<Rightarrow> State_Monad.return (Inl (GoWrap ''list signing keys'' e))
                      | Inr signingKeys \<Rightarrow>
                          (case find_pub E (jget_str header ''kid'') signingKeys of
                             Inl e \<Rightarrow> State_Monad.return (Inl e)
                           | Inr pub \<Rightarrow>
                               (case b64_DecodeString RawURLEncoding s of
                                  Inl e \<Rightarrow> State_Monad.return (Inl (GoWrap ''sig decode'' e))
                                | Inr sig \<Rightarrow>
                                    if \<not> ed25519_Verify E pub (h @ ''.'' @ p) sig then State_Monad.return (Inl (GoErr ''signature invalid''))
                                    else (case b64_DecodeString RawURLEncoding p of
                                       Inl e \<Rightarrow> State_Monad.return (Inl (GoWrap ''payload decode'' e))
                                     | Inr payloadJSON \<Rightarrow>
                                         (case unmarshal_map payloadJSON of
                                            Inl e \<Rightarrow> State_Monad.return (Inl (GoWrap ''payload parse'' e))
                                          | Inr claims \<Rightarrow> do {
                                              now \<leftarrow> time_Now E;
                                              State_Monad.return (check_access_claims E rc (unix_sec now) claims) })))) }))
      | _ \<Rightarrow> State_Monad.return (Inl (GoErr ''malformed jwt'')))"

definition introspect_fields :: "string list" where
  "introspect_fields = [''sub'', ''client_id'', ''scope'', ''exp'', ''iat'', ''iss'', ''jti'', ''aud'']"

definition introspect_json :: "jmap \<Rightarrow> json" where
  "introspect_json claims =
     JObj ((''active'', JBool True) # List.map_filter (\<lambda>f. map_option (Pair f) (jget claims f)) introspect_fields)"

definition introspect_access :: "env \<Rightarrow> ResourceConfig \<Rightarrow> string \<Rightarrow> string \<Rightarrow> response eff" where
  "introspect_access E rc clientID token = do {
     v \<leftarrow> verifyAccessJWT E rc token;
     case v of
       Inl e \<Rightarrow> State_Monad.return (writeJSON 200 inactive)
     | Inr claims \<Rightarrow>
         if jget_str claims ''client_id'' \<noteq> clientID then State_Monad.return (writeJSON 200 inactive)
         else State_Monad.return (writeJSON 200 (introspect_json claims)) }"

definition refresh_json :: "RefreshToken \<Rightarrow> json" where
  "refresh_json rt = JObj [(''active'', JBool True), (''sub'', JStr (rt_Sub rt)), (''client_id'', JStr (rt_ClientID rt)),
     (''scope'', JStr (rt_Scopes rt)), (''exp'', JInt (unix_sec (rt_ExpiresAt rt))), (''token_type'', JStr ''refresh_token'')]"

definition introspect_token :: "env \<Rightarrow> ResourceConfig \<Rightarrow> string \<Rightarrow> request \<Rightarrow> response eff" where
  "introspect_token E rc clientID r =
     (let token = FormValue r ''token''; hint = FormValue r ''token_type_hint'' in
      if token = [] then State_Monad.return (writeJSON 200 inactive)
      else if hint \<noteq> ''access_token'' then do {
        l \<leftarrow> GetRefreshTokenByHash E (HashToken token);
        case l of
          Inr (Some rt) \<Rightarrow> do {
            now \<leftarrow> time_Now E;
            if now > rt_ExpiresAt rt then State_Monad.return (writeJSON 200 inactive)
            else if rt_ClientID rt \<noteq> clientID then State_Monad.return (writeJSON 200 inactive)
            else State_Monad.return (writeJSON 200 (refresh_json rt)) }
        | _ \<Rightarrow> if hint = ''refresh_token'' then State_Monad.return (writeJSON 200 inactive)
               else introspect_access E rc clientID token }
      else introspect_access E rc clientID token)"

definition HandleIntrospect :: "env \<Rightarrow> ResourceConfig \<Rightarrow> request \<Rightarrow> response eff" where
  "HandleIntrospect E rc r =
     (if rq_Method r \<noteq> ''POST'' then State_Monad.return (writeError 405 ''invalid_request'' ''method not allowed'')
      else if rq_FormError r then State_Monad.return (writeError 400 ''invalid_request'' ''cannot parse form'')
      else case extractClientCredentials r of
        Inl e \<Rightarrow> State_Monad.return (writeError 401 ''invalid_client'' (err_text e))
      | Inr (clientID, clientSecret) \<Rightarrow> do {
          g \<leftarrow> GetClient E clientID;
          case g of
            Inl e \<Rightarrow> State_Monad.return (writeError 500 ''server_error'' ''failed to look up client'')
          | Inr None \<Rightarrow> State_Monad.return (writeError 401 ''invalid_client'' ''unknown client'')
          | Inr (Some client) \<Rightarrow>
              (case check_secret client clientSecret of
                 Some resp \<Rightarrow> State_Monad.return resp
               | None \<Rightarrow> introspect_token E rc clientID r) })"

section \<open>Userinfo\<close>

definition profileClaims :: "string list" where
  "profileClaims = [''sub'', ''email'', ''email_verified'', ''name'', ''given_name'', ''family_name'', ''picture'', ''locale'',
     ''preferred_username'', ''hd'']"

definition parseEd25519PublicPEM :: "env \<Rightarrow> bytes \<Rightarrow> bytes result" where
  "parseEd25519PublicPEM E pemBytes =
     (case pem_Decode E pemBytes of
        None \<Rightarrow> Inl (GoErr ''no PEM block'')
      | Some der \<Rightarrow>
          (case x509_ParsePKIXPublicKey E der of
             Inl e \<Rightarrow> Inl (GoWrap ''parse PKIX'' e)
           | Inr OtherKey \<Rightarrow> Inl (GoErr ''not Ed25519'')
           | Inr (Ed25519Key p) \<Rightarrow> Inr p))"

definition key_map :: "env \<Rightarrow> SigningKey list \<Rightarrow> (string \<times> bytes) list" where
  "key_map E ks = fold (\<lambda>k m. case parseEd25519PublicPEM E (sk_PublicPEM k) of
     Inl e \<Rightarrow> m | Inr pub \<Rightarrow> alist_set (sk_Kid k) pub m) ks []"

definition getKey :: "env \<Rightarrow> (string \<times> bytes) list \<Rightarrow> string \<Rightarrow> string \<Rightarrow> bytes result eff" where
  "getKey E keyMap kid alg =
     (if alg \<noteq> ''EdDSA'' then State_Monad.return (Inl (GoErr ''unsupported alg''))
      else if kid = [] then do {
        a \<leftarrow> ActiveKey E;
        State_Monad.return (case a of
          Inl e \<Rightarrow> Inl (GoWrap ''no kid and no active key'' e)
        | Inr (k, _) \<Rightarrow> (case map_of keyMap (sk_Kid k) of
            None \<Rightarrow> Inl (GoErr ''active key not found in publishable set'') | Some pub \<Rightarrow> Inr pub)) }
      else State_Monad.return (case map_of keyMap kid of None \<Rightarrow> Inl (GoErr ''unknown kid'') | Some pub \<Rightarrow> Inr pub))"

definition verifyLocalJWT :: "env \<Rightarrow> (string \<Rightarrow> string \<Rightarrow> bytes result eff) \<Rightarrow> string \<Rightarrow> jmap result eff" where
  "verifyLocalJWT E gk token =
     (case Split token CHR ''.'' of
        [h, p, s] \<Rightarrow>
          (case b64_DecodeString RawURLEncoding h of
             Inl e \<Rightarrow> State_Monad.return (Inl (GoWrap ''header decode'' e))
           | Inr headerJSON \<Rightarrow>
               (case unmarshal_map headerJSON of
                  Inl e \<Rightarrow> State_Monad.return (Inl (GoWrap ''header parse'' e))
                | Inr header \<Rightarrow>
                    let alg = jget_str header ''alg'' in
                    if alg = [] then State_Monad.return (Inl (GoErr ''missing alg''))
                    else if alg = ''none'' then State_Monad.return (Inl (GoErr ''alg=none not allowed''))
                    else if alg \<noteq> ''EdDSA'' then State_Monad.return (Inl (GoErr ''unsupported alg''))
                    else do {
                      g \<leftarrow> gk (jget_str header ''kid'') alg;
                      State_Monad.return (case g of
                        Inl e \<Rightarrow> Inl (GoWrap ''key lookup'' e)
                      | Inr pub \<Rightarrow>
                          (case b64_DecodeString RawURLEncoding s of
                             Inl e \<Rightarrow> Inl (GoWrap ''signature decode'' e)
                           | Inr sig \<Rightarrow>
                               if \<not> ed25519_Verify E pub (h @ ''.'' @ p) sig then Inl (GoErr ''EdDSA signature invalid'')
                               else (case b64_DecodeString RawURLEncoding p of
                                  Inl e \<Rightarrow> Inl (GoWrap ''payload decode'' e)
                                | Inr payloadJSON \<Rightarrow>
                                    (case unmarshal_map payloadJSON of
                                       Inl e \<Rightarrow> Inl (GoWrap ''payload parse'' e)
                                     | Inr claims \<Rightarrow> Inr claims)))) }))
      | _ \<Rightarrow> State_Monad.return (Inl (GoErr ''malformed JWT: expected 3 parts'')))"

definition bearer_error :: "string \<Rightarrow> response" where
  "bearer_error desc = writeErrorWith ''WWW-Authenticate''
     (''Bearer realm='' @ [CHR 0x22] @ ''oauth'' @ [CHR 0x22] @ '', error='' @ [CHR 0x22] @ ''invalid_token'' @ [CHR 0x22])
     401 ''invalid_token'' desc"

definition userinfo_claims :: "env \<Rightarrow> ResourceConfig \<Rightarrow> int \<Rightarrow> jmap \<Rightarrow> response" where
  "userinfo_claims E rc now claims =
     (if (case jget claims ''exp'' of Some (JFloat m e) \<Rightarrow> f64_to_int64 E m e < now | _ \<Rightarrow> False) then bearer_error ''token expired''
      else if (case jget claims ''nbf'' of Some (JFloat m e) \<Rightarrow> f64_to_int64 E m e > now | _ \<Rightarrow> False) then bearer_error ''token not yet valid''
      else if (case jget claims ''iss'' of Some (JStr iss) \<Rightarrow> iss \<noteq> rc_PublicBase rc | _ \<Rightarrow> False) then bearer_error ''invalid issuer''
      else writeJSON 200 (JObj (filter (\<lambda>(k, v). k \<in> set profileClaims) claims)))"

definition HandleUserinfo :: "env \<Rightarrow> ResourceConfig \<Rightarrow> request \<Rightarrow> response eff" where
  "HandleUserinfo E rc r =
     (if rq_Method r \<noteq> ''GET'' \<and> rq_Method r \<noteq> ''POST'' then
        State_Monad.return (writeErrorWith ''Allow'' ''GET, POST'' 405 ''invalid_request'' ''method not allowed'')
      else let authHeader = ReqGet r ''Authorization'' in
        if authHeader = [] then State_Monad.return (bearer_error ''missing Authorization header'')
        else if \<not> HasPrefix authHeader ''Bearer '' then State_Monad.return (bearer_error ''Authorization scheme must be Bearer'')
        else let rawToken = TrimPrefix authHeader ''Bearer '' in
          if rawToken = [] then State_Monad.return (bearer_error ''empty Bearer token'')
          else do {
            l \<leftarrow> AllPublishableKeys E;
            case l of
              Inl e \<Rightarrow> State_Monad.return (writeError 500 ''server_error'' ''failed to load signing keys'')
            | Inr signingKeys \<Rightarrow> do {
                v \<leftarrow> verifyLocalJWT E (getKey E (key_map E signingKeys)) rawToken;
                case v of
                  Inl e \<Rightarrow> State_Monad.return (bearer_error (''token verification failed: '' @ err_text e))
                | Inr claims \<Rightarrow> do {
                    now \<leftarrow> time_Now E;
                    State_Monad.return (userinfo_claims E rc (unix_sec now) claims) } } })"

section \<open>Metadata\<close>

definition scopes_json :: "ResourceConfig \<Rightarrow> json" where
  "scopes_json rc = (let scopes = Fields (rc_Scopes rc) in if scopes = [] then JNull else JArr (map JStr scopes))"

definition HandleProtectedResource :: "ResourceConfig \<Rightarrow> response" where
  "HandleProtectedResource rc = writeJSON 200 (JObj [(''resource'', JStr (rc_PublicBase rc)),
     (''authorization_servers'', JArr [JStr (rc_PublicBase rc)]), (''bearer_methods_supported'', JArr [JStr ''header'']),
     (''scopes_supported'', scopes_json rc), (''resource_documentation'', JStr ''https://github.com/Sipioteo/MCPBouncer'')])"

definition server_metadata :: "ResourceConfig \<Rightarrow> jmap" where
  "server_metadata rc = [(''issuer'', JStr (rc_PublicBase rc)),
     (''authorization_endpoint'', JStr (rc_PublicBase rc @ ''/oauth/authorize'')),
     (''token_endpoint'', JStr (rc_PublicBase rc @ ''/oauth/token'')),
     (''registration_endpoint'', JStr (rc_PublicBase rc @ ''/oauth/register'')),
     (''revocation_endpoint'', JStr (rc_PublicBase rc @ ''/oauth/revoke'')),
     (''revocation_endpoint_auth_methods_supported'', JArr [JStr ''client_secret_post'', JStr ''client_secret_basic'']),
     (''introspection_endpoint'', JStr (rc_PublicBase rc @ ''/oauth/introspect'')),
     (''introspection_endpoint_auth_methods_supported'', JArr [JStr ''client_secret_post'', JStr ''client_secret_basic'']),
     (''userinfo_endpoint'', JStr (rc_PublicBase rc @ ''/oauth/userinfo'')),
     (''jwks_uri'', JStr (rc_PublicBase rc @ ''/oauth/jwks.json'')),
     (''response_types_supported'', JArr [JStr ''code'']),
     (''grant_types_supported'', JArr [JStr ''authorization_code'', JStr ''refresh_token'']),
     (''code_challenge_methods_supported'', JArr [JStr ''S256'']),
     (''token_endpoint_auth_methods_supported'', JArr [JStr ''none'', JStr ''client_secret_post'', JStr ''client_secret_basic'']),
     (''scopes_supported'', scopes_json rc),
     (''service_documentation'', JStr ''https://github.com/Sipioteo/MCPBouncer'')]"

definition HandleAuthorizationServer :: "ResourceConfig \<Rightarrow> response" where
  "HandleAuthorizationServer rc = writeJSON 200 (JObj (server_metadata rc))"

definition HandleOpenIDConfiguration :: "ResourceConfig \<Rightarrow> response" where
  "HandleOpenIDConfiguration rc = writeJSON 200 (JObj (server_metadata rc @
     [(''subject_types_supported'', JArr [JStr ''public'']), (''id_token_signing_alg_values_supported'', JArr [JStr ''EdDSA''])]))"

definition HandleJWKS :: "env \<Rightarrow> response eff" where
  "HandleJWKS E = do {
     l \<leftarrow> AllPublishableKeys E;
     case l of
       Inl e \<Rightarrow> State_Monad.return (writeError 500 ''server_error'' ''failed to retrieve keys'')
     | Inr pubKeys \<Rightarrow>
         (case PublishableJWKS E pubKeys of
            Inl e \<Rightarrow> State_Monad.return (writeError 500 ''server_error'' ''failed to build JWKS'')
          | Inr jwks \<Rightarrow> State_Monad.return (writeJSON 200 (jwks_json jwks))) }"

section \<open>The verifiers\<close>

definition trusted_access :: "env \<times> ResourceConfig \<Rightarrow> world \<Rightarrow> string \<Rightarrow> string \<Rightarrow> bytes \<Rightarrow> bytes \<Rightarrow> bool" where
  "trusted_access K w kid alg m s \<longleftrightarrow> alg = ''EdDSA'' \<and>
     (\<exists>k \<in> set (signing_keys (w_db w)). \<exists>pub. sk_Kid k = kid \<and> sk_Status k \<in> {''active'', ''next'', ''retiring''} \<and>
       decodePublicPEM (fst K) (sk_PublicPEM k) = Inr pub \<and> ed25519_Verify (fst K) pub m s)"

lemma find_pub_ok: "find_pub E kid ks = Inr pub \<Longrightarrow> \<exists>k \<in> set ks. sk_Kid k = kid \<and> decodePublicPEM E (sk_PublicPEM k) = Inr pub"
  by (induction ks) (auto split: if_splits sum.splits)

lemma check_access_claims_ok: "check_access_claims E rc now c = Inr c' \<Longrightarrow> c' = c"
  by (auto simp: check_access_claims_def split: if_splits)

lemma check_access_claims_valid:
  "check_access_claims E rc now c = Inr c' \<Longrightarrow>
     (\<forall>m e. jget c ''exp'' = Some (JFloat m e) \<longrightarrow> now \<le> f64_to_int64 E m e) \<and>
     (\<forall>m e. jget c ''nbf'' = Some (JFloat m e) \<longrightarrow> f64_to_int64 E m e \<le> now) \<and>
     jget_str c ''iss'' = rc_PublicBase rc \<and> audContains (jget c ''aud'') (rc_PublicBase rc @ ''/'')"
  by (auto simp: check_access_claims_def split: if_splits)

lemma three_parts:
  assumes "\<And>h p s. xs = [h, p, s] \<Longrightarrow> P" "(\<And>h p s. xs \<noteq> [h, p, s]) \<Longrightarrow> P"
  shows P
  using assms by blast

interpretation access_jwt: jwt_verifier "\<lambda>K. verifyAccessJWT (fst K) (snd K)" trusted_access "{''EdDSA''}"
proof
  fix K t w c w'
  assume r: "run_state (verifyAccessJWT (fst K) (snd K) t) w = (Inr c, w')"
  then obtain h p s where parts: "Split t CHR ''.'' = [h, p, s]"
    unfolding verifyAccessJWT_def by (cases rule: three_parts [of "Split t CHR ''.''"]) (auto split: list.splits)
  with r obtain hb hdr where h: "b64_DecodeString RawURLEncoding h = Inr hb" "unmarshal_map hb = Inr hdr" "jget_str hdr ''alg'' = ''EdDSA''"
    unfolding verifyAccessJWT_def by (auto split: sum.splits if_splits)
  with r parts obtain ks w1 pub sb pb where
    k: "run_state (AllPublishableKeys (fst K)) w = (Inr ks, w1)" "find_pub (fst K) (jget_str hdr ''kid'') ks = Inr pub" and
    s: "b64_DecodeString RawURLEncoding s = Inr sb" "ed25519_Verify (fst K) pub (h @ ''.'' @ p) sb" and
    p: "b64_DecodeString RawURLEncoding p = Inr pb" "unmarshal_map pb = Inr c"
    unfolding verifyAccessJWT_def
    by (auto elim!: run_bindE simp del: run_state_bind dest!: check_access_claims_ok split: sum.splits if_splits)
  from parse_jwt_parts [OF parts h(1,2) p(1) s(1)] h(3) s(2) p(2) find_pub_ok [OF k(2)] k(1)
  show "\<exists>j. parse_jwt t = Some j \<and> unmarshal_map (jt_payload j) = Inr c \<and>
      trusted_access K w (jget_str (jt_header j) ''kid'') (jget_str (jt_header j) ''alg'') (jt_input j) (jt_sig j)"
    by (auto simp: trusted_access_def AllPublishableKeys_def store_run split: if_splits)
next
  fix K t w x w'
  have "keeps (\<lambda>w. I (w_db w)) (verifyAccessJWT (fst K) (snd K) t)" for I
  proof -
    have "keeps (\<lambda>w. I (w_db w)) (AllPublishableKeys E)" for E
      by (rule hoareI) (auto simp: AllPublishableKeys_def store_run split: if_splits)
    then show ?thesis
      unfolding verifyAccessJWT_def by (auto split: list.split intro!: hoare_rules)
  qed
  then show "run_state (verifyAccessJWT (fst K) (snd K) t) w = (x, w') \<Longrightarrow> w_db w' = w_db w" by (rule keeps_db_eq)
qed (auto simp: trusted_access_def)

definition trusted_local :: "env \<times> (string \<times> bytes) list \<Rightarrow> world \<Rightarrow> string \<Rightarrow> string \<Rightarrow> bytes \<Rightarrow> bytes \<Rightarrow> bool" where
  "trusted_local K w kid alg m s \<longleftrightarrow> alg = ''EdDSA'' \<and>
     (\<exists>pub. pub \<in> ran (map_of (snd K)) \<and> (kid \<noteq> [] \<longrightarrow> map_of (snd K) kid = Some pub) \<and> ed25519_Verify (fst K) pub m s)"

lemma keeps_getKey [hoare_rules]: "keeps (\<lambda>w. I (w_db w)) (getKey E km kid alg)"
  unfolding getKey_def by (intro hoare_rules) auto

lemma getKey_ok:
  "run_state (getKey E km kid alg) w = (Inr pub, w') \<Longrightarrow> pub \<in> ran (map_of km) \<and> (kid \<noteq> [] \<longrightarrow> map_of km kid = Some pub)"
  unfolding getKey_def by (auto elim!: run_bindE intro: ranI simp del: run_state_bind split: if_splits sum.splits option.splits) (erule ranI)

interpretation local_jwt: jwt_verifier "\<lambda>K. verifyLocalJWT (fst K) (getKey (fst K) (snd K))" trusted_local "{''EdDSA''}"
proof
  fix K t w c w'
  let ?E = "fst K" and ?gk = "getKey (fst K) (snd K)"
  assume r: "run_state (verifyLocalJWT ?E ?gk t) w = (Inr c, w')"
  then obtain h p s where parts: "Split t CHR ''.'' = [h, p, s]"
    unfolding verifyLocalJWT_def by (cases rule: three_parts [of "Split t CHR ''.''"]) (auto split: list.splits)
  with r obtain hb hdr where h: "b64_DecodeString RawURLEncoding h = Inr hb" "unmarshal_map hb = Inr hdr" "jget_str hdr ''alg'' = ''EdDSA''"
    unfolding verifyLocalJWT_def Let_def by (auto split: sum.splits if_splits)
  with r parts obtain pub w1 sb pb where
    k: "run_state (?gk (jget_str hdr ''kid'') ''EdDSA'') w = (Inr pub, w1)" and
    s: "b64_DecodeString RawURLEncoding s = Inr sb" "ed25519_Verify ?E pub (h @ ''.'' @ p) sb" and
    p: "b64_DecodeString RawURLEncoding p = Inr pb" "unmarshal_map pb = Inr c"
    unfolding verifyLocalJWT_def Let_def
    by (auto elim!: run_bindE simp del: run_state_bind split: sum.splits if_splits)
  from parse_jwt_parts [OF parts h(1,2) p(1) s(1)] h(3) s(2) p(2) getKey_ok [OF k]
  show "\<exists>j. parse_jwt t = Some j \<and> unmarshal_map (jt_payload j) = Inr c \<and>
      trusted_local K w (jget_str (jt_header j) ''kid'') (jget_str (jt_header j) ''alg'') (jt_input j) (jt_sig j)"
    by (auto simp: trusted_local_def)
next
  fix K t w x w'
  have "keeps (\<lambda>w. I (w_db w)) (verifyLocalJWT (fst K) (getKey (fst K) (snd K)) t)" for I
    unfolding verifyLocalJWT_def Let_def by (auto split: list.split intro!: hoare_rules)
  then show "run_state (verifyLocalJWT (fst K) (getKey (fst K) (snd K)) t) w = (x, w') \<Longrightarrow> w_db w' = w_db w" by (rule keeps_db_eq)
qed (auto simp: trusted_local_def)

section \<open>Genuine keys and minted tokens\<close>

text \<open>A key row whose two halves belong together, as \<^verbatim>\<open>generateEd25519\<close> makes them.\<close>

definition key_genuine :: "env \<Rightarrow> bytes \<Rightarrow> bytes \<Rightarrow> bool" where
  "key_genuine E privPEM pubPEM \<longleftrightarrow> (\<exists>priv pub. decodePrivatePEM E privPEM = Inr priv \<and> decodePublicPEM E pubPEM = Inr pub \<and>
     (\<forall>m. ed25519_Verify E pub m (ed25519_Sign E priv m)))"

lemma generateEd25519_genuine:
  assumes "pem_ok E" "ed25519_ok E" "run_state (generateEd25519 E) w = (Inr (privPEM, pubPEM, kid), w')"
  shows "key_genuine E privPEM pubPEM \<and> ascii kid"
  using assms
  by (auto simp: generateEd25519_def key_genuine_def pem_ok_def ed25519_ok_def decodePrivatePEM_def decodePublicPEM_def Let_def ascii_hex
      split: option.splits sum.splits)

text \<open>The claims of a minted token pass the checks at any time in its lifetime.\<close>

lemma f64_to_int64_norm:
  assumes "in_int64 n"
  shows "\<exists>m e. f64_norm n 0 = JFloat m e \<and> f64_to_int64 E m e = n"
proof -
  obtain m e where "f64_norm n 0 = JFloat m e" "f64_int m e = n" by (rule f64_norm_int)
  with assms show ?thesis by (auto simp: f64_to_int64_def Let_def)
qed

lemma check_minted:
  assumes c: "\<And>x. jget c x = map_option jnorm (jget (add_claims (base_claims rc sub scopes cid t0 exp jti) extra) x)"
    and r: "in_int64 (unix_sec t0)" "in_int64 (unix_sec exp)" and t: "unix_sec t0 \<le> now" "now \<le> unix_sec exp"
  shows "check_access_claims E rc now c = Inr c"
proof -
  note m = minted_claims [OF c]
  from f64_to_int64_norm [OF r(1), of E] obtain m1 e1 where e1: "f64_norm (unix_sec t0) 0 = JFloat m1 e1" "f64_to_int64 E m1 e1 = unix_sec t0" by blast
  from f64_to_int64_norm [OF r(2), of E] obtain m2 e2 where e2: "f64_norm (unix_sec exp) 0 = JFloat m2 e2" "f64_to_int64 E m2 e2 = unix_sec exp" by blast
  show ?thesis
    using t by (simp add: check_access_claims_def jget_str_def m e1 e2)
qed

text \<open>With unique kids, looking a key up by kid finds that key.\<close>

lemma find_pub_unique:
  assumes "unique_key sk_Kid ks" "k \<in> set ks"
  shows "find_pub E (sk_Kid k) ks = (case decodePublicPEM E (sk_PublicPEM k) of Inl e \<Rightarrow> Inl (GoWrap ''decode public key'' e) | Inr p \<Rightarrow> Inr p)"
  using assms
proof (induction ks)
  case (Cons a ks)
  show ?case
  proof (cases "sk_Kid a = sk_Kid k")
    case True
    with Cons.prems have "a = k" by (auto simp: image_iff)
    then show ?thesis by simp
  next
    case False
    with Cons show ?thesis by auto
  qed
qed simp

lemma verifyAccessJWT_run:
  assumes "parse_jwt t = Some j" "jget_str (jt_header j) ''alg'' = ''EdDSA''" "\<not> db_fail E (w_tick w)"
    and "find_pub E (jget_str (jt_header j) ''kid'') (filter (\<lambda>k. sk_Status k \<in> {''active'', ''next'', ''retiring''}) (signing_keys (w_db w))) = Inr pub"
    and "ed25519_Verify E pub (jt_input j) (jt_sig j)" "unmarshal_map (jt_payload j) = Inr c"
  shows "fst (run_state (verifyAccessJWT E rc t) w) = check_access_claims E rc (unix_sec (clock E (Suc (w_tick w)))) c"
proof -
  from assms(1) obtain h p s hb where "Split t CHR ''.'' = [h, p, s]" "b64_DecodeString RawURLEncoding h = Inr hb"
    "unmarshal_map hb = Inr (jt_header j)" "b64_DecodeString RawURLEncoding p = Inr (jt_payload j)"
    "b64_DecodeString RawURLEncoding s = Inr (jt_sig j)" "jt_input j = h @ ''.'' @ p"
    by (auto simp: parse_jwt_def split: list.splits sum.splits)
  with assms(2-6) show ?thesis
    by (simp add: verifyAccessJWT_def AllPublishableKeys_def store_run)
qed

section \<open>Properties\<close>

text \<open>
  Property C19. What the sidecar mints, the sidecar accepts. A token minted with a genuine active key verifies
  at any later time within its lifetime, at the same resource, as long as the key is in the table;
  the verified claims name the issuer, audience, subject, client and scopes it was minted for.
\<close>

theorem minted_token_verifies:
  assumes mint: "run_state (MintAccessToken E i rc sub scopes cid extra) w = (Inr (tok, exp), w1)"
    and key: "\<And>k. k \<in> set (signing_keys (w_db w)) \<Longrightarrow> sk_Status k = ''active'' \<Longrightarrow>
      key_genuine E (sk_PrivatePEM k) (sk_PublicPEM k) \<and> ascii (sk_Kid k) \<and>
      (\<exists>k' \<in> set (signing_keys (w_db w2)). sk_Kid k' = sk_Kid k \<and> sk_PublicPEM k' = sk_PublicPEM k)"
    and inv: "keys_inv (signing_keys (w_db w2))" "\<not> db_fail E (w_tick w2)"
    and plain: "ascii (rc_PublicBase rc)" "ascii sub" "ascii scopes" "ascii cid" "\<forall>(k, v) \<in> set extra. ascii k \<and> jplain v"
    and range: "\<bar>unix_sec (clock E (Suc (w_tick w)))\<bar> \<le> 2 ^ 53" "\<bar>unix_sec exp\<bar> \<le> 2 ^ 53"
    and time: "clock E (Suc (w_tick w)) \<le> clock E (Suc (w_tick w2))" "clock E (Suc (w_tick w2)) \<le> exp"
  shows "\<exists>c. fst (run_state (verifyAccessJWT E rc tok) w2) = Inr c \<and> jget_str c ''iss'' = rc_PublicBase rc \<and>
    audContains (jget c ''aud'') (rc_PublicBase rc @ ''/'') \<and> jget_str c ''sub'' = sub \<and> jget_str c ''client_id'' = cid \<and>
    jget_str c ''scope'' = scopes"
proof -
  from MintAccessToken_ok [OF mint] obtain k priv jti where
    k: "k \<in> set (signing_keys (w_db w))" "sk_Status k = ''active''" "decodePrivatePEM E (sk_PrivatePEM k) = Inr priv" and
    exp: "exp = clock E (Suc (w_tick w)) + is_accessTTL i" and
    tok: "tok = minted E i rc sub scopes cid extra k priv (clock E (Suc (w_tick w))) (hex_EncodeToString jti)" by blast
  let ?now = "clock E (Suc (w_tick w))"
  let ?claims = "add_claims (base_claims rc sub scopes cid ?now exp (hex_EncodeToString jti)) extra"
  from key [OF k(1,2)] obtain pub k' where g: "decodePublicPEM E (sk_PublicPEM k) = Inr pub" "\<And>m. ed25519_Verify E pub m (ed25519_Sign E priv m)"
    and kid: "ascii (sk_Kid k)" and k': "k' \<in> set (signing_keys (w_db w2))" "sk_Kid k' = sk_Kid k" "sk_PublicPEM k' = sk_PublicPEM k"
    using k(3) by (auto simp: key_genuine_def)
  have pl: "jplain (JObj (add_claims (base_claims rc sub scopes cid ?now (?now + is_accessTTL i) (hex_EncodeToString jti)) extra))"
    using plain range exp by (intro claims_plain) (auto simp: ascii_hex)
  from parse_minted [OF kid pl, of E priv] obtain j c where
    j: "parse_jwt tok = Some j" "jget_str (jt_header j) ''kid'' = sk_Kid k" "jget_str (jt_header j) ''alg'' = ''EdDSA''"
    "jt_sig j = ed25519_Sign E priv (jt_input j)" "unmarshal_map (jt_payload j) = Inr c" and
    c: "\<And>x. jget c x = map_option jnorm (jget ?claims x)"
    unfolding tok exp by auto
  have u: "unique_key sk_Kid (signing_keys (w_db w2))" using inv by (simp add: keys_inv_def)
  have f: "find_pub E (jget_str (jt_header j) ''kid'') (filter (\<lambda>k. sk_Status k \<in> {''active'', ''next'', ''retiring''}) (signing_keys (w_db w2))) = Inr pub"
    using find_pub_unique [OF u k'(1), of E] k'(2,3) g(1) j(2) list_is_all [OF inv(1)] by simp
  have v: "ed25519_Verify E pub (jt_input j) (jt_sig j)" using g(2) j(4) by simp
  have big: "(2::int) ^ 53 < 2 ^ 63" by simp
  have "in_int64 (unix_sec ?now)" "in_int64 (unix_sec exp)" using range big by (auto simp: in_int64_def)
  moreover have "unix_sec ?now \<le> unix_sec (clock E (Suc (w_tick w2)))" "unix_sec (clock E (Suc (w_tick w2))) \<le> unix_sec exp"
    using time by (auto intro: unix_sec_mono)
  ultimately have "check_access_claims E rc (unix_sec (clock E (Suc (w_tick w2)))) c = Inr c"
    using c by (intro check_minted) auto
  with verifyAccessJWT_run [OF j(1,3) inv(2) f v j(5)] minted_claims [OF c] show ?thesis
    by (intro exI [of _ c]) (simp add: jget_str_def)
qed

definition sample_key_world :: world where
  "sample_key_world = sample_world\<lparr>w_db := empty_db\<lparr>signing_keys := [sample_sk ''key1'' 0 ''active'']\<rparr>\<rparr>"

lemma sample_genuine: "key_genuine sample_env sample_key sample_key"
  by (simp add: key_genuine_def decodePrivatePEM_def decodePublicPEM_def sample_env_def)

lemma sample_key_inv: "keys_inv (signing_keys (w_db sample_key_world))"
  by (simp add: keys_inv_def sample_key_world_def sample_sk_def signing_status_ok_def)

lemma sample_mint_run:
  "\<exists>tok w1. run_state (MintAccessToken sample_env \<lparr>is_accessTTL = hour, is_refreshTTL = hour\<rparr> sample_rc ''alice'' ''openid'' ''c1'' []) sample_key_world =
     (Inr (tok, time_Unix 1700003601), w1)"
  by (simp add: MintAccessToken_def ActiveKey_def store_run sample_key_world_def sample_sk_def decodePrivatePEM_def Let_def sample_world_def)
    (simp add: sample_env_def time_Unix_def hour_def second_def)

theorem minted_token_verifies_witness:
  "\<exists>tok exp w1 c. run_state (MintAccessToken sample_env \<lparr>is_accessTTL = hour, is_refreshTTL = hour\<rparr> sample_rc ''alice'' ''openid'' ''c1'' []) sample_key_world =
     (Inr (tok, exp), w1) \<and> fst (run_state (verifyAccessJWT sample_env sample_rc tok) sample_key_world) = Inr c \<and> jget_str c ''sub'' = ''alice''"
proof -
  from sample_mint_run obtain tok w1 where
    m: "run_state (MintAccessToken sample_env \<lparr>is_accessTTL = hour, is_refreshTTL = hour\<rparr> sample_rc ''alice'' ''openid'' ''c1'' []) sample_key_world =
      (Inr (tok, time_Unix 1700003601), w1)" by blast
  have "\<exists>c. fst (run_state (verifyAccessJWT sample_env sample_rc tok) sample_key_world) = Inr c \<and>
      jget_str c ''iss'' = rc_PublicBase sample_rc \<and> audContains (jget c ''aud'') (rc_PublicBase sample_rc @ ''/'') \<and>
      jget_str c ''sub'' = ''alice'' \<and> jget_str c ''client_id'' = ''c1'' \<and> jget_str c ''scope'' = ''openid''"
    by (rule minted_token_verifies [OF m])
      (auto simp: sample_genuine ascii_def sample_rc_def time_Unix_def second_def unix_sec_def sample_key_world_def sample_sk_def
        sample_world_def keys_inv_def signing_status_ok_def)
  with m show ?thesis by blast
qed

lemma introspect_token_cases:
  assumes "run_state (introspect_token E rc cid r) w = (resp, w')" "rs_Body resp \<noteq> JsonBody inactive"
  obtains (refresh) rt where "sql_get rt_TokenHash (HashToken (FormValue r ''token'')) (refresh_tokens (w_db w)) = Some rt"
      "rt_ClientID rt = cid" "clock E (Suc (w_tick w)) \<le> rt_ExpiresAt rt" "resp = writeJSON 200 (refresh_json rt)" "w_db w' = w_db w"
    | (access) w1 where "run_state (introspect_access E rc cid (FormValue r ''token'')) w1 = (resp, w')" "w_db w1 = w_db w" "w_tick w \<le> w_tick w1"
proof (cases "FormValue r ''token'' = [] \<or> FormValue r ''token_type_hint'' = ''access_token''")
  case True
  with assms show thesis
    by (intro access [of w]) (auto simp: introspect_token_def Let_def split: if_splits)
next
  case False
  obtain l where l: "run_state (GetRefreshTokenByHash E (HashToken (FormValue r ''token''))) w = (l, bump w)"
    by (cases "db_fail E (w_tick w)") (auto simp: store_run)
  show thesis
  proof (cases "\<exists>rt. l = Inr (Some rt)")
    case True
    then obtain rt where "l = Inr (Some rt)" by blast
    with l assms False show thesis
      by (intro refresh [of rt]) (auto simp: store_run introspect_token_def Let_def not_less split: if_splits)
  next
    case no: False
    with l assms False show thesis
      by (intro access [of "bump w"]) (auto simp: introspect_token_def Let_def split: if_splits sum.splits option.splits)
  qed
qed

lemma introspect_access_cases:
  assumes "run_state (introspect_access E rc cid t) w = (resp, w')" "rs_Body resp \<noteq> JsonBody inactive"
  obtains c w2 where "run_state (verifyAccessJWT E rc t) w = (Inr c, w2)" "jget_str c ''client_id'' = cid"
    "resp = writeJSON 200 (introspect_json c)" "w_db w' = w_db w"
proof -
  from assms obtain v w2 where v: "run_state (verifyAccessJWT E rc t) w = (v, w2)" by fastforce
  from access_jwt.verify_db [of "(E, rc)"] v have "w_db w2 = w_db w" by simp
  with v assms that show thesis unfolding introspect_access_def by (auto split: sum.splits if_splits)
qed

text \<open>What an accepted access token is: signed by the key its header names, within its times, issued by this resource
  for this resource.\<close>

lemma access_accepted:
  assumes "run_state (verifyAccessJWT E rc t) w = (Inr c, w')"
  shows "\<exists>j k pub n. parse_jwt t = Some j \<and> jget_str (jt_header j) ''alg'' = ''EdDSA'' \<and> k \<in> set (signing_keys (w_db w)) \<and>
    sk_Kid k = jget_str (jt_header j) ''kid'' \<and> decodePublicPEM E (sk_PublicPEM k) = Inr pub \<and>
    ed25519_Verify E pub (jt_input j) (jt_sig j) \<and> unmarshal_map (jt_payload j) = Inr c \<and> w_tick w \<le> n \<and>
    (\<forall>m e. jget c ''exp'' = Some (JFloat m e) \<longrightarrow> unix_sec (clock E n) \<le> f64_to_int64 E m e) \<and>
    (\<forall>m e. jget c ''nbf'' = Some (JFloat m e) \<longrightarrow> f64_to_int64 E m e \<le> unix_sec (clock E n)) \<and>
    jget_str c ''iss'' = rc_PublicBase rc \<and> audContains (jget c ''aud'') (rc_PublicBase rc @ ''/'')"
proof -
  from assms obtain h p s where parts: "Split t CHR ''.'' = [h, p, s]"
    unfolding verifyAccessJWT_def by (cases rule: three_parts [of "Split t CHR ''.''"]) (auto split: list.splits)
  with assms obtain hb hdr where h: "b64_DecodeString RawURLEncoding h = Inr hb" "unmarshal_map hb = Inr hdr" "jget_str hdr ''alg'' = ''EdDSA''"
    unfolding verifyAccessJWT_def by (auto split: sum.splits if_splits)
  with assms parts obtain ks w1 c' where k: "run_state (AllPublishableKeys E) w = (Inr ks, w1)"
    and cc: "check_access_claims E rc (unix_sec (clock E (w_tick w1))) c' = Inr c"
    unfolding verifyAccessJWT_def by (auto elim!: run_bindE simp del: run_state_bind split: sum.splits if_splits)
  from k have "w_tick w \<le> w_tick w1" by (auto simp: AllPublishableKeys_def store_run split: if_splits)
  moreover from check_access_claims_ok [OF cc] cc have "check_access_claims E rc (unix_sec (clock E (w_tick w1))) c = Inr c" by simp
  ultimately obtain n where n: "w_tick w \<le> n" "check_access_claims E rc (unix_sec (clock E n)) c = Inr c" by blast
  from n access_jwt.accepted [of "(E, rc)", unfolded fst_conv snd_conv, OF assms] check_access_claims_valid [OF n(2)] show ?thesis
    unfolding trusted_access_def fst_conv by blast
qed

lemma introspect_db: "run_state (HandleIntrospect E rc r) w = (resp, w') \<Longrightarrow> w_db w' = w_db w"
proof -
  have "keeps (\<lambda>w. I (w_db w)) (verifyAccessJWT E rc t)" for I t
    by (rule hoareI) (use access_jwt.verify_db [of "(E, rc)"] in auto)
  then have "keeps (\<lambda>w. I (w_db w)) (introspect_access E rc cid t)" for I cid t
    unfolding introspect_access_def by (intro hoare_rules)
  moreover have "keeps (\<lambda>w. I (w_db w)) (GetRefreshTokenByHash E h)" "keeps (\<lambda>w. I (w_db w)) (GetClient E k)" for I h k
    by (auto simp: hoare_def store_run)
  ultimately have "keeps (\<lambda>w. I (w_db w)) (HandleIntrospect E rc r)" for I
    unfolding HandleIntrospect_def introspect_token_def Let_def by (intro hoare_rules | assumption)+
  then show "run_state (HandleIntrospect E rc r) w = (resp, w') \<Longrightarrow> w_db w' = w_db w" by (rule keeps_db_eq)
qed

lemma introspect_200:
  assumes "run_state (HandleIntrospect E rc r) w = (resp, w')" "rs_Status resp = 200"
  shows "\<exists>cid sec client. extractClientCredentials r = Inr (cid, sec) \<and> sql_get cl_ClientID cid (clients (w_db w)) = Some client \<and>
    check_secret client sec = None \<and> run_state (introspect_token E rc cid r) (bump w) = (resp, w')"
proof -
  from assms obtain cid sec where c: "extractClientCredentials r = Inr (cid, sec)"
    unfolding HandleIntrospect_def by (auto split: if_splits sum.splits)
  with assms obtain client w0 where g: "run_state (GetClient E cid) w = (Inr (Some client), w0)"
    unfolding HandleIntrospect_def by (auto elim!: run_bindE simp del: run_state_bind split: if_splits sum.splits option.splits)
  then have cl: "sql_get cl_ClientID cid (clients (w_db w)) = Some client" and w0: "w0 = bump w"
    by (auto simp: store_run split: if_splits)
  from assms c g w0 have "check_secret client sec = None" "run_state (introspect_token E rc cid r) (bump w) = (resp, w')"
    unfolding HandleIntrospect_def
    by (auto elim!: run_bindE simp del: run_state_bind dest!: check_secret_status split: if_splits option.splits)
  with c cl show ?thesis by blast
qed

lemma introspect_active:
  assumes "run_state (introspect_token E rc cid r) w = (resp, w')" "rs_Body resp \<noteq> JsonBody inactive"
  shows "(\<exists>rt. sql_get rt_TokenHash (HashToken (FormValue r ''token'')) (refresh_tokens (w_db w)) = Some rt \<and> rt_ClientID rt = cid \<and>
      clock E (Suc (w_tick w)) \<le> rt_ExpiresAt rt \<and> rs_Body resp = JsonBody (refresh_json rt)) \<or>
    (\<exists>c w1 w2. run_state (verifyAccessJWT E rc (FormValue r ''token'')) w1 = (Inr c, w2) \<and> w_db w1 = w_db w \<and> w_tick w \<le> w_tick w1 \<and>
      jget_str c ''client_id'' = cid \<and> rs_Body resp = JsonBody (introspect_json c))"
  using assms
proof (cases rule: introspect_token_cases)
  case (access w1)
  from access(1) assms(2) obtain c w2 where "run_state (verifyAccessJWT E rc (FormValue r ''token'')) w1 = (Inr c, w2)" "jget_str c ''client_id'' = cid"
    "resp = writeJSON 200 (introspect_json c)" by (rule introspect_access_cases)
  with access(2,3) show ?thesis by auto
qed auto

text \<open>
  Property C15. Introspection tells a client only about its own live tokens, and changes nothing. Whatever it
  answers, the database stays as it was. If the answer to a request is 200 and not the inactive one, the
  client authenticated, and the token is a refresh token of that client that has not expired, or a
  JWT signed by the key of the table its header names, whose \<^verbatim>\<open>exp\<close> and \<^verbatim>\<open>nbf\<close>, if numbers, admit the time of the
  request, whose issuer and audience are this resource and whose client is that client.
\<close>

theorem introspect_only_own_tokens:
  assumes "run_state (HandleIntrospect E rc r) w = (resp, w')"
  shows "w_db w' = w_db w \<and> (rs_Status resp = 200 \<and> rs_Body resp \<noteq> JsonBody inactive \<longrightarrow>
    (\<exists>cid sec client. extractClientCredentials r = Inr (cid, sec) \<and> sql_get cl_ClientID cid (clients (w_db w)) = Some client \<and>
     (cl_ClientSecretHash client \<noteq> [] \<longrightarrow> sha256Hex sec = cl_ClientSecretHash client) \<and>
     ((\<exists>rt. sql_get rt_TokenHash (HashToken (FormValue r ''token'')) (refresh_tokens (w_db w)) = Some rt \<and> rt_ClientID rt = cid \<and>
         clock E (w_tick w + 2) \<le> rt_ExpiresAt rt \<and> rs_Body resp = JsonBody (refresh_json rt)) \<or>
      (\<exists>j k pub c n. parse_jwt (FormValue r ''token'') = Some j \<and> jget_str (jt_header j) ''alg'' = ''EdDSA'' \<and>
         k \<in> set (signing_keys (w_db w)) \<and> sk_Kid k = jget_str (jt_header j) ''kid'' \<and> decodePublicPEM E (sk_PublicPEM k) = Inr pub \<and>
         ed25519_Verify E pub (jt_input j) (jt_sig j) \<and> unmarshal_map (jt_payload j) = Inr c \<and> w_tick w < n \<and>
         (\<forall>m e. jget c ''exp'' = Some (JFloat m e) \<longrightarrow> unix_sec (clock E n) \<le> f64_to_int64 E m e) \<and>
         (\<forall>m e. jget c ''nbf'' = Some (JFloat m e) \<longrightarrow> f64_to_int64 E m e \<le> unix_sec (clock E n)) \<and>
         jget_str c ''iss'' = rc_PublicBase rc \<and> audContains (jget c ''aud'') (rc_PublicBase rc @ ''/'') \<and>
         jget_str c ''client_id'' = cid \<and> rs_Body resp = JsonBody (introspect_json c)))))"
proof (intro conjI impI)
  show "w_db w' = w_db w" by (rule introspect_db [OF assms])
next
  assume a: "rs_Status resp = 200 \<and> rs_Body resp \<noteq> JsonBody inactive"
  from introspect_200 [OF assms] a obtain cid sec client where
    c: "extractClientCredentials r = Inr (cid, sec)" and cl: "sql_get cl_ClientID cid (clients (w_db w)) = Some client"
    and s: "check_secret client sec = None" and t: "run_state (introspect_token E rc cid r) (bump w) = (resp, w')" by blast
  note auth = c cl s [unfolded check_secret_None]
  from introspect_active [OF t conjunct2 [OF a]] show "\<exists>cid sec client. extractClientCredentials r = Inr (cid, sec) \<and>
     sql_get cl_ClientID cid (clients (w_db w)) = Some client \<and>
     (cl_ClientSecretHash client \<noteq> [] \<longrightarrow> sha256Hex sec = cl_ClientSecretHash client) \<and>
     ((\<exists>rt. sql_get rt_TokenHash (HashToken (FormValue r ''token'')) (refresh_tokens (w_db w)) = Some rt \<and> rt_ClientID rt = cid \<and>
         clock E (w_tick w + 2) \<le> rt_ExpiresAt rt \<and> rs_Body resp = JsonBody (refresh_json rt)) \<or>
      (\<exists>j k pub c n. parse_jwt (FormValue r ''token'') = Some j \<and> jget_str (jt_header j) ''alg'' = ''EdDSA'' \<and>
         k \<in> set (signing_keys (w_db w)) \<and> sk_Kid k = jget_str (jt_header j) ''kid'' \<and> decodePublicPEM E (sk_PublicPEM k) = Inr pub \<and>
         ed25519_Verify E pub (jt_input j) (jt_sig j) \<and> unmarshal_map (jt_payload j) = Inr c \<and> w_tick w < n \<and>
         (\<forall>m e. jget c ''exp'' = Some (JFloat m e) \<longrightarrow> unix_sec (clock E n) \<le> f64_to_int64 E m e) \<and>
         (\<forall>m e. jget c ''nbf'' = Some (JFloat m e) \<longrightarrow> f64_to_int64 E m e \<le> unix_sec (clock E n)) \<and>
         jget_str c ''iss'' = rc_PublicBase rc \<and> audContains (jget c ''aud'') (rc_PublicBase rc @ ''/'') \<and>
         jget_str c ''client_id'' = cid \<and> rs_Body resp = JsonBody (introspect_json c)))"
  proof (elim disjE exE conjE)
    fix c w1 w2 assume v: "run_state (verifyAccessJWT E rc (FormValue r ''token'')) w1 = (Inr c, w2)"
      and w1: "w_db w1 = w_db (bump w)" "w_tick (bump w) \<le> w_tick w1" and b: "jget_str c ''client_id'' = cid" "rs_Body resp = JsonBody (introspect_json c)"
    have t: "w_tick w < n" if "w_tick w1 \<le> n" for n using that w1(2) by simp
    have d: "w_db w1 = w_db w" using w1(1) by simp
    have s': "cl_ClientSecretHash client \<noteq> [] \<longrightarrow> sha256Hex sec = cl_ClientSecretHash client" using auth(3) by blast
    from access_accepted [OF v, unfolded d] t b c cl s' show ?thesis by blast
  qed (use auth in auto)
qed

definition sample_public_client :: Client where
  "sample_public_client = \<lparr>cl_ClientID = ''c1'', cl_ClientSecretHash = [], cl_RedirectURIsJSON = ''[]'',
     cl_RegistrationAccessTokenHash = [], cl_Resource = ''wiki'', cl_Scopes = [], cl_CreatedAt = 0, cl_LastUsedAt = 0\<rparr>"

definition sample_live_rt :: RefreshToken where
  "sample_live_rt = \<lparr>rt_TokenHash = HashToken ''r1'', rt_Sub = ''alice'', rt_Resource = ''wiki'', rt_ClientID = ''c1'', rt_ClaimsJSON = [],
     rt_UpstreamRefreshEnc = [], rt_Scopes = ''openid'', rt_ExpiresAt = time_Unix 1800000000\<rparr>"

definition sample_inspect_world :: world where
  "sample_inspect_world = sample_world\<lparr>w_db := empty_db\<lparr>clients := [sample_public_client], refresh_tokens := [sample_live_rt]\<rparr>\<rparr>"

definition sample_inspect_req :: request where
  "sample_inspect_req = form_request [(''client_id'', ''c1''), (''token'', ''r1'')]"

lemma sample_inspect_form [simp]:
  "FormValue sample_inspect_req ''token'' = ''r1''" "FormValue sample_inspect_req ''token_type_hint'' = []"
  "extractClientCredentials sample_inspect_req = Inr (''c1'', [])" "rq_Method sample_inspect_req = ''POST''"
  "rq_FormError sample_inspect_req = False"
  by (simp_all add: FormValue_def first_value_def sample_inspect_req_def form_request_def extractClientCredentials_def)

lemma sample_inspect_tables [simp]:
  "sql_get cl_ClientID ''c1'' (clients (w_db sample_inspect_world)) = Some sample_public_client"
  "sql_get rt_TokenHash (HashToken ''r1'') (refresh_tokens (w_db sample_inspect_world)) = Some sample_live_rt"
  "w_tick sample_inspect_world = 0" "check_secret sample_public_client s = None" "rt_ClientID sample_live_rt = ''c1''"
  "rt_ExpiresAt sample_live_rt = time_Unix 1800000000" "cl_ClientID sample_public_client = ''c1''"
  by (simp_all add: sample_inspect_world_def sql_get_def sample_public_client_def sample_live_rt_def sample_world_def check_secret_def)

lemma sample_introspect_run:
  "\<exists>w'. run_state (HandleIntrospect sample_env rc sample_inspect_req) sample_inspect_world = (writeJSON 200 (refresh_json sample_live_rt), w')"
  by (simp add: HandleIntrospect_def introspect_token_def store_run Let_def time_Unix_def second_def)

theorem introspect_only_own_tokens_witness:
  "\<exists>resp w'. run_state (HandleIntrospect sample_env sample_rc sample_inspect_req) sample_inspect_world = (resp, w') \<and>
     rs_Body resp \<noteq> JsonBody inactive \<and> w_db w' = w_db sample_inspect_world"
proof -
  from sample_introspect_run [of sample_rc] obtain w' where
    r: "run_state (HandleIntrospect sample_env sample_rc sample_inspect_req) sample_inspect_world = (writeJSON 200 (refresh_json sample_live_rt), w')" by blast
  have n: "rs_Body (writeJSON 200 (refresh_json sample_live_rt)) \<noteq> JsonBody inactive" by (simp add: refresh_json_def inactive_def)
  from introspect_only_own_tokens [OF r] r n show ?thesis by auto
qed

section \<open>Revocation as a function of the tables\<close>

text \<open>What revocation promises: an authenticated client removes its own refresh token and nothing else.\<close>

definition authenticated :: "request \<Rightarrow> db \<Rightarrow> Client option" where
  "authenticated r d =
     (case extractClientCredentials r of
        Inl e \<Rightarrow> None
      | Inr (cid, sec) \<Rightarrow>
          (case sql_get cl_ClientID cid (clients d) of
             None \<Rightarrow> None
           | Some client \<Rightarrow> if cl_ClientSecretHash client = [] \<or> sec \<noteq> [] \<and> sha256Hex sec = cl_ClientSecretHash client
                            then Some client else None))"

definition revoke_spec :: "request \<Rightarrow> db \<Rightarrow> db" where
  "revoke_spec r d =
     (if rq_Method r \<noteq> ''POST'' \<or> rq_FormError r \<or> FormValue r ''token'' = [] \<or> FormValue r ''token_type_hint'' = ''access_token'' then d
      else case authenticated r d of
        None \<Rightarrow> d
      | Some client \<Rightarrow> d\<lparr>refresh_tokens := filter (\<lambda>rt. \<not> (rt_TokenHash rt = HashToken (FormValue r ''token'') \<and>
          rt_ClientID rt = cl_ClientID client)) (refresh_tokens d)\<rparr>)"

lemma delete_own:
  assumes "unique_key rt_TokenHash rts" "sql_get rt_TokenHash h rts = Some rt"
  shows "filter (\<lambda>x. \<not> (rt_TokenHash x = h \<and> rt_ClientID x = c)) rts =
    (if rt_ClientID rt = c then sql_delete (\<lambda>x. rt_TokenHash x = h) rts else rts)"
proof -
  have "x = rt" if "x \<in> set rts" "rt_TokenHash x = h" for x
    using that assms(2) sql_get_unique [OF assms(1), of h x] by simp
  then show ?thesis unfolding sql_delete_def by (auto intro!: filter_cong filter_True)
qed

lemma delete_none: "sql_get rt_TokenHash h rts = None \<Longrightarrow> filter (\<lambda>x. \<not> (rt_TokenHash x = h \<and> rt_ClientID x = c)) rts = rts"
  by (auto simp: sql_get_None intro!: filter_True)

lemma delete_none_upd:
  "sql_get rt_TokenHash h (refresh_tokens d) = None \<Longrightarrow>
   d\<lparr>refresh_tokens := filter (\<lambda>x. rt_TokenHash x = h \<longrightarrow> rt_ClientID x \<noteq> c) (refresh_tokens d)\<rparr> = d"
  using delete_none [of h "refresh_tokens d" c] by simp

text \<open>
  Property C16. Revocation refines its specification. With a database that does not fail, the handler
  changes the database exactly as \<open>revoke_spec\<close> says: the presented token's row goes if the
  authenticated client owns it, and no other row of any table changes.
\<close>

theorem revoke_refines:
  assumes "no_faults E" "unique_key rt_TokenHash (refresh_tokens (w_db w))"
  shows "w_db (snd (run_state (HandleRevoke E r) w)) = revoke_spec r (w_db w)"
proof (cases "extractClientCredentials r")
  case (Inl e)
  then show ?thesis by (simp add: HandleRevoke_def revoke_spec_def authenticated_def)
next
  case (Inr p)
  obtain cid sec where p: "p = (cid, sec)" by fastforce
  let ?h = "HashToken (FormValue r ''token'')"
  show ?thesis
  proof (cases "sql_get cl_ClientID cid (clients (w_db w))")
    case None
    with Inr p assms(1) show ?thesis by (simp add: HandleRevoke_def revoke_spec_def authenticated_def store_run no_faults_def)
  next
    case (Some client)
    have auth: "authenticated r (w_db w) = (if check_secret client sec = None then Some client else None)"
      using Inr p Some by (simp add: authenticated_def check_secret_None)
    show ?thesis
    proof (cases "sql_get rt_TokenHash ?h (refresh_tokens (w_db w))")
      case None
      with Some Inr p assms(1) delete_none_upd [OF None, of "cl_ClientID client"] show ?thesis
        by (auto simp: HandleRevoke_def revoke_spec_def auth store_run no_faults_def Let_def split: option.split)
    next
      case rt: (Some rt)
      with Some Inr p assms(1) delete_own [OF assms(2) rt, of "cl_ClientID client"] show ?thesis
        by (auto simp: HandleRevoke_def revoke_spec_def auth store_run no_faults_def Let_def split: option.split)
    qed
  qed
qed

theorem revoke_refines_witness:
  "refresh_tokens (w_db (snd (run_state (HandleRevoke sample_env sample_inspect_req) sample_inspect_world))) = []"
proof -
  have "unique_key rt_TokenHash (refresh_tokens (w_db sample_inspect_world))" by (simp add: sample_inspect_world_def)
  from revoke_refines [OF sample_no_faults this, of sample_inspect_req] show ?thesis
    by (simp add: revoke_spec_def authenticated_def) (simp add: sample_inspect_world_def sample_live_rt_def sample_public_client_def)
qed

section \<open>Userinfo and the published keys\<close>

lemma key_map_gen:
  assumes "\<And>kid pub. map_of m kid = Some pub \<Longrightarrow> P kid pub"
    and "\<And>k pub. k \<in> set ks \<Longrightarrow> parseEd25519PublicPEM E (sk_PublicPEM k) = Inr pub \<Longrightarrow> P (sk_Kid k) pub"
    and "map_of (fold (\<lambda>k m. case parseEd25519PublicPEM E (sk_PublicPEM k) of
      Inl e \<Rightarrow> m | Inr pub \<Rightarrow> alist_set (sk_Kid k) pub m) ks m) kid = Some pub"
  shows "P kid pub"
  using assms
proof (induction ks arbitrary: m)
  case (Cons k ks)
  show ?case
    by (rule Cons.IH [of "case parseEd25519PublicPEM E (sk_PublicPEM k) of Inl e \<Rightarrow> m | Inr pub \<Rightarrow> alist_set (sk_Kid k) pub m"])
      (use Cons.prems in \<open>auto split: sum.splits if_splits\<close>)
qed simp

lemma key_map_Some: "map_of (key_map E ks) kid = Some pub \<Longrightarrow> \<exists>k \<in> set ks. sk_Kid k = kid \<and> parseEd25519PublicPEM E (sk_PublicPEM k) = Inr pub"
  unfolding key_map_def by (erule key_map_gen [rotated 2]) auto

lemma userinfo_claims_200:
  "rs_Status (userinfo_claims E rc now c) = 200 \<Longrightarrow>
     rs_Body (userinfo_claims E rc now c) = JsonBody (JObj (filter (\<lambda>(k, v). k \<in> set profileClaims) c)) \<and>
     (\<forall>m e. jget c ''exp'' = Some (JFloat m e) \<longrightarrow> now \<le> f64_to_int64 E m e) \<and>
     (\<forall>m e. jget c ''nbf'' = Some (JFloat m e) \<longrightarrow> f64_to_int64 E m e \<le> now) \<and>
     (\<forall>iss. jget c ''iss'' = Some (JStr iss) \<longrightarrow> iss = rc_PublicBase rc)"
  by (auto simp: userinfo_claims_def bearer_error_def split: if_splits)

lemma userinfo_verified:
  assumes "run_state (HandleUserinfo E rc r) w = (resp, w')" "rs_Status resp = 200"
  shows "\<exists>t j k pub c n. ReqGet r ''Authorization'' = ''Bearer '' @ t \<and> parse_jwt t = Some j \<and>
    jget_str (jt_header j) ''alg'' = ''EdDSA'' \<and> k \<in> set (signing_keys (w_db w)) \<and>
    parseEd25519PublicPEM E (sk_PublicPEM k) = Inr pub \<and> ed25519_Verify E pub (jt_input j) (jt_sig j) \<and>
    unmarshal_map (jt_payload j) = Inr c \<and> w_tick w < n \<and> resp = userinfo_claims E rc (unix_sec (clock E n)) c \<and> w_db w' = w_db w"
proof -
  let ?t = "TrimPrefix (ReqGet r ''Authorization'') ''Bearer ''"
  let ?ks = "filter (\<lambda>k. sk_Status k \<in> {''active'', ''next'', ''retiring''}) (signing_keys (w_db w))"
  from assms have pre: "HasPrefix (ReqGet r ''Authorization'') ''Bearer ''"
    unfolding HandleUserinfo_def Let_def by (auto simp: bearer_error_def split: if_splits)
  from assms obtain c w1 where
    v: "run_state (verifyLocalJWT E (getKey E (key_map E ?ks)) ?t) (bump w) = (Inr c, w1)" and
    u: "resp = userinfo_claims E rc (unix_sec (clock E (w_tick w1))) c" "w' = bump w1"
    unfolding HandleUserinfo_def Let_def
    by (auto elim!: run_bindE simp: AllPublishableKeys_def store_run bearer_error_def simp del: run_state_bind split: if_splits sum.splits)
  from local_jwt.accepted [of "(E, key_map E ?ks)", unfolded fst_conv snd_conv, OF v] obtain j pub kid where
    j: "parse_jwt ?t = Some j" "unmarshal_map (jt_payload j) = Inr c" "jget_str (jt_header j) ''alg'' = ''EdDSA''"
      "map_of (key_map E ?ks) kid = Some pub" "ed25519_Verify E pub (jt_input j) (jt_sig j)"
    by (auto simp: trusted_local_def ran_def)
  from key_map_Some [OF j(4)] obtain k where k: "k \<in> set (signing_keys (w_db w))" "parseEd25519PublicPEM E (sk_PublicPEM k) = Inr pub" by auto
  have d: "w_db w1 = w_db w" using local_jwt.verify_db [of "(E, key_map E ?ks)", unfolded fst_conv snd_conv, OF v] by simp
  have "keeps (ticks n) (verifyLocalJWT E (getKey E (key_map E ?ks)) ?t)" for n
    unfolding verifyLocalJWT_def getKey_def ActiveKey_def GetActiveSigningKey_def Let_def by (auto split: list.split intro!: hoare_rules)
  from ticks_mono [OF this v] have "w_tick w < w_tick w1" by simp
  moreover from pre have "ReqGet r ''Authorization'' = ''Bearer '' @ ?t" by (auto simp only: HasPrefix_iff TrimPrefix_append)
  moreover have "w_db w' = w_db w" using d u(2) by simp
  ultimately show ?thesis using j k u(1) by blast
qed

text \<open>
  Property C17. Userinfo answers 200 only for a bearer token that carries an EdDSA signature of a key of the
  key table over its header and payload, that has not expired at the time of the request and whose
  issuer, if it has one, is this resource. The answer holds profile claims of that token and
  nothing else, and the database does not change.
\<close>

theorem userinfo_sound:
  assumes "run_state (HandleUserinfo E rc r) w = (resp, w')" "rs_Status resp = 200"
  shows "\<exists>t j k pub c n. ReqGet r ''Authorization'' = ''Bearer '' @ t \<and> parse_jwt t = Some j \<and>
    jget_str (jt_header j) ''alg'' = ''EdDSA'' \<and> k \<in> set (signing_keys (w_db w)) \<and>
    parseEd25519PublicPEM E (sk_PublicPEM k) = Inr pub \<and> ed25519_Verify E pub (jt_input j) (jt_sig j) \<and>
    unmarshal_map (jt_payload j) = Inr c \<and> w_tick w < n \<and>
    (\<forall>m e. jget c ''exp'' = Some (JFloat m e) \<longrightarrow> unix_sec (clock E n) \<le> f64_to_int64 E m e) \<and>
    (\<forall>iss. jget c ''iss'' = Some (JStr iss) \<longrightarrow> iss = rc_PublicBase rc) \<and>
    rs_Body resp = JsonBody (JObj (filter (\<lambda>(k, v). k \<in> set profileClaims) c)) \<and> w_db w' = w_db w"
proof -
  from userinfo_verified [OF assms] obtain t j k pub c n where
    v: "ReqGet r ''Authorization'' = ''Bearer '' @ t" "parse_jwt t = Some j" "jget_str (jt_header j) ''alg'' = ''EdDSA''"
    "k \<in> set (signing_keys (w_db w))" "parseEd25519PublicPEM E (sk_PublicPEM k) = Inr pub" "ed25519_Verify E pub (jt_input j) (jt_sig j)"
    "unmarshal_map (jt_payload j) = Inr c" "w_tick w < n" "w_db w' = w_db w"
    and u: "resp = userinfo_claims E rc (unix_sec (clock E n)) c" by blast
  from userinfo_claims_200 [of E rc "unix_sec (clock E n)" c] assms(2) u v show ?thesis by blast
qed

lemma verifyLocalJWT_run:
  assumes "parse_jwt t = Some j" "jget_str (jt_header j) ''alg'' = ''EdDSA''" "jget_str (jt_header j) ''kid'' \<noteq> []"
    and "map_of km (jget_str (jt_header j) ''kid'') = Some pub"
    and "ed25519_Verify E pub (jt_input j) (jt_sig j)" "unmarshal_map (jt_payload j) = Inr c"
  shows "run_state (verifyLocalJWT E (getKey E km) t) w = (Inr c, w)"
proof -
  from assms(1) obtain h p s hb where "Split t CHR ''.'' = [h, p, s]" "b64_DecodeString RawURLEncoding h = Inr hb"
    "unmarshal_map hb = Inr (jt_header j)" "b64_DecodeString RawURLEncoding p = Inr (jt_payload j)"
    "b64_DecodeString RawURLEncoding s = Inr (jt_sig j)" "jt_input j = h @ ''.'' @ p"
    by (auto simp: parse_jwt_def split: list.splits sum.splits)
  with assms(2-6) show ?thesis
    by (simp add: verifyLocalJWT_def getKey_def Let_def)
qed

definition sample_bearer_req :: "string \<Rightarrow> request" where
  "sample_bearer_req t = (form_request [])\<lparr>rq_Header := [(''Authorization'', [''Bearer '' @ t])]\<rparr>"

definition sample_token :: string where
  "sample_token = minted sample_env \<lparr>is_accessTTL = hour, is_refreshTTL = hour\<rparr> sample_rc ''alice'' ''openid'' ''c1'' []
     (sample_sk ''key1'' 0 ''active'') sample_key (time_Unix 1700000001) ''00''"

lemma sample_token_parse:
  obtains j c where "parse_jwt sample_token = Some j" "jget_str (jt_header j) ''kid'' = ''key1''" "jget_str (jt_header j) ''alg'' = ''EdDSA''"
    "ed25519_Verify sample_env sample_key (jt_input j) (jt_sig j)" "unmarshal_map (jt_payload j) = Inr c"
    "\<forall>x. jget c x = map_option jnorm (jget (add_claims (base_claims sample_rc ''alice'' ''openid'' ''c1'' (time_Unix 1700000001)
      (time_Unix 1700003601) ''00'') []) x)"
proof -
  let ?i = "\<lparr>is_accessTTL = hour, is_refreshTTL = hour\<rparr>"
  have e: "time_Unix 1700000001 + is_accessTTL ?i = time_Unix 1700003601" by (simp add: time_Unix_def hour_def second_def)
  have pl: "jplain (JObj (add_claims (base_claims sample_rc ''alice'' ''openid'' ''c1'' (time_Unix 1700000001)
      (time_Unix 1700000001 + is_accessTTL ?i) ''00'') []))"
    unfolding e by (rule claims_plain) (auto simp: ascii_def sample_rc_def)
  have k: "sk_Kid (sample_sk ''key1'' 0 ''active'') = ''key1''" by (simp add: sample_sk_def)
  have "ascii (sk_Kid (sample_sk ''key1'' 0 ''active''))" by (simp add: k ascii_def)
  from parse_minted [OF this pl, of sample_env sample_key] obtain j c where
    j: "parse_jwt sample_token = Some j" "jget_str (jt_header j) ''kid'' = ''key1''" "jget_str (jt_header j) ''alg'' = ''EdDSA''"
    "jt_sig j = ed25519_Sign sample_env sample_key (jt_input j)" "unmarshal_map (jt_payload j) = Inr c"
    "\<forall>x. jget c x = map_option jnorm (jget (add_claims (base_claims sample_rc ''alice'' ''openid'' ''c1'' (time_Unix 1700000001)
      (time_Unix 1700003601) ''00'') []) x)"
    unfolding sample_token_def e k by auto
  moreover have "ed25519_Verify sample_env sample_key (jt_input j) (jt_sig j)" by (simp add: j(4) sample_env_def)
  ultimately show thesis by (intro that)
qed

lemma canon_Authorization: "CanonicalHeaderKey ''Authorization'' = ''Authorization''"
  by code_simp

lemma sample_userinfo_run:
  "\<exists>resp w'. run_state (HandleUserinfo sample_env sample_rc (sample_bearer_req sample_token)) sample_key_world = (resp, w') \<and> rs_Status resp = 200"
proof -
  obtain j c where j: "parse_jwt sample_token = Some j" "jget_str (jt_header j) ''kid'' = ''key1''" "jget_str (jt_header j) ''alg'' = ''EdDSA''"
    "ed25519_Verify sample_env sample_key (jt_input j) (jt_sig j)" "unmarshal_map (jt_payload j) = Inr c"
    "\<forall>x. jget c x = map_option jnorm (jget (add_claims (base_claims sample_rc ''alice'' ''openid'' ''c1'' (time_Unix 1700000001)
      (time_Unix 1700003601) ''00'') []) x)" by (rule sample_token_parse)
  let ?ks = "[sample_sk ''key1'' 0 ''active'']"
  have km: "key_map sample_env ?ks = [(''key1'', sample_key)]"
    by (simp add: key_map_def parseEd25519PublicPEM_def sample_sk_def sample_env_def)
  have run: "run_state (verifyLocalJWT sample_env (getKey sample_env (key_map sample_env ?ks)) sample_token) w = (Inr c, w)" for w
    using j km by (intro verifyLocalJWT_run [where j = j and pub = sample_key]) auto
  note m = minted_claims [OF j(6) [rule_format]]
  obtain m1 e1 m2 e2 where f: "f64_norm 1700000001 0 = JFloat m1 e1" "f64_to_int64 sample_env m1 e1 = 1700000001"
    "f64_norm 1700003601 0 = JFloat m2 e2" "f64_to_int64 sample_env m2 e2 = 1700003601"
    using f64_to_int64_norm [of 1700000001 sample_env] f64_to_int64_norm [of 1700003601 sample_env] by (auto simp: in_int64_def)
  have u: "userinfo_claims sample_env sample_rc 1700000001 c = writeJSON 200 (JObj (filter (\<lambda>(k, v). k \<in> set profileClaims) c))"
    by (simp add: userinfo_claims_def m f)
  have h: "ReqGet (sample_bearer_req sample_token) ''Authorization'' = ''Bearer '' @ sample_token"
    by (simp add: ReqGet_def sample_bearer_req_def form_request_def hdr_Get_def hdr_values_def canon_Authorization)
  have ne: "sample_token \<noteq> []" using j(1) by (auto simp: parse_jwt_def Split_def)
  have b: "TrimPrefix (''Bearer '' @ sample_token) ''Bearer '' = sample_token" "HasPrefix (''Bearer '' @ sample_token) ''Bearer ''"
    by (simp_all only: TrimPrefix_append HasPrefix_append)
  have ks: "run_state (AllPublishableKeys sample_env) sample_key_world = (Inr ?ks, bump sample_key_world)"
    by (simp add: AllPublishableKeys_def store_run) (simp add: sample_key_world_def sample_sk_def)
  have t: "w_tick sample_key_world = 0" by (simp add: sample_key_world_def sample_world_def)
  have "rq_Method (sample_bearer_req sample_token) = ''POST''" by (simp add: sample_bearer_req_def form_request_def)
  then show ?thesis
    unfolding HandleUserinfo_def h Let_def b using ne b(2) by (simp add: ks run t u)
qed

theorem userinfo_sound_witness:
  "\<exists>resp w' c. run_state (HandleUserinfo sample_env sample_rc (sample_bearer_req sample_token)) sample_key_world = (resp, w') \<and>
     rs_Status resp = 200 \<and> rs_Body resp = JsonBody (JObj (filter (\<lambda>(k, v). k \<in> set profileClaims) c))"
proof -
  from sample_userinfo_run obtain resp w' where
    r: "run_state (HandleUserinfo sample_env sample_rc (sample_bearer_req sample_token)) sample_key_world = (resp, w')" "rs_Status resp = 200" by blast
  from userinfo_sound [OF r] r show ?thesis by blast
qed






lemma PublishableJWKS_ok:
  "PublishableJWKS E ks = Inr js \<Longrightarrow> list_all2 (\<lambda>k j. signingKeyToJWK E k = Inr j) ks js"
  by (induction ks arbitrary: js) (auto split: sum.splits)

text \<open>
  Property C31. A key set that the sidecar serves has one entry per row of the key table, in order, with the
  row's kid and the base64url form of its Ed25519 public key: active, next and retiring keys are all
  published.
\<close>

theorem jwks_publishes_every_key:
  assumes "run_state (HandleJWKS E) w = (resp, w')" "rs_Status resp = 200" "keys_inv (signing_keys (w_db w))"
  shows "\<exists>js. rs_Body resp = JsonBody (jwks_json js) \<and> w_db w' = w_db w \<and>
    list_all2 (\<lambda>k j. jk_Kid j = sk_Kid k \<and> jk_Alg j = ''EdDSA'' \<and>
      (\<exists>pub. decodePublicPEM E (sk_PublicPEM k) = Inr pub \<and> jk_X j = b64_EncodeToString RawURLEncoding pub))
      (signing_keys (w_db w)) js"
proof -
  from assms obtain js where
    js: "PublishableJWKS E (signing_keys (w_db w)) = Inr js" "resp = writeJSON 200 (jwks_json js)" "w' = bump w"
    unfolding HandleJWKS_def using list_is_all [OF assms(3)]
    by (auto simp: AllPublishableKeys_def store_run split: sum.splits if_splits)
  have "jk_Kid j = sk_Kid k \<and> jk_Alg j = ''EdDSA'' \<and>
      (\<exists>pub. decodePublicPEM E (sk_PublicPEM k) = Inr pub \<and> jk_X j = b64_EncodeToString RawURLEncoding pub)"
    if "signingKeyToJWK E k = Inr j" for k j
    using that by (auto simp: signingKeyToJWK_def decodePublicPEM_def split: option.splits sum.splits x509_key.splits)
  with PublishableJWKS_ok [OF js(1)] js(2,3) show ?thesis
    by (auto elim!: list_all2_mono)
qed

theorem jwks_publishes_every_key_witness:
  "\<exists>resp w' js. run_state (HandleJWKS sample_env) sample_key_world = (resp, w') \<and> rs_Status resp = 200 \<and>
     rs_Body resp = JsonBody (jwks_json js) \<and> map jk_Kid js = [''key1'']"
proof -
  obtain resp w' where r: "run_state (HandleJWKS sample_env) sample_key_world = (resp, w')" "rs_Status resp = 200"
    by (simp add: HandleJWKS_def AllPublishableKeys_def store_run sample_key_world_def sample_sk_def signingKeyToJWK_def)
      (simp add: sample_env_def)
  have "signing_keys (w_db sample_key_world) = [sample_sk ''key1'' 0 ''active'']" by (simp add: sample_key_world_def)
  with jwks_publishes_every_key [OF r sample_key_inv] r show ?thesis by (auto simp: sample_sk_def list_all2_Cons1)
qed

end
