(* ===== verification/Go_Net.thy ===== *)
theory Go_Net
  imports Go_Http
begin

text \<open>
  What the middlewares use of the standard library beyond \<^verbatim>\<open>Go_Http\<close>: \<^verbatim>\<open>net.SplitHostPort\<close>, differences
  of times, \<^verbatim>\<open>strconv.Atoi\<close>, \<^verbatim>\<open>time.ParseDuration\<close> and the path cleaning of \<^verbatim>\<open>http.ServeMux\<close>.
\<close>

section \<open>Addresses\<close>

text \<open>The host part of \<^verbatim>\<open>net.SplitHostPort\<close>; \<open>None\<close> where it returns an error.\<close>

definition last_colon :: "string \<Rightarrow> nat option" where
  "last_colon s = (case index_of CHR '':'' (rev s) of None \<Rightarrow> None | Some n \<Rightarrow> Some (length s - Suc n))"

definition SplitHost :: "string \<Rightarrow> string option" where
  "SplitHost s =
     (case last_colon s of
        None \<Rightarrow> None
      | Some i \<Rightarrow>
          if s \<noteq> [] \<and> hd s = CHR ''['' then
            (case index_of CHR '']'' s of
               None \<Rightarrow> None
             | Some end \<Rightarrow>
                 if Suc end \<noteq> i then None
                 else if CHR ''['' \<in> set (drop 1 s) \<or> CHR '']'' \<in> set (drop (Suc end) s) then None
                 else Some (take (end - 1) (drop 1 s)))
          else
            let host = take i s in
            if CHR '':'' \<in> set host \<or> CHR ''['' \<in> set s \<or> CHR '']'' \<in> set s then None else Some host)"

section \<open>Times\<close>

definition max_int64 :: int where
  "max_int64 = 2 ^ 63 - 1"

text \<open>\<^verbatim>\<open>t.Sub(u)\<close> saturates at the ends of a \<^verbatim>\<open>time.Duration\<close>.\<close>

definition time_Sub :: "time \<Rightarrow> time \<Rightarrow> int" where
  "time_Sub t u = max (- max_int64 - 1) (min max_int64 (t - u))"

lemma time_Sub_ge: "w \<le> max_int64 \<Longrightarrow> - max_int64 \<le> w \<Longrightarrow> w \<le> time_Sub t u \<longleftrightarrow> w \<le> t - u"
  by (auto simp: time_Sub_def)

text \<open>
  \<^verbatim>\<open>math.Ceil(d.Seconds())\<close> in \<^verbatim>\<open>float64\<close>. A non-negative float is a pair of integers \<open>(m, e)\<close> standing for
  $m / 2^e$. \<open>float64_quot\<close> is the quotient of two integers rounded to 53 significant bits, ties to even; it is
  correct for quotients between $2^{-60}$ and $2^{53}$, and every value here is 0 or in that range.
  \<^verbatim>\<open>Seconds\<close> adds the whole seconds and the rounded fraction, and rounds again.
\<close>

function bit_count :: "int \<Rightarrow> nat" where
  "bit_count n = (if n \<le> 0 then 0 else Suc (bit_count (n div 2)))"
  by auto
termination by (relation "measure nat") auto

declare bit_count.simps [simp del]

definition round_even :: "int \<Rightarrow> int \<Rightarrow> int" where
  "round_even p q =
     (let k = p div q; r = p mod q in
      if 2 * r < q then k else if q < 2 * r then k + 1 else if even k then k else k + 1)"

definition float64_quot :: "int \<Rightarrow> int \<Rightarrow> int \<times> nat" where
  "float64_quot p q = (let e = 165 - bit_count (p * 2 ^ 112 div q) in (round_even (p * 2 ^ e) q, e))"

definition Seconds :: "int \<Rightarrow> int \<times> nat" where
  "Seconds d = (let (m, e) = float64_quot (d mod second) second in float64_quot (d div second * 2 ^ e + m) (2 ^ e))"

definition ceil_seconds :: "int \<Rightarrow> int" where
  "ceil_seconds d =
     (if 0 \<le> d then let (m, e) = Seconds d in - ((- m) div 2 ^ e)
      else let (m, e) = Seconds (- d) in - (m div 2 ^ e))"

lemma bit_count_bounds: "0 < n \<Longrightarrow> 2 ^ bit_count n \<le> 2 * n \<and> n < 2 ^ bit_count n"
proof (induction n rule: bit_count.induct)
  case (1 n)
  show ?case
  proof (cases "n = 1")
    case True
    then show ?thesis by (simp add: bit_count.simps [of 1] bit_count.simps [of 0])
  next
    case False
    with 1 have "2 ^ bit_count (n div 2) \<le> 2 * (n div 2) \<and> n div 2 < 2 ^ bit_count (n div 2)" by auto
    then show ?thesis using 1(2) by (subst (1 2) bit_count.simps) auto
  qed
qed

lemma bit_count_le: "n < 2 ^ k \<Longrightarrow> bit_count n \<le> k"
proof (cases "0 < n")
  case True
  assume "n < 2 ^ k"
  with bit_count_bounds [OF True] have "(2::int) ^ bit_count n < 2 ^ Suc k" by simp
  then have "bit_count n < Suc k" by (rule power_less_imp_less_exp [rotated]) simp
  then show ?thesis by simp
qed (simp add: bit_count.simps)

lemma bit_count_ge: "2 ^ k \<le> n \<Longrightarrow> k < bit_count n"
proof -
  assume k: "2 ^ k \<le> n"
  then have "0 < n" by (rule less_le_trans [rotated]) simp
  with bit_count_bounds k have "(2::int) ^ k < 2 ^ bit_count n" by (meson order_le_less_trans)
  then show ?thesis by (rule power_less_imp_less_exp [rotated]) simp
qed

lemma round_even_near:
  assumes "0 < q"
  shows "2 * p - q \<le> 2 * (q * round_even p q)" "2 * (q * round_even p q) \<le> 2 * p + q"
proof -
  define a where "a = q * (p div q)"
  have p: "p = a + p mod q" by (simp add: a_def)
  have m: "0 \<le> p mod q" "p mod q < q" using assms by simp_all
  have "q * round_even p q = a \<and> 2 * (p mod q) \<le> q \<or> q * round_even p q = a + q \<and> q \<le> 2 * (p mod q)"
    by (simp add: round_even_def Let_def a_def distrib_left)
  with p m show "2 * p - q \<le> 2 * (q * round_even p q)" "2 * (q * round_even p q) \<le> 2 * p + q" by linarith+
qed

text \<open>Rounding does not cross an integer, and rounds up past one if the rest is more than half.\<close>

lemma round_even_le: "0 < q \<Longrightarrow> p \<le> k * q \<Longrightarrow> round_even p q \<le> k"
proof -
  assume q: "0 < q" and k: "p \<le> k * q"
  from round_even_near(2) [OF q, of p] k have "2 * q * round_even p q \<le> 2 * q * k + q" by (simp add: algebra_simps)
  then have "q * (2 * round_even p q) \<le> q * (2 * k + 1)" by (simp add: algebra_simps)
  then have "2 * round_even p q \<le> 2 * k + 1" using q by simp
  then show ?thesis by presburger
qed

lemma round_even_gt: "0 < q \<Longrightarrow> 2 * k * q + q < 2 * p \<Longrightarrow> k < round_even p q"
proof -
  assume q: "0 < q" and k: "2 * k * q + q < 2 * p"
  from round_even_near(1) [OF q, of p] k have "q * (2 * k) < q * (2 * round_even p q)" by (simp add: algebra_simps)
  then show ?thesis using q by simp
qed

text \<open>The exponent: a quotient below $2^k$ keeps at least $53 - k$ binary places, and the mantissa has 53 bits.\<close>

lemma div_bounds: "0 < q \<Longrightarrow> q * (p div q) \<le> p \<and> p < q * (p div q) + (q::int)"
proof -
  assume q: "0 < q"
  have "q * (p div q) + p mod q = p" by simp
  with pos_mod_bound [OF q, of p] pos_mod_sign [OF q, of p] show ?thesis by linarith
qed

lemma div_less: "0 < q \<Longrightarrow> p < k * q \<Longrightarrow> p div q < (k::int)"
proof -
  assume q: "0 < q" and "p < k * q"
  with div_bounds [OF q, of p] have "q * (p div q) < k * q" by linarith
  with q show ?thesis by (simp add: mult.commute [of k])
qed

lemma float64_exp:
  assumes "0 < q" "p < q * 2 ^ k" "k \<le> 53"
  shows "53 - k \<le> snd (float64_quot p q)"
proof -
  have "p * 2 ^ 112 < 2 ^ (k + 112) * q" using assms(2) by (simp add: power_add algebra_simps)
  from div_less [OF assms(1) this] bit_count_le assms(3) show ?thesis by (fastforce simp: float64_quot_def Let_def)
qed

lemma float64_mantissa:
  assumes "0 < q" "q \<le> p * 2 ^ 60" "p < q * 2 ^ 53"
  shows "2 ^ 52 \<le> fst (float64_quot p q) \<and> fst (float64_quot p q) \<le> 2 ^ 53"
proof -
  let ?n = "p * 2 ^ 112 div q"
  let ?b = "bit_count ?n"
  have p: "0 < p" using assms(1,2) by (cases "0 < p") (auto simp: not_less dest: mult_right_mono [of p 0 "2 ^ 60"])
  have n: "q * ?n \<le> p * 2 ^ 112" "p * 2 ^ 112 < q * (?n + 1)"
    using div_bounds [OF assms(1), of "p * 2 ^ 112"] by (simp_all add: distrib_left)
  have "q * (2 ^ 52) \<le> p * 2 ^ 112" using assms(2) by (simp add: algebra_simps)
  then have "2 ^ 52 \<le> ?n" using zdiv_mono1 [OF _ assms(1), of "q * 2 ^ 52" "p * 2 ^ 112"] assms(1) by simp
  then have n0: "0 < ?n" by (rule less_le_trans [rotated]) simp
  have b: "?b \<le> 165" using assms(3) by (intro bit_count_le div_less [OF assms(1)]) simp
  let ?e = "165 - ?b"
  have e: "(2::int) ^ ?e * 2 ^ ?b = 2 ^ 165" using b by (simp flip: power_add)
  note bb = bit_count_bounds [OF n0]
  have "q * 2 ^ ?b \<le> 2 * (p * 2 ^ 112)" using bb n(1) assms(1) by (auto intro: order_trans [OF mult_left_mono [of _ _ q]])
  then have "2 ^ ?e * (q * 2 ^ ?b) \<le> 2 ^ ?e * (2 * (p * 2 ^ 112))" by (rule mult_left_mono) simp
  then have "q * (2 ^ ?e * 2 ^ ?b) \<le> (p * 2 ^ ?e) * 2 ^ 113" by (simp add: algebra_simps)
  then have lo: "2 ^ 52 * q \<le> p * 2 ^ ?e" unfolding e by simp
  have "q * (?n + 1) \<le> q * 2 ^ ?b" using bb assms(1) by (intro mult_left_mono) simp_all
  with n(2) have "p * 2 ^ 112 \<le> q * 2 ^ ?b" by linarith
  then have "2 ^ ?e * (p * 2 ^ 112) \<le> 2 ^ ?e * (q * 2 ^ ?b)" by (rule mult_left_mono) simp
  then have "(p * 2 ^ ?e) * 2 ^ 112 \<le> q * (2 ^ ?e * 2 ^ ?b)" by (simp add: algebra_simps)
  then have hi: "p * 2 ^ ?e \<le> 2 ^ 53 * q" unfolding e by simp
  have "2 ^ 52 - 1 < round_even (p * 2 ^ ?e) q" using lo assms(1) by (intro round_even_gt) (simp_all add: algebra_simps)
  with round_even_le [OF assms(1) hi] show ?thesis by (simp add: float64_quot_def Let_def)
qed

text \<open>Below $2^{24}$ seconds, 194 days, the two roundings never reach a neighbouring integer.\<close>

lemma fraction_not_lost:
  assumes "0 < ns" "53 \<le> e" "2 * (ns * 2 ^ e) - second \<le> 2 * (second * m)"
  shows "2 ^ e < m * 2 ^ (30::nat)"
proof -
  have e: "(2::int) ^ 53 \<le> 2 ^ e" using assms(2) by (rule power_increasing) simp
  have "2 ^ e \<le> ns * 2 ^ e" using assms(1) by simp
  with assms(3) have "2 * 2 ^ e - 1000000000 \<le> 2000000000 * m" unfolding second_def by linarith
  with e show ?thesis by simp
qed

lemma Seconds_between:
  assumes "0 \<le> d" "d < 2 ^ 24 * second" "d mod second \<noteq> 0" "Seconds d = (m', e')"
  shows "d div second * 2 ^ e' < m' \<and> m' \<le> (d div second + 1) * 2 ^ e'"
proof -
  let ?s = "d div second" and ?ns = "d mod second"
  have sec: "0 < second" by (simp add: second_def)
  have ns: "0 < ?ns" "?ns < second" using assms(3) pos_mod_sign [OF sec, of d] pos_mod_bound [OF sec, of d] by linarith+
  have s: "?s < 2 ^ 24" using div_less [OF sec assms(2)] .
  obtain m e where f: "float64_quot ?ns second = (m, e)" by fastforce
  have m: "m = round_even (?ns * 2 ^ e) second" using f by (auto simp: float64_quot_def Let_def)
  have e: "53 \<le> e" using float64_exp [OF sec, of ?ns 0] ns(2) f by simp
  have m1: "m \<le> 2 ^ e" unfolding m using less_imp_le [OF ns(2)] by (intro round_even_le [OF sec]) (simp add: mult.commute [of "2 ^ e"])
  have m2: "2 ^ e < m * 2 ^ (30::nat)" using fraction_not_lost [OF ns(1) e] round_even_near(1) [OF sec] m by blast
  let ?p = "?s * 2 ^ e + m"
  have Q: "(0::int) < 2 ^ e" by simp
  have m': "m' = round_even (?p * 2 ^ e') (2 ^ e)" "snd (float64_quot ?p (2 ^ e)) = e'"
    using assms(4) f by (auto simp: Seconds_def float64_quot_def Let_def)
  have half: "2 ^ e < 2 * m * 2 ^ e'"
  proof (cases "?p < 2 ^ e * 2 ^ 24")
    case True
    from float64_exp [OF Q this] m'(2) have "29 \<le> e'" by simp
    then have "(2::int) ^ 29 \<le> 2 ^ e'" by (rule power_increasing) simp
    moreover have "0 \<le> m" using m2 Q by (cases "0 \<le> m") (auto simp: not_le dest: mult_neg_pos [of m "2 ^ 30"] less_trans)
    ultimately have "m * 2 ^ 29 \<le> m * 2 ^ e'" by (rule mult_left_mono)
    with m2 show ?thesis by simp
  next
    case False
    have "?s * 2 ^ e \<le> (2 ^ 24 - 1) * 2 ^ e" using s by (intro mult_right_mono) simp_all
    moreover have "(2 ^ 24 - 1) * (2::int) ^ e = 2 ^ e * 2 ^ 24 - 2 ^ e" by simp
    ultimately have "2 ^ e \<le> m" using False by linarith
    moreover have "(1::int) \<le> 2 ^ e'" by simp
    then have "2 * m * 1 \<le> 2 * m * 2 ^ e'" using \<open>2 ^ e \<le> m\<close> Q by (intro mult_left_mono) (auto intro: order_trans [of _ "2 ^ e"])
    ultimately show ?thesis using Q by linarith
  qed
  have "?s * 2 ^ e' < m'" unfolding m' using half by (intro round_even_gt [OF Q]) (simp add: algebra_simps)
  moreover have "?p * 2 ^ e' \<le> ((?s + 1) * 2 ^ e) * 2 ^ e'" using m1 by (intro mult_right_mono) (simp_all add: algebra_simps)
  then have "m' \<le> (?s + 1) * 2 ^ e'" unfolding m' by (intro round_even_le [OF Q]) (simp add: mult.assoc mult.commute [of "2 ^ e"])
  ultimately show ?thesis by blast
qed

lemma float64_zero: "0 < q \<Longrightarrow> float64_quot 0 q = (0, 165)"
  by (simp add: float64_quot_def round_even_def bit_count.simps)

lemma float64_whole: "snd (float64_quot n (2 ^ e)) = k \<Longrightarrow> n = s * 2 ^ e \<Longrightarrow> fst (float64_quot n (2 ^ e)) = s * 2 ^ k"
  by (auto simp: float64_quot_def Let_def round_even_def mult.assoc mult.commute [of "2 ^ e"])

lemma ceil_seconds_exact:
  assumes "0 \<le> d" "d < 2 ^ 24 * second"
  shows "ceil_seconds d = - ((- d) div second)"
proof -
  obtain m e where f: "Seconds d = (m, e)" by fastforce
  have sec: "0 < second" by (simp add: second_def)
  have neg: "(- d) div second = (if d mod second = 0 then - (d div second) else - (d div second) - 1)"
    by (rule zdiv_zminus1_eq_if) (simp add: second_def)
  show ?thesis
  proof (cases "d mod second = 0")
    case True
    have "m = d div second * 2 ^ e"
      using f float64_whole [of "d div second * 2 ^ 165" 165 e "d div second"] by (simp add: Seconds_def True float64_zero [OF sec])
    with f assms(1) True show ?thesis by (simp add: ceil_seconds_def neg flip: mult_minus_left)
  next
    case False
    from Seconds_between [OF assms False f] have "- (d div second + 1) * 2 ^ e \<le> - m" "- m < - (d div second) * 2 ^ e" by (auto simp: algebra_simps)
    then have "(- m) div 2 ^ e = - (d div second + 1)" by (intro int_div_pos_eq [of _ _ _ "- m + (d div second + 1) * 2 ^ e"]) (auto simp: algebra_simps)
    with f assms(1) False show ?thesis by (simp add: ceil_seconds_def neg)
  qed
qed

lemma ceil_seconds_bounds:
  assumes "0 \<le> d" "d < 2 ^ 24 * second"
  shows "d \<le> ceil_seconds d * second" "ceil_seconds d * second < d + second"
  unfolding ceil_seconds_exact [OF assms] using div_bounds [of second "- d"] by (simp_all add: second_def)

section \<open>Integers and durations\<close>

text \<open>\<^verbatim>\<open>strconv.Atoi\<close>: an optional sign and decimal digits, in the range of an int64.\<close>

definition Atoi :: "string \<Rightarrow> int option" where
  "Atoi s =
     (let neg = (s \<noteq> [] \<and> hd s = CHR ''-''); ds = (if s \<noteq> [] \<and> hd s \<in> {CHR ''-'', CHR ''+''} then tl s else s) in
      if ds = [] \<or> \<not> list_all is_digit ds then None
      else let n = (if neg then - read_digits ds else read_digits ds) in
        if in_int64 n then Some n else None)"

lemma Atoi_range: "Atoi s = Some n \<Longrightarrow> in_int64 n"
  by (auto simp: Atoi_def Let_def split: if_splits)

text \<open>The loop of \<^verbatim>\<open>time.ParseDuration\<close>. A number is a run of digits with at most one point; the whole
  part is an error above $2^{63}$, the fraction keeps the digits that fit and counts them. A unit is
  the run of bytes up to the next digit or point.\<close>

definition take_digits :: "string \<Rightarrow> string \<times> string" where
  "take_digits s = (takeWhile is_digit s, dropWhile is_digit s)"

fun leading_frac :: "string \<Rightarrow> int \<Rightarrow> nat \<Rightarrow> int \<times> nat" where
  "leading_frac [] x k = (x, k)"
| "leading_frac (c # cs) x k =
     (if x > max_int64 div 10 \<or> x * 10 + digit_val c > 2 ^ 63 then (x, k)
      else leading_frac cs (x * 10 + digit_val c) (Suc k))"

definition duration_unit :: "string \<Rightarrow> int option" where
  "duration_unit u = map_of [(''ns'', 1), (''us'', 1000), ([CHR 0xC2, CHR 0xB5, CHR ''s''], 1000), ([CHR 0xCE, CHR 0xBC, CHR ''s''], 1000),
     (''ms'', 1000000), (''s'', second), (''m'', minute), (''h'', hour)] u"

text \<open>\<^verbatim>\<open>uint64(float64(f) * (float64(unit) / scale))\<close> with the three roundings to double precision.\<close>

definition f64_trunc_mul :: "json option \<Rightarrow> json option \<Rightarrow> int" where
  "f64_trunc_mul a b =
     (case (a, b) of
        (Some (JFloat m e), Some (JFloat m' e')) \<Rightarrow>
          (let (p, q) = f64_ratio m e; (p', q') = f64_ratio m' e' in
           case f64_of_ratio False (p * p') (q * q') of
             Some (JFloat m'' e'') \<Rightarrow> (let (p'', q'') = f64_ratio m'' e'' in p'' div q'')
           | _ \<Rightarrow> 0)
      | _ \<Rightarrow> 0)"

definition frac_nanos :: "int \<Rightarrow> nat \<Rightarrow> int \<Rightarrow> int" where
  "frac_nanos f k unit = (if f = 0 then 0 else f64_trunc_mul (f64_of_ratio False f 1) (f64_of_ratio False unit (10 ^ k)))"

definition unit_byte :: "char \<Rightarrow> bool" where
  "unit_byte c \<longleftrightarrow> \<not> (c = CHR ''.'' \<or> is_digit c)"

lemma dropWhile_shorter: "takeWhile P s \<noteq> [] \<Longrightarrow> length (dropWhile P s) < length s"
  by (metis length_append length_greater_0_conv less_add_same_cancel2 takeWhile_dropWhile_id)

lemma take_digits_length: "take_digits s = (ds, t) \<Longrightarrow> length t \<le> length s"
  by (auto simp: take_digits_def length_dropWhile_le)

function parse_parts :: "string \<Rightarrow> int \<Rightarrow> int option" where
  "parse_parts s d =
     (if s = [] then Some d
      else
        let (ds, s1) = take_digits s;
            (fs, s2) = (if s1 \<noteq> [] \<and> hd s1 = CHR ''.'' then take_digits (tl s1) else ([], s1));
            u = takeWhile unit_byte s2; s3 = dropWhile unit_byte s2 in
        if ds = [] \<and> fs = [] \<or> read_digits ds > 2 ^ 63 \<or> u = [] then None
        else case duration_unit u of
          None \<Rightarrow> None
        | Some unit \<Rightarrow>
            let (f, k) = leading_frac fs 0 0; v = read_digits ds * unit + frac_nanos f k unit in
            if read_digits ds > 2 ^ 63 div unit \<or> v > 2 ^ 63 \<or> (d + v) mod 2 ^ 64 > 2 ^ 63 then None
            else parse_parts s3 ((d + v) mod 2 ^ 64))"
  by pat_completeness auto

termination
proof (relation "measure (\<lambda>(s, d). length s)")
  fix s :: string and d :: int and x ds s1 y fs s2 u s3 unit z f k v
  assume s: "s \<noteq> []" and x: "x = take_digits s" "(ds, s1) = x"
    and y: "y = (if s1 \<noteq> [] \<and> hd s1 = CHR ''.'' then take_digits (tl s1) else ([], s1))" "(fs, s2) = y"
    and u: "u = takeWhile unit_byte s2" "s3 = dropWhile unit_byte s2" "\<not> (ds = [] \<and> fs = [] \<or> read_digits ds > 2 ^ 63 \<or> u = [])"
  have "length s1 \<le> length s" using x take_digits_length by metis
  moreover have "length s2 \<le> length s1" using y take_digits_length [of "tl s1" fs s2] by (auto split: if_splits)
  moreover have "length s3 < length s2" using u dropWhile_shorter [of unit_byte s2] by simp
  ultimately show "((s3, (d + v) mod 2 ^ 64), (s, d)) \<in> measure (\<lambda>(s, d). length s)" by simp
qed simp

declare parse_parts.simps [simp del]

definition ParseDuration :: "string \<Rightarrow> int option" where
  "ParseDuration s =
     (let neg = (s \<noteq> [] \<and> hd s = CHR ''-''); r = (if s \<noteq> [] \<and> hd s \<in> {CHR ''-'', CHR ''+''} then tl s else s) in
      if r = ''0'' then Some 0
      else if r = [] then None
      else case parse_parts r 0 of
        None \<Rightarrow> None
      | Some d \<Rightarrow> if neg then Some (- d) else if d > max_int64 then None else Some d)"

lemma parse_parts_range: "parse_parts s d = Some r \<Longrightarrow> 0 \<le> d \<Longrightarrow> d \<le> 2 ^ 63 \<Longrightarrow> 0 \<le> r \<and> r \<le> 2 ^ 63"
proof (induction s d rule: parse_parts.induct)
  case (1 s d)
  show ?case
  proof (cases "s = []")
    case True
    with 1 show ?thesis by (simp add: parse_parts.simps)
  next
    case False
    obtain ds s1 where ds: "take_digits s = (ds, s1)" by fastforce
    obtain fs s2 where fs: "(if s1 \<noteq> [] \<and> hd s1 = CHR ''.'' then take_digits (tl s1) else ([], s1)) = (fs, s2)" by fastforce
    obtain f k where f: "leading_frac fs 0 0 = (f, k)" by fastforce
    from 1(2) False ds fs f obtain unit where
      u: "\<not> (ds = [] \<and> fs = [] \<or> read_digits ds > 2 ^ 63 \<or> takeWhile unit_byte s2 = [])" "duration_unit (takeWhile unit_byte s2) = Some unit"
      and r: "\<not> (read_digits ds > 2 ^ 63 div unit \<or> read_digits ds * unit + frac_nanos f k unit > 2 ^ 63 \<or>
        (d + (read_digits ds * unit + frac_nanos f k unit)) mod 2 ^ 64 > 2 ^ 63)"
      "parse_parts (dropWhile unit_byte s2) ((d + (read_digits ds * unit + frac_nanos f k unit)) mod 2 ^ 64) = Some r"
      by (subst (asm) (1) parse_parts.simps) (simp add: Let_def split: if_splits option.splits)
    show ?thesis
      using 1(1) [OF False refl ds [symmetric] refl fs [symmetric] refl refl u refl f [symmetric] refl r(1)] r by simp
  qed
qed

lemma ParseDuration_range: "ParseDuration s = Some d \<Longrightarrow> in_int64 d"
  by (auto simp: ParseDuration_def Let_def in_int64_def max_int64_def dest!: parse_parts_range split: if_splits option.splits)

section \<open>Request paths\<close>

text \<open>The path cleaning of \<^verbatim>\<open>http.ServeMux\<close>: \<^verbatim>\<open>path.Clean\<close> of a rooted path, with a trailing slash kept.\<close>

fun clean_segs :: "string list \<Rightarrow> string list \<Rightarrow> string list" where
  "clean_segs acc [] = rev acc"
| "clean_segs acc (s # ss) =
     (if s = [] \<or> s = ''.'' then clean_segs acc ss
      else if s = ''..'' then clean_segs (drop 1 acc) ss
      else clean_segs (s # acc) ss)"

definition cleanPath :: "string \<Rightarrow> string" where
  "cleanPath p =
     (if p = [] then ''/''
      else
        let p = (if hd p = CHR ''/'' then p else CHR ''/'' # p);
            np = concat (map (\<lambda>s. CHR ''/'' # s) (clean_segs [] (Split p CHR ''/''))) in
        if np = [] then ''/'' else if last p = CHR ''/'' then np @ ''/'' else np)"

end
