(* ===== verification/Ratelimit.thy ===== *)
theory Ratelimit
  imports Go_Net
begin

text \<open>
  \<^verbatim>\<open>sidecar/internal/httpx/ratelimit.go\<close>: the per-address limiter in front of the registration endpoint.
  \<open>take_token\<close> is the section under the lock, \<open>Middleware\<close> the handler, \<open>gc_tick\<close> one wake-up of the
  background sweep. The lemmas on runs treat requests and sweeps in the order in which they take the lock, each
  with the time it works with. The code reads the clock just before it takes the lock, so that two concurrent requests may enter in
  the opposite order of their times; where a lemma asks for sorted times, this is an assumption on the scheduling.
\<close>

section \<open>The limiter\<close>

record bucket =
  bk_tokens :: int
  bk_windowStart :: time
  bk_lastSeen :: time

record Limiter =
  lm_limit :: int
  lm_window :: int
  lm_buckets :: "(string \<times> bucket) list"

definition NewLimiter :: "int \<Rightarrow> int \<Rightarrow> Limiter" where
  "NewLimiter limit window = \<lparr>lm_limit = limit, lm_window = window, lm_buckets = []\<rparr>"

definition clientIP :: "request \<Rightarrow> string" where
  "clientIP r =
     (let xff = ReqGet r ''X-Forwarded-For'' in
      if xff \<noteq> [] then TrimSpace (if CHR '','' \<in> set xff then before_byte CHR '','' xff else xff)
      else case SplitHost (rq_RemoteAddr r) of None \<Rightarrow> rq_RemoteAddr r | Some host \<Rightarrow> host)"

text \<open>The bucket a request at time \<open>now\<close> is charged to.\<close>

definition current_bucket :: "Limiter \<Rightarrow> time \<Rightarrow> string \<Rightarrow> bucket" where
  "current_bucket l now ip =
     (case map_of (lm_buckets l) ip of
        Some b \<Rightarrow> if time_Sub now (bk_windowStart b) \<ge> lm_window l
                  then \<lparr>bk_tokens = lm_limit l, bk_windowStart = now, bk_lastSeen = now\<rparr> else b
      | None \<Rightarrow> \<lparr>bk_tokens = lm_limit l, bk_windowStart = now, bk_lastSeen = now\<rparr>)"

definition put_bucket :: "string \<Rightarrow> bucket \<Rightarrow> Limiter \<Rightarrow> Limiter" where
  "put_bucket ip b l = l\<lparr>lm_buckets := alist_set ip b (lm_buckets l)\<rparr>"

text \<open>The result is \<open>None\<close> when the request may pass, else the seconds of \<^verbatim>\<open>Retry-After\<close>.\<close>

definition take_token :: "Limiter \<Rightarrow> time \<Rightarrow> string \<Rightarrow> int option \<times> Limiter" where
  "take_token l now ip =
     (let b = current_bucket l now ip in
      if bk_tokens b \<le> 0 then
        (Some (max 1 (ceil_seconds (time_Sub (bk_windowStart b + lm_window l) now))), put_bucket ip b l)
      else (None, put_bucket ip (b\<lparr>bk_tokens := bk_tokens b - 1, bk_lastSeen := now\<rparr>) l))"

definition too_many :: "int \<Rightarrow> response" where
  "too_many retryAfter = (http_Error ''rate limit exceeded'' 429)\<lparr>rs_Header :=
     hdr_Set (rs_Header (http_Error ''rate limit exceeded'' 429)) ''Retry-After'' (show_int retryAfter)\<rparr>"

definition Middleware :: "env \<Rightarrow> Limiter \<Rightarrow> (request \<Rightarrow> response eff) \<Rightarrow> request \<Rightarrow> (response \<times> Limiter) eff" where
  "Middleware E l handler r = do {
     now \<leftarrow> time_Now E;
     case take_token l now (clientIP r) of
       (Some retryAfter, l') \<Rightarrow> State_Monad.return (too_many retryAfter, l')
     | (None, l') \<Rightarrow> do { resp \<leftarrow> handler r; State_Monad.return (resp, l') } }"

definition gc_tick :: "time \<Rightarrow> Limiter \<Rightarrow> Limiter" where
  "gc_tick now l =
     (let cutoff = now + wrap64 (- 2 * lm_window l) in
      l\<lparr>lm_buckets := filter (\<lambda>(ip, b). \<not> bk_lastSeen b < cutoff) (lm_buckets l)\<rparr>)"

section \<open>Runs\<close>

datatype lim_event = Request string | Sweep

text \<open>The addresses whose requests passed, with their times, in order.\<close>

fun lim_run :: "Limiter \<Rightarrow> (time \<times> lim_event) list \<Rightarrow> (time \<times> string \<times> bool) list" where
  "lim_run l [] = []"
| "lim_run l ((t, Request ip) # es) = (case take_token l t ip of (a, l') \<Rightarrow> (t, ip, a = None) # lim_run l' es)"
| "lim_run l ((t, Sweep) # es) = lim_run (gc_tick t l) es"

definition is_request :: "time \<times> lim_event \<Rightarrow> bool" where
  "is_request e \<longleftrightarrow> snd e \<noteq> Sweep"

lemma is_request_simps [simp]: "is_request (t, Request ip)" "\<not> is_request (t, Sweep)"
  by (simp_all add: is_request_def)

text \<open>The limiter after these events.\<close>

fun lim_after :: "Limiter \<Rightarrow> (time \<times> lim_event) list \<Rightarrow> Limiter" where
  "lim_after l [] = l"
| "lim_after l ((t, Request ip) # es) = lim_after (snd (take_token l t ip)) es"
| "lim_after l ((t, Sweep) # es) = lim_after (gc_tick t l) es"

text \<open>A window that a \<^verbatim>\<open>time.Duration\<close> and the sweep's factor of two can express.\<close>

definition window_ok :: "Limiter \<Rightarrow> bool" where
  "window_ok l \<longleftrightarrow> 0 < lm_window l \<and> 2 * lm_window l \<le> max_int64"

lemma window_Sub: "window_ok l \<Longrightarrow> lm_window l \<le> time_Sub t u \<longleftrightarrow> lm_window l \<le> t - u"
  by (rule time_Sub_ge) (auto simp: window_ok_def max_int64_def)

lemma put_bucket_simps [simp]:
  "lm_limit (put_bucket ip b l) = lm_limit l" "lm_window (put_bucket ip b l) = lm_window l"
  "map_of (lm_buckets (put_bucket ip b l)) = (map_of (lm_buckets l))(ip \<mapsto> b)" "window_ok (put_bucket ip b l) = window_ok l"
  by (simp_all add: put_bucket_def window_ok_def)

lemma take_token_frame [simp]:
  "lm_limit (snd (take_token l t ip)) = lm_limit l" "lm_window (snd (take_token l t ip)) = lm_window l"
  "window_ok (snd (take_token l t ip)) = window_ok l"
  by (simp_all add: take_token_def Let_def)

lemma gc_frame [simp]: "lm_limit (gc_tick t l) = lm_limit l" "lm_window (gc_tick t l) = lm_window l" "window_ok (gc_tick t l) = window_ok l"
  by (simp_all add: gc_tick_def Let_def window_ok_def)

section \<open>The sweep changes no answer\<close>

text \<open>Two limiters that answer alike from time \<open>t\<close> on: they agree on every address, except that the first may
  lack a bucket whose window is over.\<close>

definition swept :: "time \<Rightarrow> Limiter \<Rightarrow> Limiter \<Rightarrow> bool" where
  "swept t l l' \<longleftrightarrow> lm_limit l = lm_limit l' \<and> lm_window l = lm_window l' \<and>
     (\<forall>ip. map_of (lm_buckets l) ip = map_of (lm_buckets l') ip \<or>
       map_of (lm_buckets l) ip = None \<and> (\<exists>b. map_of (lm_buckets l') ip = Some b \<and> bk_windowStart b + lm_window l \<le> t))"

text \<open>No bucket was opened after it was last used.\<close>

definition lim_inv :: "time \<Rightarrow> Limiter \<Rightarrow> bool" where
  "lim_inv t l \<longleftrightarrow> distinct (map fst (lm_buckets l)) \<and>
     (\<forall>ip b. map_of (lm_buckets l) ip = Some b \<longrightarrow> bk_windowStart b \<le> bk_lastSeen b \<and> bk_lastSeen b \<le> t \<and>
       bk_tokens b \<le> lm_limit l)"

lemma lim_inv_mono: "lim_inv t l \<Longrightarrow> t \<le> t' \<Longrightarrow> lim_inv t' l"
  unfolding lim_inv_def by (meson order_trans)

lemma swept_current:
  assumes "swept t l l'" "window_ok l'" "t \<le> now"
  shows "current_bucket l now ip = current_bucket l' now ip"
proof -
  from assms(1) have lw: "lm_limit l = lm_limit l'" "lm_window l = lm_window l'" and
    b: "map_of (lm_buckets l) ip = map_of (lm_buckets l') ip \<or>
       map_of (lm_buckets l) ip = None \<and> (\<exists>b. map_of (lm_buckets l') ip = Some b \<and> bk_windowStart b + lm_window l \<le> t)"
    by (auto simp: swept_def)
  from b show ?thesis
  proof (elim disjE conjE exE)
    fix b assume "map_of (lm_buckets l) ip = None" "map_of (lm_buckets l') ip = Some b" "bk_windowStart b + lm_window l \<le> t"
    with window_Sub [OF assms(2), of now "bk_windowStart b"] assms(3) lw show ?thesis by (simp add: current_bucket_def)
  qed (use lw in \<open>simp add: current_bucket_def split: option.split\<close>)
qed

lemma swept_take:
  assumes "swept t l l'" "window_ok l'" "t \<le> now"
  shows "fst (take_token l now ip) = fst (take_token l' now ip)" "swept now (snd (take_token l now ip)) (snd (take_token l' now ip))"
proof -
  note c = swept_current [OF assms, of ip]
  have lw: "lm_window l = lm_window l'" "lm_limit l = lm_limit l'" using assms(1) by (auto simp: swept_def)
  show "fst (take_token l now ip) = fst (take_token l' now ip)" by (simp add: take_token_def c lw Let_def)
  have "swept now (put_bucket ip b l) (put_bucket ip b l')" for b
    using assms(1,3) by (fastforce simp: swept_def)
  then show "swept now (snd (take_token l now ip)) (snd (take_token l' now ip))" by (simp add: take_token_def c Let_def)
qed

lemma current_bucket_inv:
  assumes "lim_inv t l" "t \<le> now"
  shows "bk_windowStart (current_bucket l now ip) \<le> bk_lastSeen (current_bucket l now ip)"
    "bk_lastSeen (current_bucket l now ip) \<le> now" "bk_tokens (current_bucket l now ip) \<le> lm_limit l"
  using assms by (auto simp: current_bucket_def lim_inv_def split: option.split) fastforce

lemma lim_inv_take:
  assumes "lim_inv t l" "t \<le> now"
  shows "lim_inv now (snd (take_token l now ip))"
proof -
  note c = current_bucket_inv [OF assms, of ip]
  have "lim_inv now (put_bucket ip b l)" if "bk_windowStart b \<le> bk_lastSeen b" "bk_lastSeen b \<le> now" "bk_tokens b \<le> lm_limit l" for b
    using assms that by (fastforce simp: lim_inv_def put_bucket_def intro: distinct_alist_set)
  with c show ?thesis by (simp add: take_token_def Let_def)
qed

lemma map_of_filter_distinct:
  "distinct (map fst m) \<Longrightarrow> map_of (filter P m) k = (case map_of m k of Some v \<Rightarrow> if P (k, v) then Some v else None | None \<Rightarrow> None)"
  by (induction m) (auto simp: image_iff split: option.splits dest: map_of_SomeD)

lemma lim_inv_gc: "lim_inv t l \<Longrightarrow> t \<le> now \<Longrightarrow> lim_inv now (gc_tick now l)"
  by (fastforce simp: lim_inv_def gc_tick_def Let_def map_of_filter_distinct distinct_map_filter split: option.splits if_splits)

lemma swept_gc:
  assumes "swept t l l'" "lim_inv t l" "window_ok l'" "t \<le> now"
  shows "swept now (gc_tick now l) l'"
proof -
  have lw: "lm_window l = lm_window l'" using assms(1) by (simp add: swept_def)
  have w: "wrap64 (- (2 * lm_window l)) = - (2 * lm_window l)"
    using assms(3) lw by (intro wrap64_id) (auto simp: window_ok_def in_int64_def max_int64_def)
  have d: "distinct (map fst (lm_buckets l))" using assms(2) by (simp add: lim_inv_def)
  have "bk_windowStart b + lm_window l \<le> now" if "map_of (lm_buckets l) ip = Some b" "bk_lastSeen b < now - 2 * lm_window l" for ip b
    using assms(2,3) that lw by (fastforce simp: lim_inv_def window_ok_def)
  then have "map_of (lm_buckets (gc_tick now l)) ip = map_of (lm_buckets l) ip \<or>
      map_of (lm_buckets (gc_tick now l)) ip = None \<and> (\<exists>b. map_of (lm_buckets l) ip = Some b \<and> bk_windowStart b + lm_window l \<le> now)" for ip
    by (auto simp: gc_tick_def Let_def w map_of_filter_distinct [OF d] split: option.split)
  moreover have "map_of (lm_buckets l) ip = map_of (lm_buckets l') ip \<or>
       map_of (lm_buckets l) ip = None \<and> (\<exists>b. map_of (lm_buckets l') ip = Some b \<and> bk_windowStart b + lm_window l \<le> now)" for ip
    using assms(1,4) unfolding swept_def by force
  ultimately show ?thesis
    using assms(1) unfolding swept_def gc_frame by (metis option.distinct(1))
qed

lemma lim_run_swept:
  assumes "swept t l l'" "lim_inv t l" "window_ok l'" "sorted (t # map fst es)"
  shows "lim_run l es = lim_run l' (filter is_request es)"
  using assms
proof (induction l es arbitrary: t l' rule: lim_run.induct)
  case (2 l t1 ip es)
  have le: "t \<le> t1" and srt: "sorted (t1 # map fst es)" using "2.prems"(4) by auto
  note s = swept_take [OF "2.prems"(1,3) le, of ip]
  obtain a l1 where t: "take_token l t1 ip = (a, l1)" by fastforce
  have w: "window_ok (snd (take_token l' t1 ip))" using "2.prems"(3) by simp
  have i: "lim_inv t1 l1" using lim_inv_take [OF "2.prems"(2) le, of ip] t by simp
  obtain a' l1' where t': "take_token l' t1 ip = (a', l1')" by fastforce
  from "2.IH" [OF t [symmetric], of t1 l1'] s i w srt t t' have "lim_run l1 es = lim_run l1' (filter is_request es)" "a = a'" by simp_all
  then show ?case by (simp add: t t')
next
  case (3 l t1 es)
  have le: "t \<le> t1" and srt: "sorted (t1 # map fst es)" using "3.prems"(4) by auto
  from "3.IH" [OF swept_gc [OF "3.prems"(1,2,3) le] lim_inv_gc [OF "3.prems"(2) le] "3.prems"(3) srt]
  show ?case by simp
qed simp

section \<open>How many requests pass\<close>

text \<open>A log of passed requests of one address: the time of each and the start of its window.\<close>

definition log_ok :: "int \<Rightarrow> int \<Rightarrow> (time \<times> time) list \<Rightarrow> bool" where
  "log_ok limit W L \<longleftrightarrow> (\<forall>(s, ws) \<in> set L. ws \<le> s \<and> s < ws + W) \<and>
     (\<forall>(s, ws) \<in> set L. \<forall>(s', ws') \<in> set L. ws = ws' \<or> ws + W \<le> ws' \<or> ws' + W \<le> ws) \<and>
     (\<forall>ws. int (length (filter (\<lambda>p. snd p = ws) L)) \<le> limit)"

lemma length_filter_sum:
  "finite A \<Longrightarrow> snd ` set (filter P L) \<subseteq> A \<Longrightarrow> length (filter P L) = (\<Sum>a \<in> A. length (filter (\<lambda>p. P p \<and> snd p = a) L))"
proof (induction L)
  case (Cons p L)
  have "(\<Sum>a \<in> A. length (filter (\<lambda>q. P q \<and> snd q = a) (p # L))) =
      (\<Sum>a \<in> A. (if P p \<and> snd p = a then 1 else 0) + length (filter (\<lambda>q. P q \<and> snd q = a) L))"
    by (rule sum.cong) auto
  also have "\<dots> = (\<Sum>a \<in> A. (if P p \<and> snd p = a then 1 else 0)) + length (filter P L)"
    using Cons by (simp add: sum.distrib split: if_splits)
  also have "(\<Sum>a \<in> A. (if P p \<and> snd p = a then 1 else 0)) = (if P p then 1 else 0 :: nat)"
    using Cons.prems by (auto simp: sum.delta)
  finally show ?case by simp
qed simp

text \<open>Windows that meet an interval as long as a window are at most two.\<close>

lemma two_windows:
  assumes "finite S" "\<And>ws. ws \<in> S \<Longrightarrow> a - W < ws \<and> ws < a + W" "\<And>x y. x \<in> S \<Longrightarrow> y \<in> S \<Longrightarrow> x = y \<or> x + W \<le> y \<or> y + W \<le> (x::int)"
  shows "card S \<le> 2"
proof (cases "S = {}")
  case False
  let ?m = "Min S"
  have m: "?m \<in> S" using assms(1) False by simp
  have u: "x = y" if "x \<in> S - {?m}" "y \<in> S - {?m}" for x y
  proof -
    have "?m \<le> x" "?m \<le> y" using that assms(1) by auto
    with assms(3) [of ?m x] assms(3) [of ?m y] assms(2) [of ?m] m that have "a < x" "a < y" by auto
    moreover have "x < a + W" "y < a + W" using assms(2) that by auto
    moreover have "x = y \<or> x + W \<le> y \<or> y + W \<le> x" using assms(3) that by simp
    ultimately show ?thesis by linarith
  qed
  have "card (S - {?m}) \<le> 1"
    using u by (metis card.infinite card_le_Suc0_iff_eq One_nat_def zero_le_one)
  moreover have "card S = Suc (card (S - {?m}))" using m assms(1) by (metis card_Suc_Diff1)
  ultimately show ?thesis by simp
qed simp

lemma length_filter_conj: "length (filter (\<lambda>p. P p \<and> Q p) L) \<le> length (filter Q L)"
  by (induction L) auto

lemma log_interval:
  assumes "log_ok limit W L" "0 \<le> limit"
  shows "int (length (filter (\<lambda>(s, ws). a \<le> s \<and> s < a + W) L)) \<le> 2 * limit"
proof -
  let ?P = "\<lambda>(s, ws). a \<le> s \<and> s < a + W"
  let ?S = "snd ` set (filter ?P L)"
  have "a - W < ws \<and> ws < a + W" if "ws \<in> ?S" for ws
    using that assms(1) by (fastforce simp: log_ok_def)
  moreover have "x = y \<or> x + W \<le> y \<or> y + W \<le> x" if "x \<in> ?S" "y \<in> ?S" for x y
    using that assms(1) by (fastforce simp: log_ok_def)
  ultimately have c: "card ?S \<le> 2" using two_windows [of ?S a W] by blast
  have "int (length (filter (\<lambda>p. ?P p \<and> snd p = ws) L)) \<le> limit" for ws
  proof -
    have "length (filter (\<lambda>p. ?P p \<and> snd p = ws) L) \<le> length (filter (\<lambda>p. snd p = ws) L)" by (rule length_filter_conj)
    moreover have "int (length (filter (\<lambda>p. snd p = ws) L)) \<le> limit" using assms(1) by (simp add: log_ok_def)
    ultimately show ?thesis by linarith
  qed
  then have "(\<Sum>ws \<in> ?S. int (length (filter (\<lambda>p. ?P p \<and> snd p = ws) L))) \<le> of_nat (card ?S) * limit"
    by (intro sum_bounded_above)
  moreover have "of_nat (card ?S) * limit \<le> 2 * limit" using c assms(2) by (intro mult_right_mono) auto
  ultimately show ?thesis
    using length_filter_sum [of ?S ?P L] by simp
qed

text \<open>The log of a run without sweeps.\<close>

fun lim_log :: "Limiter \<Rightarrow> string \<Rightarrow> (time \<times> lim_event) list \<Rightarrow> (time \<times> time) list" where
  "lim_log l ip [] = []"
| "lim_log l ip ((t, Request ip') # es) =
     (if ip' = ip \<and> fst (take_token l t ip') = None then [(t, bk_windowStart (current_bucket l t ip))] else []) @
     lim_log (snd (take_token l t ip')) ip es"
| "lim_log l ip ((t, Sweep) # es) = lim_log l ip es"

definition passed :: "string \<Rightarrow> (time \<times> string \<times> bool) list \<Rightarrow> time list" where
  "passed ip rs = map fst (filter (\<lambda>(t, ip', ok). ip' = ip \<and> ok) rs)"

lemma lim_log_passed: "list_all is_request es \<Longrightarrow> map fst (lim_log l ip es) = passed ip (lim_run l es)"
  by (induction l ip es rule: lim_log.induct) (auto simp: passed_def split: prod.split)

text \<open>How a future log continues the bucket of its address at time \<open>t\<close>.\<close>

definition continues :: "Limiter \<Rightarrow> string \<Rightarrow> time \<Rightarrow> (time \<times> time) list \<Rightarrow> bool" where
  "continues l ip t L \<longleftrightarrow>
     (case map_of (lm_buckets l) ip of
        None \<Rightarrow> \<forall>p \<in> set L. t \<le> snd p
      | Some b \<Rightarrow> (\<forall>p \<in> set L. snd p = bk_windowStart b \<or> bk_windowStart b + lm_window l \<le> snd p) \<and>
          int (length (filter (\<lambda>p. snd p = bk_windowStart b) L)) \<le> max 0 (bk_tokens b))"

lemma current_bucket_window:
  assumes "lim_inv t l" "window_ok l" "t \<le> now"
  shows "bk_windowStart (current_bucket l now ip) \<le> now \<and> now < bk_windowStart (current_bucket l now ip) + lm_window l"
  using assms window_Sub [OF assms(2)] current_bucket_inv [OF assms(1,3), of ip]
  by (auto simp: current_bucket_def window_ok_def split: option.splits if_splits)

lemma continues_current:
  assumes "lim_inv t l" "window_ok l" "t \<le> now"
    and "\<forall>p \<in> set L. snd p = bk_windowStart (current_bucket l now ip) \<or> bk_windowStart (current_bucket l now ip) + lm_window l \<le> snd p"
    and "int (length (filter (\<lambda>p. snd p = bk_windowStart (current_bucket l now ip)) L)) \<le> max 0 (bk_tokens (current_bucket l now ip))"
  shows "continues l ip t L"
proof (cases "map_of (lm_buckets l) ip")
  case None
  with assms show ?thesis by (force simp: continues_def current_bucket_def window_ok_def)
next
  case (Some b)
  show ?thesis
  proof (cases "lm_window l \<le> now - bk_windowStart b")
    case False
    with Some assms(4,5) window_Sub [OF assms(2)] show ?thesis by (simp add: continues_def current_bucket_def)
  next
    case True
    have c: "bk_windowStart (current_bucket l now ip) = now"
      using True Some window_Sub [OF assms(2)] by (simp add: current_bucket_def)
    have "bk_windowStart b + lm_window l \<le> snd p" if "p \<in> set L" for p
      using assms(2,4) True that unfolding c window_ok_def by fastforce
    moreover from this have "filter (\<lambda>p. snd p = bk_windowStart b) L = []"
      using assms(2) by (fastforce simp: filter_empty_conv window_ok_def)
    ultimately show ?thesis by (simp add: continues_def Some)
  qed
qed

lemma log_ok_Cons:
  assumes "log_ok limit W L" "ws \<le> s" "s < ws + W" "\<forall>p \<in> set L. snd p = ws \<or> ws + W \<le> snd p"
    "int (length (filter (\<lambda>p. snd p = ws) L)) < limit"
  shows "log_ok limit W ((s, ws) # L)"
  using assms unfolding log_ok_def by (auto simp: case_prod_beta)

lemma lim_log_ok:
  assumes "lim_inv t l" "window_ok l" "0 \<le> lm_limit l" "sorted (t # map fst es)"
  shows "log_ok (lm_limit l) (lm_window l) (lim_log l ip es) \<and> continues l ip t (lim_log l ip es)"
  using assms
proof (induction l ip es arbitrary: t rule: lim_log.induct)
  case (2 l ip t1 ip' es)
  have le: "t \<le> t1" and srt: "sorted (t1 # map fst es)" using "2.prems"(4) by auto
  let ?l = "snd (take_token l t1 ip')" and ?L = "lim_log (snd (take_token l t1 ip')) ip es"
  from "2.IH" [of t1] "2.prems"(2,3) lim_inv_take [OF "2.prems"(1) le, of ip'] srt
  have ih: "log_ok (lm_limit l) (lm_window l) ?L" "continues ?l ip t1 ?L" by simp_all
  show ?case
  proof (cases "ip' = ip")
    case False
    then have "map_of (lm_buckets ?l) ip = map_of (lm_buckets l) ip" by (simp add: take_token_def Let_def)
    with ih(2) le have "continues l ip t ?L" by (force simp: continues_def split: option.splits)
    with ih(1) False show ?thesis by simp
  next
    case True
    let ?c = "current_bucket l t1 ip"
    note cw = current_bucket_window [OF "2.prems"(1,2) le, of ip] and ci = current_bucket_inv [OF "2.prems"(1) le, of ip]
    show ?thesis
    proof (cases "bk_tokens ?c \<le> 0")
      case no: True
      with True ih(2) have "continues l ip t ?L"
        by (intro continues_current [OF "2.prems"(1,2) le]) (simp_all add: continues_def take_token_def Let_def)
      with ih(1) True no show ?thesis by (simp add: take_token_def Let_def)
    next
      case yes: False
      with True ih(2) have c: "\<forall>p \<in> set ?L. snd p = bk_windowStart ?c \<or> bk_windowStart ?c + lm_window l \<le> snd p"
        "int (length (filter (\<lambda>p. snd p = bk_windowStart ?c) ?L)) \<le> bk_tokens ?c - 1"
        by (simp_all add: continues_def take_token_def Let_def)
      have "log_ok (lm_limit l) (lm_window l) ((t1, bk_windowStart ?c) # ?L)"
        using c cw ci by (intro log_ok_Cons [OF ih(1)]) auto
      moreover have "continues l ip t ((t1, bk_windowStart ?c) # ?L)"
        using c yes by (intro continues_current [OF "2.prems"(1,2) le]) auto
      moreover have "lim_log l ip ((t1, Request ip') # es) = (t1, bk_windowStart ?c) # ?L"
        using True yes by (simp add: take_token_def Let_def)
      ultimately show ?thesis by simp
    qed
  qed
next
  case (3 l ip t1 es)
  then have "log_ok (lm_limit l) (lm_window l) (lim_log l ip es) \<and> continues l ip t1 (lim_log l ip es)"
    by (intro "3.IH" lim_inv_mono [of t l t1]) auto
  with "3.prems"(4) show ?case by (force simp: continues_def split: option.splits)
qed (simp add: log_ok_def continues_def split: option.split)

section \<open>Properties\<close>

lemma lim_inv_new: "lim_inv t (NewLimiter limit window)"
  by (simp add: lim_inv_def NewLimiter_def)

lemma swept_refl: "swept t l l"
  by (simp add: swept_def)

lemma window_ok_new: "window_ok (NewLimiter limit window) \<longleftrightarrow> 0 < window \<and> 2 * window \<le> max_int64"
  by (simp add: window_ok_def NewLimiter_def)

lemma new_simps [simp]: "lm_limit (NewLimiter limit window) = limit" "lm_window (NewLimiter limit window) = window"
  by (simp_all add: NewLimiter_def)

lemma sorted_le_first: "sorted ts \<Longrightarrow> \<exists>t::int. sorted (t # ts)"
  by (cases ts) (auto intro: exI [of _ "hd ts"])

text \<open>
  Property C21. The background sweep is invisible. For any interleaving of requests and sweeps in the order of
  their times, every request gets the same answer as from a limiter that never removes a bucket.
\<close>

theorem sweep_changes_no_answer:
  assumes "0 < window" "2 * window \<le> max_int64" "sorted (map fst es)"
  shows "lim_run (NewLimiter limit window) es = lim_run (NewLimiter limit window) (filter is_request es)"
proof -
  from sorted_le_first [OF assms(3)] obtain t where "sorted (t # map fst es)" by blast
  with assms(1,2) show ?thesis
    by (intro lim_run_swept [of t] swept_refl lim_inv_new) (simp_all add: window_ok_new)
qed

theorem sweep_changes_no_answer_witness:
  "lim_run (NewLimiter 1 hour) [(0, Request ''a''), (3 * hour, Sweep), (4 * hour, Request ''a'')] = [(0, ''a'', True), (4 * hour, ''a'', True)]"
proof -
  have "lim_run (NewLimiter 1 hour) [(0, Request ''a''), (3 * hour, Sweep), (4 * hour, Request ''a'')] =
      lim_run (NewLimiter 1 hour) (filter is_request [(0, Request ''a''), (3 * hour, Sweep), (4 * hour, Request ''a'')])"
    by (rule sweep_changes_no_answer) (simp_all add: hour_def second_def max_int64_def)
  also have "\<dots> = [(0, ''a'', True), (4 * hour, ''a'', True)]"
    by (simp add: take_token_def current_bucket_def put_bucket_def NewLimiter_def time_Sub_def max_int64_def hour_def second_def)
  finally show ?thesis .
qed

text \<open>
  Property C20. The bound the limiter really gives: whatever the interleaving of requests and sweeps, from one
  address at most twice the limit pass in any interval as long as the window. The requests take the lock in the order of their times.
\<close>

theorem rate_limit_interval_bound:
  assumes "0 < window" "2 * window \<le> max_int64" "0 \<le> limit" "sorted (map fst es)"
  shows "int (length (filter (\<lambda>t. a \<le> t \<and> t < a + window) (passed ip (lim_run (NewLimiter limit window) es)))) \<le> 2 * limit"
proof -
  from sorted_le_first [OF assms(4)] obtain t where t: "sorted (t # map fst es)" by blast
  let ?l = "NewLimiter limit window" and ?es = "filter is_request es"
  have w: "window_ok ?l" using assms(1,2) by (simp add: window_ok_new)
  have run: "lim_run ?l es = lim_run ?l ?es" by (rule lim_run_swept [OF swept_refl lim_inv_new w t])
  have "sorted (t # map fst ?es)" using t by (auto simp: sorted_map sorted_wrt_filter)
  from lim_log_ok [OF lim_inv_new w _ this, of ip] assms(3) have "log_ok limit window (lim_log ?l ip ?es)" by simp
  from log_interval [OF this assms(3), of a] have
    "int (length (filter (\<lambda>t. a \<le> t \<and> t < a + window) (map fst (lim_log ?l ip ?es)))) \<le> 2 * limit"
    by (simp add: filter_map comp_def case_prod_unfold)
  moreover have "list_all is_request ?es" by (simp add: list_all_iff)
  ultimately show ?thesis by (simp add: lim_log_passed run)
qed

theorem rate_limit_interval_bound_witness:
  "int (length (filter (\<lambda>t. 0 \<le> t \<and> t < 0 + hour) (passed ''a'' (lim_run (NewLimiter 1 hour) [(0, Request ''a''), (second, Request ''a'')])))) \<le> 2 * 1"
  by (rule rate_limit_interval_bound) (simp_all add: hour_def second_def max_int64_def)

lemma lim_after_frame [simp]:
  "lm_limit (lim_after l es) = lm_limit l" "lm_window (lim_after l es) = lm_window l" "window_ok (lim_after l es) = window_ok l"
  by (induction l es rule: lim_after.induct) simp_all

lemma lim_inv_after:
  "lim_inv t l \<Longrightarrow> sorted (t # map fst es @ [now]) \<Longrightarrow> lim_inv now (lim_after l es)"
proof (induction l es arbitrary: t rule: lim_after.induct)
  case (1 l)
  then show ?case by (auto intro: lim_inv_mono)
next
  case (2 l t1 ip es)
  then show ?case by (auto intro!: "2.IH" [of t1] lim_inv_take [of t])
next
  case (3 l t1 es)
  then show ?case by (auto intro!: "3.IH" [of t1] lim_inv_gc [of t])
qed

lemma lim_run_append: "lim_run l (es @ es') = lim_run l es @ lim_run (lim_after l es) es'"
  by (induction l es rule: lim_run.induct) (auto split: prod.split)

text \<open>The window of the address is over at time \<open>D\<close>, and stays so until one of its requests passes.\<close>

definition over_by :: "time \<Rightarrow> string \<Rightarrow> Limiter \<Rightarrow> bool" where
  "over_by D ip l \<longleftrightarrow> (\<forall>b. map_of (lm_buckets l) ip = Some b \<longrightarrow> bk_windowStart b + lm_window l \<le> D)"

lemma over_by_take_other: "over_by D ip l \<Longrightarrow> ip' \<noteq> ip \<Longrightarrow> over_by D ip (snd (take_token l t ip'))"
  by (simp add: over_by_def take_token_def Let_def)

lemma over_by_refused:
  assumes "over_by D ip l" "0 < lm_limit l" "fst (take_token l t ip) \<noteq> None"
  shows "over_by D ip (snd (take_token l t ip))"
proof -
  let ?b = "current_bucket l t ip"
  have "snd (take_token l t ip) = put_bucket ip ?b l" "bk_tokens ?b \<le> 0"
    using assms(3) by (auto simp: take_token_def Let_def split: if_splits)
  moreover have "map_of (lm_buckets l) ip = Some ?b"
    using calculation(2) assms(2) by (auto simp: current_bucket_def split: option.splits if_splits)
  ultimately show ?thesis using assms(1) by (simp add: over_by_def)
qed

lemma over_by_gc: "over_by D ip l \<Longrightarrow> distinct (map fst (lm_buckets l)) \<Longrightarrow> over_by D ip (gc_tick t l)"
  by (simp add: over_by_def) (auto simp: gc_tick_def Let_def map_of_filter_distinct split: option.splits if_splits)

lemma distinct_buckets:
  "distinct (map fst (lm_buckets l)) \<Longrightarrow> distinct (map fst (lm_buckets (snd (take_token l t ip))))"
  "distinct (map fst (lm_buckets l)) \<Longrightarrow> distinct (map fst (lm_buckets (gc_tick t l)))"
  by (simp_all add: take_token_def put_bucket_def gc_tick_def Let_def distinct_map_filter distinct_alist_set)

lemma over_by_after:
  assumes "over_by D ip l" "distinct (map fst (lm_buckets l))" "0 < lm_limit l" "\<forall>s. (s, ip, True) \<notin> set (lim_run l es)"
  shows "over_by D ip (lim_after l es)"
  using assms
proof (induction l es rule: lim_after.induct)
  case (2 l t ip' es)
  obtain a l1 where t: "take_token l t ip' = (a, l1)" by fastforce
  have "over_by D ip l1"
    using over_by_take_other [OF "2.prems"(1), of ip' t] over_by_refused [OF "2.prems"(1,3), of t] "2.prems"(4) t by (cases "ip' = ip") auto
  moreover have "distinct (map fst (lm_buckets l1))" using distinct_buckets(1) [OF "2.prems"(2), of t ip'] t by simp
  moreover have "lm_limit l1 = lm_limit l" using take_token_frame(1) [of l t ip'] t by simp
  ultimately show ?case using "2.IH" "2.prems"(3,4) t by simp
next
  case (3 l t es)
  then show ?case using over_by_gc [OF "3.prems"(1,2), of t] distinct_buckets(2) [OF "3.prems"(2), of t] by simp
qed simp

lemma over_by_passes: "over_by D ip l \<Longrightarrow> window_ok l \<Longrightarrow> 0 < lm_limit l \<Longrightarrow> D \<le> t \<Longrightarrow> fst (take_token l t ip) = None"
  by (force simp: over_by_def take_token_def Let_def current_bucket_def window_Sub split: option.split)

text \<open>
  Property C33. A refused client is told a sufficient wait. The announced number of seconds is at least one and
  less than a second more than the window, and a request of that address that comes at least that long after the refusal
  passes, whatever happens in between: requests of other addresses, sweeps, and retries of the
  address itself that are refused. The window is below \<open>2 ^ 24\<close> seconds, 194 days, where the float
  computation of the wait is the exact ceiling.
\<close>

theorem retry_after_suffices:
  assumes "0 < window" "window < 2 ^ 24 * second" "0 < limit" "sorted (map fst before @ [now])"
    and "take_token (lim_after (NewLimiter limit window) before) now ip = (Some r, l)"
    and "now + r * second \<le> now'" "\<forall>s. (s, ip, True) \<notin> set (lim_run l es)"
  shows "1 \<le> r \<and> (r - 1) * second < window \<and> lim_run l (es @ [(now', Request ip)]) = lim_run l es @ [(now', ip, True)]"
proof -
  let ?l = "lim_after (NewLimiter limit window) before"
  let ?c = "current_bucket ?l now ip"
  let ?d = "bk_windowStart ?c + window - now"
  from sorted_le_first [OF assms(4)] obtain t where t: "sorted (t # map fst before @ [now])" by blast
  have w: "window_ok ?l" "lm_window ?l = window" "lm_limit ?l = limit"
    using assms(1,2) by (simp_all add: window_ok_new max_int64_def second_def)
  have inv: "lim_inv now ?l" by (rule lim_inv_after [OF lim_inv_new t])
  note cw = current_bucket_window [OF inv w(1) order_refl, of ip]
  from assms(5) have r: "r = max 1 (ceil_seconds (time_Sub (bk_windowStart ?c + window) now))" and l: "l = put_bucket ip ?c ?l"
    by (auto simp: take_token_def Let_def w split: if_splits)
  have d: "0 \<le> ?d" "?d \<le> window" using cw w(2) by auto
  have sub: "time_Sub (bk_windowStart ?c + window) now = ?d" using d assms(2) by (auto simp: time_Sub_def max_int64_def second_def)
  have cs: "?d \<le> ceil_seconds ?d * second" "ceil_seconds ?d * second < ?d + second" using ceil_seconds_bounds [of ?d] d assms(2) by auto
  have D: "over_by (now + r * second) ip l" using cs(1) by (simp add: over_by_def l w(2) r sub max_def second_def)
  have dis: "distinct (map fst (lm_buckets l))" using lim_inv_take [OF inv order_refl, of ip] assms(5) by (simp add: lim_inv_def)
  have lw: "window_ok l" "lm_limit l = limit" using w by (simp_all add: l)
  have "fst (take_token (lim_after l es) now' ip) = None"
    using over_by_passes [OF over_by_after [OF D dis _ assms(7)] _ _ assms(6)] lw assms(3) by simp
  then have "lim_run l (es @ [(now', Request ip)]) = lim_run l es @ [(now', ip, True)]" by (auto simp: lim_run_append split: prod.split)
  moreover have "(r - 1) * second < window" using cs(2) d assms(1) by (simp add: r sub max_def second_def)
  ultimately show ?thesis by (simp add: r)
qed

theorem retry_after_suffices_witness:
  "\<exists>r l. take_token (lim_after (NewLimiter 1 hour) [(0, Request ''a'')]) (5 * second) ''a'' = (Some r, l) \<and>
     lim_run l [(6 * second, Request ''b''), (7 * second, Request ''a''), (hour, Sweep), (5 * second + r * second, Request ''a'')] =
       [(6 * second, ''b'', True), (7 * second, ''a'', False), (5 * second + r * second, ''a'', True)]"
proof -
  let ?l0 = "lim_after (NewLimiter 1 hour) [(0, Request ''a'')]" and ?es = "[(6 * second, Request ''b''), (7 * second, Request ''a''), (hour, Sweep)]"
  note unfold = take_token_def current_bucket_def put_bucket_def NewLimiter_def time_Sub_def max_int64_def hour_def second_def
  obtain r l where t: "take_token ?l0 (5 * second) ''a'' = (Some r, l)" by (simp add: unfold)
  have "l = put_bucket ''a'' (current_bucket ?l0 (5 * second) ''a'') ?l0" using t by (auto simp: take_token_def Let_def split: if_splits)
  then have run: "lim_run l ?es = [(6 * second, ''b'', True), (7 * second, ''a'', False)]" by (simp add: unfold)
  have pre: "0 < hour" "hour < 2 ^ 24 * second" "sorted (map fst [(0, Request ''a'')] @ [5 * second])" by (simp_all add: hour_def second_def)
  have "\<forall>s. (s, ''a'', True) \<notin> set (lim_run l ?es)" unfolding run by simp
  from retry_after_suffices [OF pre(1,2) zero_less_one pre(3) t order_refl this] t show ?thesis unfolding run by simp
qed

text \<open>
  Windows are fixed, not sliding: with the default of ten registrations per hour, nineteen requests
  of one address pass within two seconds around the end of a window.
\<close>

theorem rate_limit_boundary_burst:
  "length (filter (\<lambda>t. 3599 * second \<le> t \<and> t < 3601 * second) (passed ''a'' (lim_run (NewLimiter 10 hour)
     ((0, Request ''a'') # replicate 10 (3599 * second, Request ''a'') @ replicate 11 (3600 * second, Request ''a''))))) = 19"
  by code_simp

end
