(* ===== verification/Audit_Log.thy ===== *)
theory Audit_Log
  imports Ratelimit Sample
begin

text \<open>
  \<^verbatim>\<open>sidecar/internal/audit/audit.go\<close>: the audit logger, a buffered channel with one worker that writes to
  the store. \<open>audit_reach\<close> lets requests record events, the worker write them, the rest of the sidecar
  change the world and the owner close the logger in any order; ghost fields keep what was
  accepted, dropped and written.
\<close>

section \<open>The logger\<close>

record Event =
  ev_Type :: string
  ev_ClientID :: string
  ev_Sub :: string
  ev_IP :: string
  ev_Success :: bool
  ev_Details :: "jmap option"
  ev_Timestamp :: time

record sqliteLogger =
  lg_cap :: nat
  lg_ch :: "Event list"
  lg_closed :: bool
  lg_done :: bool

definition defaultBufferSize :: nat where
  "defaultBufferSize = 1024"

definition newSQLiteLoggerWithBuffer :: "nat \<Rightarrow> sqliteLogger" where
  "newSQLiteLoggerWithBuffer bufSize = \<lparr>lg_cap = bufSize, lg_ch = [], lg_closed = False, lg_done = False\<rparr>"

text \<open>Sending on a closed channel panics; a full channel drops the event.\<close>

definition enqueue :: "Event \<Rightarrow> sqliteLogger \<Rightarrow> sqliteLogger result" where
  "enqueue e l =
     (if lg_closed l then Inl (GoErr ''send on closed channel'')
      else if length (lg_ch l) < lg_cap l then Inr (l\<lparr>lg_ch := lg_ch l @ [e]\<rparr>)
      else Inr l)"

definition Record :: "env \<Rightarrow> sqliteLogger \<Rightarrow> Event \<Rightarrow> sqliteLogger result eff" where
  "Record E l e =
     (if ev_Timestamp e = zero_time then do { now \<leftarrow> time_Now E; State_Monad.return (enqueue (e\<lparr>ev_Timestamp := now\<rparr>) l) }
      else State_Monad.return (enqueue e l))"

definition Close :: "sqliteLogger \<Rightarrow> sqliteLogger" where
  "Close l = l\<lparr>lg_closed := True\<rparr>"

definition event_details :: "Event \<Rightarrow> string" where
  "event_details e = json_marshal (JObj (case ev_Details e of None \<Rightarrow> [] | Some d \<Rightarrow> d))"

definition persist :: "env \<Rightarrow> Event \<Rightarrow> unit eff" where
  "persist E e = do {
     _ \<leftarrow> InsertAuditEvent E (ev_Type e) (ev_ClientID e) (ev_Sub e) (ev_IP e) (event_details e) (ev_Success e);
     State_Monad.return () }"

text \<open>One turn of the worker's loop: it takes the oldest event, or ends once the channel is closed and
  empty; on an empty open channel it waits.\<close>

definition worker_turn :: "env \<Rightarrow> sqliteLogger \<Rightarrow> sqliteLogger eff" where
  "worker_turn E l =
     (case lg_ch l of
        [] \<Rightarrow> State_Monad.return (if lg_closed l then l\<lparr>lg_done := True\<rparr> else l)
      | e # es \<Rightarrow> do { _ \<leftarrow> persist E e; State_Monad.return (l\<lparr>lg_ch := es\<rparr>) })"

definition ClientIP :: "request \<Rightarrow> string" where
  "ClientIP r =
     (let xff = ReqGet r ''X-Forwarded-For'' in
      if xff \<noteq> [] then (if CHR '','' \<in> set xff then TrimSpace (before_byte CHR '','' xff) else TrimSpace xff)
      else case SplitHost (rq_RemoteAddr r) of None \<Rightarrow> rq_RemoteAddr r | Some host \<Rightarrow> host)"

lemma ClientIP_is_clientIP: "ClientIP r = clientIP r"
  by (simp add: ClientIP_def clientIP_def Let_def)

section \<open>Runs\<close>

definition event_row :: "Event \<Rightarrow> int \<Rightarrow> AuditRow" where
  "event_row e ts = \<lparr>ar_EventType = ev_Type e, ar_ClientID = ev_ClientID e, ar_Sub = ev_Sub e, ar_IP = ev_IP e,
     ar_Success = (if ev_Success e then 1 else 0), ar_DetailsJSON = event_details e, ar_Timestamp = ts\<rparr>"

lemma run_persist:
  "run_state (persist E e) w = ((), if db_fail E (Suc (w_tick w)) then bump (bump w)
     else (bump (bump w))\<lparr>w_db := (w_db w)\<lparr>audit_events := audit_events (w_db w) @ [event_row e (unix_sec (clock E (w_tick w)))]\<rparr>\<rparr>)"
  by (simp add: persist_def InsertAuditEvent_def run_db_stmt event_row_def)

record audit_sys =
  sy_log :: sqliteLogger
  sy_world :: world
  sy_accepted :: "Event list"
  sy_dropped :: "Event list"
  sy_written :: "Event list"

inductive audit_reach :: "env \<Rightarrow> nat \<Rightarrow> audit_sys \<Rightarrow> bool" for E cap where
  start: "audit_events (w_db w) = [] \<Longrightarrow> audit_reach E cap \<lparr>sy_log = newSQLiteLoggerWithBuffer cap, sy_world = w, sy_accepted = [],
    sy_dropped = [], sy_written = []\<rparr>"
| record_kept: "audit_reach E cap s \<Longrightarrow> run_state (Record E (sy_log s) e) (sy_world s) = (Inr l, w) \<Longrightarrow>
    l \<noteq> sy_log s \<Longrightarrow> audit_reach E cap (s\<lparr>sy_log := l, sy_world := w, sy_accepted := sy_accepted s @ [last (lg_ch l)]\<rparr>)"
| record_dropped: "audit_reach E cap s \<Longrightarrow> run_state (Record E (sy_log s) e) (sy_world s) = (Inr (sy_log s), w) \<Longrightarrow>
    audit_reach E cap (s\<lparr>sy_world := w, sy_dropped := sy_dropped s @ [e]\<rparr>)"
| worker: "audit_reach E cap s \<Longrightarrow> run_state (worker_turn E (sy_log s)) (sy_world s) = (l, w) \<Longrightarrow>
    audit_reach E cap (s\<lparr>sy_log := l, sy_world := w, sy_written := sy_written s @ take 1 (lg_ch (sy_log s))\<rparr>)"
| close: "audit_reach E cap s \<Longrightarrow> audit_reach E cap (s\<lparr>sy_log := Close (sy_log s)\<rparr>)"
| other: "audit_reach E cap s \<Longrightarrow> audit_events (w_db w) = audit_events (w_db (sy_world s)) \<Longrightarrow>
    audit_reach E cap (s\<lparr>sy_world := w\<rparr>)"

definition same_event :: "Event \<Rightarrow> AuditRow \<Rightarrow> bool" where
  "same_event e row \<longleftrightarrow> (\<exists>ts. row = event_row e ts)"

lemma same_event_row [simp]: "same_event e (event_row e ts)"
  by (auto simp: same_event_def)

lemma enqueue_cases:
  assumes "enqueue e l = Inr l'"
  shows "\<not> lg_closed l \<and> (if length (lg_ch l) < lg_cap l then l' = l\<lparr>lg_ch := lg_ch l @ [e]\<rparr> else l' = l)"
  using assms by (auto simp: enqueue_def split: if_splits)

lemma Record_run:
  assumes "run_state (Record E l e) w = (r, w')"
  shows "(\<exists>e'. r = enqueue e' l) \<and> w_db w' = w_db w"
  using assms by (auto simp: Record_def split: if_splits)

definition audit_inv :: "env \<Rightarrow> nat \<Rightarrow> audit_sys \<Rightarrow> bool" where
  "audit_inv E cap s \<longleftrightarrow> lg_cap (sy_log s) = cap \<and> length (lg_ch (sy_log s)) \<le> cap \<and>
     sy_accepted s = sy_written s @ lg_ch (sy_log s) \<and> (lg_done (sy_log s) \<longrightarrow> lg_closed (sy_log s) \<and> lg_ch (sy_log s) = []) \<and>
     (no_faults E \<longrightarrow> list_all2 same_event (sy_written s) (audit_events (w_db (sy_world s))))"

lemma audit_inv_record:
  assumes "audit_inv E cap s" "run_state (Record E (sy_log s) e) (sy_world s) = (Inr l, w)" "l \<noteq> sy_log s"
  shows "audit_inv E cap (s\<lparr>sy_log := l, sy_world := w, sy_accepted := sy_accepted s @ [last (lg_ch l)]\<rparr>)"
proof -
  from Record_run [OF assms(2)] obtain e' where e': "enqueue e' (sy_log s) = Inr l" "w_db w = w_db (sy_world s)" by auto
  with assms(1,3) enqueue_cases [OF e'(1)] show ?thesis by (auto simp: audit_inv_def split: if_splits)
qed

lemma audit_inv_worker:
  assumes "audit_inv E cap s" "run_state (worker_turn E (sy_log s)) (sy_world s) = (l, w)"
  shows "audit_inv E cap (s\<lparr>sy_log := l, sy_world := w, sy_written := sy_written s @ take 1 (lg_ch (sy_log s))\<rparr>)"
proof (cases "lg_ch (sy_log s)")
  case Nil
  with assms show ?thesis by (auto simp: audit_inv_def worker_turn_def split: if_splits)
next
  case (Cons e es)
  with assms show ?thesis
    by (auto simp: audit_inv_def worker_turn_def run_persist no_faults_def intro!: list_all2_appendI split: if_splits)
qed

lemma audit_reach_inv: "audit_reach E cap s \<Longrightarrow> audit_inv E cap s"
proof (induction rule: audit_reach.induct)
  case (record_kept s e l w)
  then show ?case by (blast intro: audit_inv_record)
next
  case (record_dropped s e w)
  then show ?case by (auto simp: audit_inv_def dest: Record_run)
next
  case (worker s l w)
  then show ?case by (blast intro: audit_inv_worker)
qed (auto simp: audit_inv_def newSQLiteLoggerWithBuffer_def Close_def)

text \<open>
  Property C23. The audit trail is complete and in order up to the events the channel had to drop: in every
  reachable state the events written are a prefix of those accepted, the rest wait in the channel,
  which never holds more than its capacity; without database faults the rows of the table are the
  written events, each once and in order; and when the worker has ended after \<^verbatim>\<open>Close\<close>, every accepted
  event has been written.
\<close>

theorem audit_trail_in_order:
  assumes "audit_reach E cap s" "no_faults E"
  shows "sy_accepted s = sy_written s @ lg_ch (sy_log s) \<and> length (lg_ch (sy_log s)) \<le> cap \<and>
    list_all2 same_event (sy_written s) (audit_events (w_db (sy_world s))) \<and>
    (lg_done (sy_log s) \<longrightarrow> list_all2 same_event (sy_accepted s) (audit_events (w_db (sy_world s))))"
  using audit_reach_inv [OF assms(1)] assms(2) by (auto simp: audit_inv_def)

definition sample_event :: Event where
  "sample_event = \<lparr>ev_Type = ''oauth.token'', ev_ClientID = [], ev_Sub = [], ev_IP = ''10.0.0.1'', ev_Success = True, ev_Details = None,
     ev_Timestamp = 0\<rparr>"

lemma sample_reach:
  "\<exists>s. audit_reach sample_env 1 s \<and> sy_accepted s = [sample_event] \<and> length (audit_events (w_db (sy_world s))) = 1"
proof -
  let ?l0 = "newSQLiteLoggerWithBuffer 1" and ?l1 = "(newSQLiteLoggerWithBuffer 1)\<lparr>lg_ch := [sample_event]\<rparr>"
  let ?s0 = "\<lparr>sy_log = ?l0, sy_world = sample_world, sy_accepted = [], sy_dropped = [], sy_written = []\<rparr>"
  have s0: "audit_reach sample_env 1 ?s0" by (rule audit_reach.start) (simp add: sample_world_def empty_db_def)
  have "run_state (Record sample_env (sy_log ?s0) sample_event) (sy_world ?s0) = (Inr ?l1, sample_world)"
    by (simp add: Record_def enqueue_def newSQLiteLoggerWithBuffer_def sample_event_def zero_time_def time_Unix_def second_def)
  from audit_reach.record_kept [OF s0 this] have
    s1: "audit_reach sample_env 1 \<lparr>sy_log = ?l1, sy_world = sample_world, sy_accepted = [sample_event], sy_dropped = [], sy_written = []\<rparr>"
    by (simp add: newSQLiteLoggerWithBuffer_def)
  obtain w where "run_state (worker_turn sample_env ?l1) sample_world = (?l0, w)" "length (audit_events (w_db w)) = 1"
    by (simp add: worker_turn_def run_persist newSQLiteLoggerWithBuffer_def sample_world_def empty_db_def)
  with audit_reach.worker [OF s1] show ?thesis
    by (intro exI [of _ "\<lparr>sy_log = ?l0, sy_world = w, sy_accepted = [sample_event], sy_dropped = [], sy_written = [sample_event]\<rparr>"]) simp
qed

theorem audit_trail_in_order_witness:
  "\<exists>s row. audit_reach sample_env 1 s \<and> sy_accepted s = [sample_event] \<and> audit_events (w_db (sy_world s)) = [row] \<and> same_event sample_event row"
proof -
  from sample_reach obtain s where s: "audit_reach sample_env 1 s" "sy_accepted s = [sample_event]" "length (audit_events (w_db (sy_world s))) = 1" by blast
  from audit_trail_in_order [OF s(1) sample_no_faults] have l: "list_all2 same_event (sy_written s) (audit_events (w_db (sy_world s)))"
    and p: "sy_accepted s = sy_written s @ lg_ch (sy_log s)" by auto
  from l s(3) have "length (sy_written s) = 1" by (simp add: list_all2_lengthD)
  with p s(2) have "sy_written s = [sample_event]" by (cases "sy_written s") auto
  with l s show ?thesis by (auto simp: list_all2_Cons1)
qed

section \<open>The worker ends\<close>

fun worker_turns :: "env \<Rightarrow> nat \<Rightarrow> sqliteLogger \<Rightarrow> sqliteLogger eff" where
  "worker_turns E 0 l = State_Monad.return l"
| "worker_turns E (Suc n) l = do { l' \<leftarrow> worker_turn E l; worker_turns E n l' }"

text \<open>
  Property C24. \<^verbatim>\<open>Close\<close> does not wait for ever: after it, one turn of the worker per waiting event and one more
  end the loop, and with a database that does not fail each waiting event has its row, in order,
  after the rows that were there.
\<close>

theorem close_drains_queue:
  assumes "no_faults E" "run_state (worker_turns E (Suc (length (lg_ch l))) (Close l)) w = (l', w')"
  shows "lg_done l' \<and> lg_ch l' = [] \<and>
    (\<exists>rows. audit_events (w_db w') = audit_events (w_db w) @ rows \<and> list_all2 same_event (lg_ch l) rows)"
  using assms(2)
proof (induction "lg_ch l" arbitrary: l w)
  case Nil
  then show ?case by (auto simp: worker_turn_def Close_def)
next
  case (Cons e es)
  let ?l = "l\<lparr>lg_ch := es\<rparr>"
  let ?w = "(bump (bump w))\<lparr>w_db := (w_db w)\<lparr>audit_events := audit_events (w_db w) @ [event_row e (unix_sec (clock E (w_tick w)))]\<rparr>\<rparr>"
  have ch: "lg_ch l = e # es" using Cons(2) by simp
  have "run_state (worker_turn E (Close l)) w = (Close ?l, ?w)"
    using assms(1) by (simp add: worker_turn_def Close_def ch run_persist no_faults_def)
  with Cons(3) have r: "run_state (worker_turns E (Suc (length (lg_ch ?l))) (Close ?l)) ?w = (l', w')"
    by (simp add: ch del: worker_turns.simps(2)) (simp add: ch)
  have "es = lg_ch ?l" by simp
  from Cons(1) [OF this r] obtain rows where d: "lg_done l'" "lg_ch l' = []" and
    rows: "audit_events (w_db w') = audit_events (w_db ?w) @ rows" "list_all2 same_event es rows" by auto
  then show ?case
    by (intro conjI exI [of _ "event_row e (unix_sec (clock E (w_tick w))) # rows"]) (simp_all add: ch)
qed

theorem close_drains_queue_witness:
  "\<exists>l' w'. run_state (worker_turns sample_env 2 (Close ((newSQLiteLoggerWithBuffer 1)\<lparr>lg_ch := [sample_event]\<rparr>))) sample_world = (l', w') \<and> lg_done l'"
proof -
  let ?l = "(newSQLiteLoggerWithBuffer 1)\<lparr>lg_ch := [sample_event]\<rparr>"
  obtain l' w' where r: "run_state (worker_turns sample_env (Suc (length (lg_ch ?l))) (Close ?l)) sample_world = (l', w')" by fastforce
  from close_drains_queue [OF sample_no_faults r] r show ?thesis by (simp add: numeral_2_eq_2)
qed

end
