(* ===== verification/Server.thy ===== *)
theory Server
  imports As_Authorize As_Token As_Callback As_Inspect Audit_Log
begin

text \<open>
  \<^verbatim>\<open>sidecar/cmd/bouncer/main.go\<close> and \<^verbatim>\<open>sidecar/internal/logx\<close>: the settings read from the environment, the start
  of the process, the request multiplexer with its wrappers, and the server's state between
  requests: the limiter's buckets, the audit channel and where the rotator goroutine stands.
\<close>

section \<open>Log levels\<close>

definition LevelTrace :: int where
  "LevelTrace = -8"

definition ParseLevel :: "string \<Rightarrow> int" where
  "ParseLevel s =
     (let l = ToLower (TrimSpace s) in
      if l = ''trace'' then LevelTrace
      else if l = ''debug'' then -4
      else if l = ''info'' \<or> l = [] then 0
      else if l = ''warn'' \<or> l = ''warning'' then 4
      else if l = ''error'' \<or> l = ''err'' then 8
      else 0)"

datatype attr_value = LevelValue int | StringValue string

definition ReplaceLevel :: "string \<times> attr_value \<Rightarrow> string \<times> attr_value" where
  "ReplaceLevel a = (if fst a \<noteq> ''level'' then a
     else if snd a = LevelValue LevelTrace then (fst a, StringValue ''TRACE'') else a)"

section \<open>Settings\<close>

definition envOr :: "env \<Rightarrow> string \<Rightarrow> string \<Rightarrow> string" where
  "envOr E key def = (if os_env E key \<noteq> [] then os_env E key else def)"

definition envInt :: "env \<Rightarrow> string \<Rightarrow> int \<Rightarrow> int" where
  "envInt E key def =
     (if os_env E key = [] then def
      else case Atoi (os_env E key) of None \<Rightarrow> def | Some n \<Rightarrow> if n \<le> 0 then def else n)"

definition mustEnv :: "env \<Rightarrow> string \<Rightarrow> string result" where
  "mustEnv E key = (if os_env E key = [] then Inl (GoErr ''required env var not set'') else Inr (os_env E key))"

definition envDuration :: "env \<Rightarrow> string \<Rightarrow> int \<Rightarrow> int \<Rightarrow> int" where
  "envDuration E key defaultVal unit =
     (let v = os_env E key; dflt = wrap64 (defaultVal * unit);
          int_or_default = (case Atoi v of None \<Rightarrow> dflt | Some n \<Rightarrow> if n \<le> 0 then dflt else wrap64 (n * unit)) in
      if v = [] then dflt
      else case ParseDuration v of Some d \<Rightarrow> if d > 0 then d else int_or_default | None \<Rightarrow> int_or_default)"

record Settings =
  st_dbPath :: string
  st_listenAddr :: string
  st_encKey :: string
  st_rotationDays :: int
  st_overlapHours :: int
  st_accessTTL :: int
  st_refreshTTL :: int
  st_clientTTL :: int
  st_registerLimit :: int
  st_registerWindow :: int
  st_metricsAddr :: string

definition read_settings :: "env \<Rightarrow> Settings result" where
  "read_settings E =
     (case mustEnv E ''BOUNCER_ENCRYPTION_KEY'' of
        Inl e \<Rightarrow> Inl e
      | Inr encKey \<Rightarrow> Inr \<lparr>
          st_dbPath = envOr E ''BOUNCER_DB_PATH'' ''/data/bouncer.db'',
          st_listenAddr = envOr E ''BOUNCER_LISTEN_ADDR'' '':8080'',
          st_encKey = encKey,
          st_rotationDays = envDuration E ''BOUNCER_KEY_ROTATION_DAYS'' 30 (24 * hour),
          st_overlapHours = envDuration E ''BOUNCER_KEY_OVERLAP_HOURS'' 24 hour,
          st_accessTTL = envDuration E ''BOUNCER_ACCESS_TOKEN_TTL'' 1 hour,
          st_refreshTTL = envDuration E ''BOUNCER_REFRESH_TOKEN_TTL'' 30 (24 * hour),
          st_clientTTL = envDuration E ''BOUNCER_CLIENT_TTL_DAYS'' 90 (24 * hour),
          st_registerLimit = envInt E ''BOUNCER_REGISTER_RATE_LIMIT'' 10,
          st_registerWindow = envDuration E ''BOUNCER_REGISTER_RATE_WINDOW'' 1 hour,
          st_metricsAddr = envOr E ''BOUNCER_METRICS_ADDR'' '':9090''\<rparr>)"

section \<open>Start\<close>

record server =
  sv_settings :: Settings
  sv_cipher :: Cipher
  sv_rotator :: Rotator
  sv_issuer :: Issuer
  sv_limiter :: Limiter
  sv_audit :: sqliteLogger
  sv_rotation :: rot_pc

text \<open>Opening the database runs the migration, which keeps the rows; the limiter's sweep starts a ticker,
  which panics for a window that is not positive.\<close>

definition startup :: "env \<Rightarrow> server result eff" where
  "startup E =
     (case read_settings E of
        Inl e \<Rightarrow> State_Monad.return (Inl e)
      | Inr st \<Rightarrow> do {
          d \<leftarrow> db_stmt E ''store.Open'' (\<lambda>d. (Inr (), d));
          case d of
            Inl e \<Rightarrow> State_Monad.return (Inl e)
          | Inr _ \<Rightarrow> do {
              c \<leftarrow> NewCipherWithStore E (st_encKey st);
              case c of
                Inl e \<Rightarrow> State_Monad.return (Inl e)
              | Inr cipher \<Rightarrow> do {
                  let rotator = \<lparr>ro_rotationInterval = st_rotationDays st, ro_overlap = st_overlapHours st, ro_maxTokenTTL = st_accessTTL st\<rparr>;
                  k \<leftarrow> Ensure E rotator;
                  case k of
                    Inl e \<Rightarrow> State_Monad.return (Inl e)
                  | Inr _ \<Rightarrow>
                      if st_registerWindow st \<le> 0 then State_Monad.return (Inl (GoErr ''non-positive interval for NewTicker''))
                      else State_Monad.return (Inr \<lparr>sv_settings = st, sv_cipher = cipher, sv_rotator = rotator,
                        sv_issuer = \<lparr>is_accessTTL = st_accessTTL st, is_refreshTTL = st_refreshTTL st\<rparr>,
                        sv_limiter = NewLimiter (st_registerLimit st) (st_registerWindow st),
                        sv_audit = newSQLiteLoggerWithBuffer defaultBufferSize, sv_rotation = RotDone (Inr ())\<rparr>) } } })"

section \<open>Dispatch\<close>

definition withRC :: "env \<Rightarrow> Cipher \<Rightarrow> (ResourceConfig \<Rightarrow> request \<Rightarrow> response eff) \<Rightarrow> request \<Rightarrow> response eff" where
  "withRC E cipher handler r =
     (case FromRequest r of
        Inl e \<Rightarrow> State_Monad.return (http_Error (''missing X-MCPB-* headers: '' @ err_text e) 400)
      | Inr rc \<Rightarrow> do {
          _ \<leftarrow> PersistEncrypted E cipher rc;
          handler rc r })"

definition moved_permanently :: "string \<Rightarrow> request \<Rightarrow> response" where
  "moved_permanently p r = \<lparr>rs_Status = 301, rs_Header = [], rs_Body = RedirectBody \<lparr>u_Scheme = [], u_Host = [], u_Hostname = [], u_Path = p,
     u_Query = map (\<lambda>(k, v). (k, [v])) (rq_Query r)\<rparr>\<rparr>"

text \<open>The handlers that need a resource configuration, by path; registration stands apart, behind the
  limiter.\<close>

definition rc_handler :: "env \<Rightarrow> server \<Rightarrow> string \<Rightarrow> (ResourceConfig \<Rightarrow> request \<Rightarrow> response eff) option" where
  "rc_handler E sv path = map_of
     [(''/.well-known/oauth-protected-resource'', \<lambda>rc r. State_Monad.return (HandleProtectedResource rc)),
      (''/.well-known/oauth-authorization-server'', \<lambda>rc r. State_Monad.return (HandleAuthorizationServer rc)),
      (''/.well-known/openid-configuration'', \<lambda>rc r. State_Monad.return (HandleOpenIDConfiguration rc)),
      (''/oauth/authorize'', \<lambda>rc r. HandleAuthorize E rc r),
      (''/oauth/callback'', \<lambda>rc r. HandleCallback E (sv_cipher sv) rc r),
      (''/oauth/token'', \<lambda>rc r. HandleToken E (sv_issuer sv) (sv_cipher sv) rc r),
      (''/oauth/introspect'', \<lambda>rc r. HandleIntrospect E rc r),
      (''/oauth/userinfo'', \<lambda>rc r. HandleUserinfo E rc r)] path"

definition mux :: "env \<Rightarrow> server \<Rightarrow> request \<Rightarrow> (response \<times> server) eff" where
  "mux E sv r =
     (let path = rq_Path r; same = (\<lambda>m. do { resp \<leftarrow> m; State_Monad.return (resp, sv) }) in
      if rq_Method r \<noteq> ''CONNECT'' \<and> cleanPath path \<noteq> path then State_Monad.return (moved_permanently (cleanPath path) r, sv)
      else if path = ''/oauth/jwks.json'' then same (HandleJWKS E)
      else if path = ''/oauth/register'' then do {
        (resp, l) \<leftarrow> Middleware E (sv_limiter sv) (withRC E (sv_cipher sv) (HandleRegister E)) r;
        State_Monad.return (resp, sv\<lparr>sv_limiter := l\<rparr>) }
      else if path = ''/oauth/revoke'' then same (HandleRevoke E r)
      else if path = ''/healthz'' then same (State_Monad.return \<lparr>rs_Status = 200, rs_Header = [], rs_Body = TextBody ''ok''\<rparr>)
      else case rc_handler E sv path of
        Some h \<Rightarrow> same (withRC E (sv_cipher sv) h r)
      | None \<Rightarrow> same (State_Monad.return (http_Error ''404 page not found'' 404)))"

definition auditEventTypeByPath :: "(string \<times> string) list" where
  "auditEventTypeByPath =
     [(''/oauth/register'', ''dcr.register''), (''/oauth/authorize'', ''oauth.authorize''), (''/oauth/callback'', ''oauth.callback''),
      (''/oauth/token'', ''oauth.token''), (''/oauth/revoke'', ''oauth.revoke''), (''/oauth/introspect'', ''oauth.introspect''),
      (''/oauth/userinfo'', ''oauth.userinfo'')]"

text \<open>The status recorder starts at 200 and keeps the status the handler writes, which is that of the
  response. Sending to a closed channel panics after the handler has written its response; the server recovers
  by closing the connection, so that no complete response arrives: \<open>aborted\<close>, with status 0. What the
  handler did to the database stays.\<close>

definition aborted :: response where
  "aborted = \<lparr>rs_Status = 0, rs_Header = [], rs_Body = TextBody []\<rparr>"

definition audit_event :: "string \<Rightarrow> request \<Rightarrow> int \<Rightarrow> time \<Rightarrow> Event" where
  "audit_event evt r status now = \<lparr>ev_Type = evt, ev_ClientID = [], ev_Sub = [], ev_IP = ClientIP r, ev_Success = (status < 400),
     ev_Details = Some [(''method'', JStr (rq_Method r)), (''status'', JInt status)], ev_Timestamp = now\<rparr>"

definition auditOAuth :: "env \<Rightarrow> server \<Rightarrow> request \<Rightarrow> (response \<times> server) eff" where
  "auditOAuth E sv r =
     (case map_of auditEventTypeByPath (rq_Path r) of
        None \<Rightarrow> mux E sv r
      | Some evt \<Rightarrow> do {
          (resp, sv') \<leftarrow> mux E sv r;
          now \<leftarrow> time_Now E;
          l \<leftarrow> Record E (sv_audit sv') (audit_event evt r (rs_Status resp) now);
          State_Monad.return (case l of Inl e \<Rightarrow> (aborted, sv') | Inr log \<Rightarrow> (resp, sv'\<lparr>sv_audit := log\<rparr>)) })"

definition logRequests :: "env \<Rightarrow> server \<Rightarrow> request \<Rightarrow> (response \<times> server) eff" where
  "logRequests E sv r = do {
     start \<leftarrow> time_Now E;
     out \<leftarrow> auditOAuth E sv r;
     now \<leftarrow> time_Now E;
     State_Monad.return out }"

section \<open>Settings are in range\<close>

text \<open>
  Property C35. A duration setting is an int64, and it is positive except when a plain integer was given whose
  product with the unit does not fit an int64; malformed, zero and negative values give the
  default.
\<close>

theorem envDuration_positive_or_overflow:
  assumes "0 < unit" "0 < defaultVal" "defaultVal * unit \<le> max_int64"
  shows "in_int64 (envDuration E key defaultVal unit) \<and>
    (0 < envDuration E key defaultVal unit \<or> (\<exists>n. Atoi (os_env E key) = Some n \<and> max_int64 < n * unit))"
proof -
  have d: "wrap64 (defaultVal * unit) = defaultVal * unit"
    using assms by (intro wrap64_id) (auto simp: in_int64_def max_int64_def intro: order_trans [of _ 0])
  have dpos: "0 < defaultVal * unit" "in_int64 (defaultVal * unit)"
    using assms by (auto simp: in_int64_def max_int64_def intro: order_trans [of _ 0])
  have w: "wrap64 (n * unit) = n * unit" if "0 < n" "\<not> max_int64 < n * unit" for n
    using that assms(1) by (intro wrap64_id) (auto simp: in_int64_def max_int64_def not_less intro: order_trans [of _ 0])
  have pos: "0 < wrap64 (n * unit) \<or> max_int64 < n * unit" if "0 < n" for n
    using w [OF that] that assms(1) by (cases "max_int64 < n * unit") auto
  show ?thesis
    using pos dpos unfolding envDuration_def Let_def d
    by (auto simp: wrap64_range dest: ParseDuration_range split: option.split)
qed

theorem envDuration_positive_or_overflow_witness:
  "in_int64 (envDuration sample_env ''BOUNCER_ACCESS_TOKEN_TTL'' 1 hour) \<and> 0 < envDuration sample_env ''BOUNCER_ACCESS_TOKEN_TTL'' 1 hour"
proof -
  have "Atoi (os_env sample_env k) = None" for k by (simp add: sample_env_def Atoi_def)
  with envDuration_positive_or_overflow [of hour 1 sample_env "''BOUNCER_ACCESS_TOKEN_TTL''"] show ?thesis
    by (auto simp: hour_def second_def max_int64_def)
qed

definition long_ttl_env :: env where
  "long_ttl_env = sample_env\<lparr>os_env := \<lambda>k. if k = ''BOUNCER_ACCESS_TOKEN_TTL'' then ''3000000'' else []\<rparr>"

text \<open>
  The product is not checked: an access-token lifetime of 3000000 hours is read as a negative
  duration.
\<close>

theorem long_ttl_wraps_negative:
  "envDuration long_ttl_env ''BOUNCER_ACCESS_TOKEN_TTL'' 1 hour = -7646744073709551616"
proof -
  have "os_env long_ttl_env ''BOUNCER_ACCESS_TOKEN_TTL'' = ''3000000''" by (simp add: long_ttl_env_def)
  moreover have "ParseDuration ''3000000'' = None" "Atoi ''3000000'' = Some 3000000" "wrap64 (3000000 * hour) = -7646744073709551616"
    by code_simp+
  ultimately show ?thesis by (simp add: envDuration_def)
qed

section \<open>Dispatch\<close>

lemma mux_rc_path:
  assumes "rc_handler E sv (rq_Path r) = Some h" "cleanPath (rq_Path r) = rq_Path r"
  shows "mux E sv r = State_Monad.bind (withRC E (sv_cipher sv) h r) (\<lambda>resp. State_Monad.return (resp, sv))"
proof -
  have "rq_Path r \<notin> {''/oauth/jwks.json'', ''/oauth/register'', ''/oauth/revoke'', ''/healthz''}"
    using assms(1) by (auto simp: rc_handler_def)
  with assms show ?thesis by (simp add: mux_def)
qed

lemma withRC_missing:
  "FromRequest r = Inl e \<Longrightarrow> run_state (withRC E c h r) w = (http_Error (''missing X-MCPB-* headers: '' @ err_text e) 400, w)"
  by (simp add: withRC_def)

lemma mux_audit: "run_state (mux E sv r) w = ((resp, sv'), w') \<Longrightarrow> sv_audit sv' = sv_audit sv \<and> sv_rotation sv' = sv_rotation sv"
  by (auto simp: mux_def Let_def split: if_splits option.splits prod.splits)

text \<open>The audit wrapper: what the multiplexer answers, unless the audit channel is closed.\<close>

lemma auditOAuth_result:
  assumes "run_state (auditOAuth E sv r) w = ((resp, sv'), w')"
  shows "\<exists>resp1 sv1 w1. run_state (mux E sv r) w = ((resp1, sv1), w1) \<and> w_db w' = w_db w1 \<and> w_providers w' = w_providers w1 \<and>
    (resp = resp1 \<or> resp = aborted \<and> lg_closed (sv_audit sv)) \<and> (\<exists>l. sv' = sv1\<lparr>sv_audit := l\<rparr>) \<and>
    lg_closed (sv_audit sv') = lg_closed (sv_audit sv)"
proof -
  obtain resp1 sv1 w1 where m: "run_state (mux E sv r) w = ((resp1, sv1), w1)" by (metis prod.exhaust)
  have "\<exists>l. sv1 = sv1\<lparr>sv_audit := l\<rparr>" by (rule exI [of _ "sv_audit sv1"]) simp
  with assms m mux_audit [OF m] show ?thesis
    by (cases "map_of auditEventTypeByPath (rq_Path r)")
      (auto simp: auditOAuth_def Record_def enqueue_def split: if_splits)
qed

lemma logRequests_result:
  assumes "run_state (logRequests E sv r) w = ((resp, sv'), w')"
  shows "\<exists>resp1 sv1 w1. run_state (mux E sv r) (bump w) = ((resp1, sv1), w1) \<and> w_db w' = w_db w1 \<and> w_providers w' = w_providers w1 \<and>
    (resp = resp1 \<or> resp = aborted \<and> lg_closed (sv_audit sv)) \<and> (\<exists>l. sv' = sv1\<lparr>sv_audit := l\<rparr>) \<and>
    lg_closed (sv_audit sv') = lg_closed (sv_audit sv)"
proof -
  from assms obtain w2 where "run_state (auditOAuth E sv r) (bump w) = ((resp, sv'), w2)" "w' = bump w2"
    by (auto simp: logRequests_def split: prod.splits)
  with auditOAuth_result [OF this(1)] show ?thesis by simp
qed

definition rc_paths :: "string list" where
  "rc_paths = [''/oauth/register'', ''/.well-known/oauth-protected-resource'', ''/.well-known/oauth-authorization-server'',
     ''/.well-known/openid-configuration'', ''/oauth/authorize'', ''/oauth/callback'', ''/oauth/token'', ''/oauth/introspect'', ''/oauth/userinfo'']"

lemma rc_paths_clean: "list_all (\<lambda>p. cleanPath p = p) rc_paths"
  by code_simp

lemma FromRequest_missing:
  "ReqGet r k = [] \<Longrightarrow> k \<in> {''X-MCPB-Resource'', ''X-MCPB-Public-Base'', ''X-MCPB-Provider-Issuer'', ''X-MCPB-Client-ID'',
     ''X-MCPB-Client-Secret'', ''X-MCPB-Scopes'', ''X-MCPB-Audience''} \<Longrightarrow> \<exists>e. FromRequest r = Inl e"
  by (auto simp: FromRequest_def)

text \<open>
  Property C28. A request that does not come through the plugin gets nowhere on the endpoints that act for a resource. If one of
  the seven \<^verbatim>\<open>X-MCPB\<close> headers is missing or empty, registration, the three metadata documents, authorize, callback,
  token, introspect and userinfo answer 400 and leave the database alone, whatever the server's state; registration may answer 429, and after the audit log is
  closed the connection may just end. (Revocation, the key set and the health check need no such headers.)
\<close>

theorem missing_headers_rejected:
  assumes "rq_Path r \<in> {''/oauth/register'', ''/.well-known/oauth-protected-resource'', ''/.well-known/oauth-authorization-server'',
      ''/.well-known/openid-configuration'', ''/oauth/authorize'', ''/oauth/callback'', ''/oauth/token'', ''/oauth/introspect'', ''/oauth/userinfo''}"
    and "k \<in> {''X-MCPB-Resource'', ''X-MCPB-Public-Base'', ''X-MCPB-Provider-Issuer'', ''X-MCPB-Client-ID'', ''X-MCPB-Client-Secret'',
      ''X-MCPB-Scopes'', ''X-MCPB-Audience''}"
    and "ReqGet r k = []" "run_state (logRequests E sv r) w = ((resp, sv'), w')"
  shows "w_db w' = w_db w \<and> (rs_Status resp = 400 \<or> rs_Status resp = 429 \<and> rq_Path r = ''/oauth/register'' \<or>
    resp = aborted \<and> lg_closed (sv_audit sv))"
proof -
  from FromRequest_missing [OF assms(3,2)] obtain e where e: "FromRequest r = Inl e" by blast
  have p: "rq_Path r \<in> set rc_paths" using assms(1) by (simp add: rc_paths_def)
  with rc_paths_clean have c: "cleanPath (rq_Path r) = rq_Path r" by (simp add: list_all_iff)
  from logRequests_result [OF assms(4)] obtain resp1 sv1 w1 where m: "run_state (mux E sv r) (bump w) = ((resp1, sv1), w1)"
    and w': "w_db w' = w_db w1" and resp: "resp = resp1 \<or> resp = aborted \<and> lg_closed (sv_audit sv)" by blast
  have "w_db w1 = w_db w \<and> (rs_Status resp1 = 400 \<or> rs_Status resp1 = 429 \<and> rq_Path r = ''/oauth/register'')"
  proof (cases "rq_Path r = ''/oauth/register''")
    case True
    with m c show ?thesis
      by (auto simp: mux_def Middleware_def withRC_missing [OF e] too_many_def split: prod.splits option.splits)
  next
    case False
    with p obtain h where "rc_handler E sv (rq_Path r) = Some h" by (auto simp: rc_paths_def rc_handler_def)
    from mux_rc_path [OF this c] m withRC_missing [OF e] show ?thesis by auto
  qed
  with w' resp show ?thesis by auto
qed

text \<open>
  Property C29. The audit trail of requests. A request to one of seven OAuth endpoints puts one event on the audit channel when it is open
  and has room: of the type listed for the path, with the client's address, success exactly for a status below 400 and the
  time after the handler. When the channel is full the event is dropped and the answer is the same; when it is closed the
  request is aborted. Every other path, the key set included, leaves the channel as it was. In no case does auditing
  change what the handler did to the database.
\<close>

theorem oauth_requests_audited:
  assumes "run_state (auditOAuth E sv r) w = ((resp, sv'), w')" "\<And>n. clock E n \<noteq> zero_time"
  shows "\<exists>resp1 sv1 w1. run_state (mux E sv r) w = ((resp1, sv1), w1) \<and> w_db w' = w_db w1 \<and>
    (case map_of [(''/oauth/register'', ''dcr.register''), (''/oauth/authorize'', ''oauth.authorize''), (''/oauth/callback'', ''oauth.callback''),
        (''/oauth/token'', ''oauth.token''), (''/oauth/revoke'', ''oauth.revoke''), (''/oauth/introspect'', ''oauth.introspect''),
        (''/oauth/userinfo'', ''oauth.userinfo'')] (rq_Path r) of
       None \<Rightarrow> resp = resp1 \<and> sv_audit sv' = sv_audit sv
     | Some evt \<Rightarrow>
         if lg_closed (sv_audit sv) then resp = aborted \<and> sv_audit sv' = sv_audit sv
         else resp = resp1 \<and> lg_ch (sv_audit sv') =
           (if length (lg_ch (sv_audit sv)) < lg_cap (sv_audit sv)
            then lg_ch (sv_audit sv) @ [\<lparr>ev_Type = evt, ev_ClientID = [], ev_Sub = [], ev_IP = clientIP r, ev_Success = (rs_Status resp1 < 400),
              ev_Details = Some [(''method'', JStr (rq_Method r)), (''status'', JInt (rs_Status resp1))], ev_Timestamp = clock E (w_tick w1)\<rparr>]
            else lg_ch (sv_audit sv)))"
proof -
  obtain resp1 sv1 w1 where m: "run_state (mux E sv r) w = ((resp1, sv1), w1)" by (metis prod.exhaust)
  from assms m mux_audit [OF m] show ?thesis
    unfolding auditEventTypeByPath_def [symmetric]
    by (auto simp: auditOAuth_def Record_def audit_event_def enqueue_def ClientIP_is_clientIP split: option.split)
qed

definition sample_settings :: Settings where
  "sample_settings = \<lparr>st_dbPath = ''/data/bouncer.db'', st_listenAddr = '':8080'', st_encKey = [], st_rotationDays = 30 * (24 * hour),
     st_overlapHours = 24 * hour, st_accessTTL = hour, st_refreshTTL = 30 * (24 * hour), st_clientTTL = 90 * (24 * hour),
     st_registerLimit = 10, st_registerWindow = hour, st_metricsAddr = '':9090''\<rparr>"

definition sample_server :: server where
  "sample_server = \<lparr>sv_settings = sample_settings, sv_cipher = sample_cipher, sv_rotator = sample_rotator, sv_issuer = sample_issuer,
     sv_limiter = NewLimiter 10 hour, sv_audit = newSQLiteLoggerWithBuffer defaultBufferSize, sv_rotation = RotDone (Inr ())\<rparr>"

lemma sample_path: "rq_Path (form_request f) = ''/oauth/token''" "cleanPath ''/oauth/token'' = ''/oauth/token''"
  by (simp add: form_request_def) code_simp

theorem missing_headers_rejected_witness:
  "\<exists>resp sv' w'. run_state (logRequests sample_env sample_server (form_request [])) sample_world = ((resp, sv'), w') \<and>
     rs_Status resp = 400 \<and> w_db w' = w_db sample_world"
proof -
  obtain resp sv' w' where r: "run_state (logRequests sample_env sample_server (form_request [])) sample_world = ((resp, sv'), w')"
    by (metis prod.exhaust)
  have h: "ReqGet (form_request []) ''X-MCPB-Audience'' = []"
    by (simp add: ReqGet_def form_request_def hdr_Get_def hdr_values_def)
  have "\<not> lg_closed (sv_audit sample_server)" by (simp add: sample_server_def newSQLiteLoggerWithBuffer_def)
  with missing_headers_rejected [OF _ _ h r] r show ?thesis by (auto simp: sample_path)
qed

theorem oauth_requests_audited_witness:
  "\<exists>resp sv' w' e. run_state (auditOAuth sample_env sample_server (form_request [])) sample_world = ((resp, sv'), w') \<and>
     lg_ch (sv_audit sv') = [e] \<and> ev_Type e = ''oauth.token''"
proof -
  obtain resp sv' w' where r: "run_state (auditOAuth sample_env sample_server (form_request [])) sample_world = ((resp, sv'), w')"
    by (metis prod.exhaust)
  have c: "clock sample_env n \<noteq> zero_time" for n by (simp add: zero_time_def time_Unix_def second_def)
  from oauth_requests_audited [OF r c] r show ?thesis
    by (auto simp: sample_path sample_server_def newSQLiteLoggerWithBuffer_def defaultBufferSize_def)
qed

section \<open>The started server\<close>

lemma keeps_NewCipherWithStore_keys:
  "run_state (NewCipherWithStore E k) w = (c, w') \<Longrightarrow> signing_keys (w_db w') = signing_keys (w_db w)"
proof -
  have "keeps (\<lambda>w. (\<lambda>d. signing_keys d = ks) (w_db w)) (NewCipherWithStore E k)" for ks
    unfolding NewCipherWithStore_def ListEncryptionKeys_def InsertEncryptionKey_def
    by (intro hoare_rules keeps_db_stmt; simp split: option.split)
  from hoareD [OF this refl] show "run_state (NewCipherWithStore E k) w = (c, w') \<Longrightarrow> signing_keys (w_db w') = signing_keys (w_db w)" by blast
qed

lemma bump_same_db: "(bump w)\<lparr>w_db := w_db w\<rparr> = bump w"
  by (simp add: bump_def)

lemma startup_parts:
  assumes "run_state (startup E) w = (Inr sv, w')"
  shows "\<exists>st c w1. read_settings E = Inr st \<and> run_state (NewCipherWithStore E (st_encKey st)) (bump w) = (Inr c, w1) \<and>
    run_state (Ensure E (sv_rotator sv)) w1 = (Inr (), w') \<and> 0 < st_registerWindow st \<and> sv_limiter sv = NewLimiter (st_registerLimit st) (st_registerWindow st) \<and>
    sv_audit sv = newSQLiteLoggerWithBuffer defaultBufferSize \<and> is_accessTTL (sv_issuer sv) = ro_maxTokenTTL (sv_rotator sv) \<and>
    sv_rotation sv = RotDone (Inr ())"
proof -
  from assms obtain st where st: "read_settings E = Inr st"
    by (auto simp: startup_def split: sum.splits)
  with assms show ?thesis
    unfolding startup_def Let_def
    by (auto elim!: run_bindE simp: run_db_stmt bump_same_db simp del: run_state_bind split: sum.splits if_splits)
qed

lemma startup_keys:
  assumes "run_state (startup E) w = (Inr sv, w')" "keys_inv (signing_keys (w_db w))"
  shows "keys_inv (signing_keys (w_db w')) \<and> length (with_status ''active'' (signing_keys (w_db w'))) = 1"
proof -
  from startup_parts [OF assms(1)] obtain st :: Settings and c w1 where
    n: "run_state (NewCipherWithStore E (st_encKey st)) (bump w) = (Inr c, w1)" and e: "run_state (Ensure E (sv_rotator sv)) w1 = (Inr (), w')" by blast
  have k: "keys_inv (signing_keys (w_db w1))" using keeps_NewCipherWithStore_keys [OF n] assms(2) by simp
  moreover have "length (with_status ''active'' (signing_keys (w_db w'))) = 1"
    using Ensure_result [OF e] k by (auto simp: keys_inv_def le_Suc_eq)
  ultimately show ?thesis using keys_inv_Ensure [OF e] by simp
qed

lemma startup_limiter:
  assumes "run_state (startup E) w = (Inr sv, w')"
  shows "0 < lm_window (sv_limiter sv) \<and> 0 < lm_limit (sv_limiter sv) \<and> lm_buckets (sv_limiter sv) = []"
proof -
  from startup_parts [OF assms] obtain st where st: "read_settings E = Inr st" and
    sv: "0 < st_registerWindow st" "sv_limiter sv = NewLimiter (st_registerLimit st) (st_registerWindow st)" by blast
  have "st_registerLimit st = envInt E ''BOUNCER_REGISTER_RATE_LIMIT'' 10"
    using st by (auto simp: read_settings_def split: sum.splits)
  then have "0 < st_registerLimit st" by (auto simp: envInt_def split: option.split)
  with sv show ?thesis by (simp add: new_simps NewLimiter_def)
qed

text \<open>
  Property C27. A server that starts is ready: it has exactly one signing key to mint with, its limiter has a
  positive window and a positive limit, its audit channel is empty and open, and the token lifetimes the
  issuer uses are the ones the rotator keeps retired keys published for.
\<close>

theorem startup_ready:
  assumes "run_state (startup E) w = (Inr sv, w')" "keys_inv (signing_keys (w_db w))"
  shows "keys_inv (signing_keys (w_db w')) \<and> length (with_status ''active'' (signing_keys (w_db w'))) = 1 \<and>
    0 < lm_window (sv_limiter sv) \<and> 0 < lm_limit (sv_limiter sv) \<and> sv_audit sv = newSQLiteLoggerWithBuffer defaultBufferSize \<and>
    is_accessTTL (sv_issuer sv) = ro_maxTokenTTL (sv_rotator sv)"
proof -
  from startup_parts [OF assms(1)] have "sv_audit sv = newSQLiteLoggerWithBuffer defaultBufferSize"
    "is_accessTTL (sv_issuer sv) = ro_maxTokenTTL (sv_rotator sv)" by blast+
  with startup_limiter [OF assms(1)] startup_keys [OF assms] show ?thesis by blast
qed

definition sample_start_env :: env where
  "sample_start_env = sample_env\<lparr>os_env := \<lambda>k. if k = ''BOUNCER_ENCRYPTION_KEY'' then replicate 42 CHR ''A'' @ ''A='' else []\<rparr>"

lemma sample_start_key: "decodeKeyMaterial (replicate 42 CHR ''A'' @ ''A='') = Inr (replicate 32 (byte_of 0))"
  by code_simp

text \<open>A start with that key on an empty database succeeds in every environment whose database works and whose
  keys are those of the sample.\<close>

lemma start_run:
  fixes E :: env
  defines "key \<equiv> replicate 42 CHR ''A'' @ ''A=''"
  assumes env: "os_env E = os_env sample_start_env" "\<And>n. \<not> db_fail E n" "\<And>n. clock E n \<noteq> zero_time"
    "\<And>n. ed25519_GenerateKey E n = Some (sample_key, sample_key)" "x509_MarshalPKCS8PrivateKey E = Inr"
    "x509_MarshalPKIXPublicKey E = Inr" "\<And>t b. pem_EncodeToMemory E t b = b"
    and db: "w_db w = empty_db"
  shows "\<exists>sv w'. run_state (startup E) w = (Inr sv, w')"
proof -
  have os: "os_env E ''BOUNCER_ENCRYPTION_KEY'' = key" "\<And>k. k \<noteq> ''BOUNCER_ENCRYPTION_KEY'' \<Longrightarrow> os_env E k = []"
    by (simp_all add: env(1) sample_start_env_def key_def)
  have d: "envDuration E k v u = wrap64 (v * u)" if "k \<noteq> ''BOUNCER_ENCRYPTION_KEY''" for k v u
    using that by (simp add: envDuration_def os)
  have ne: "key \<noteq> []" by (simp add: key_def)
  obtain st where st: "read_settings E = Inr st" "st_encKey st = key" "st_registerWindow st = hour"
    using ne by (simp add: read_settings_def mustEnv_def os(1) d wrap64_id in_int64_def hour_def second_def)
  have k: "decodeKeyMaterial key = Inr (replicate 32 (byte_of 0))" unfolding key_def by (rule sample_start_key)
  then have a: "aeadFromBase64 key = Inr (replicate 32 (byte_of 0))" by (simp add: aeadFromBase64_def aeadFromRaw_def)
  obtain c w1 where c: "run_state (NewCipherWithStore E key) (bump w) = (Inr c, w1)" "signing_keys (w_db w1) = []"
    unfolding NewCipherWithStore_def a k
    by (simp add: ListEncryptionKeys_def InsertEncryptionKey_def run_db_stmt env Let_def encryption_status_ok_def sql_insert_def db empty_db_def)
  obtain w2 where "run_state (Ensure E \<lparr>ro_rotationInterval = st_rotationDays st, ro_overlap = st_overlapHours st,
      ro_maxTokenTTL = st_accessTTL st\<rparr>) w1 = (Inr (), w2)"
    by (simp add: Ensure_def store_run env generateEd25519_def InsertSigningKey_def run_db_stmt Let_def sql_insert_def signing_status_ok_def c(2))
  with st c show ?thesis
    by (auto simp: startup_def run_db_stmt env bump_same_db Let_def hour_def second_def)
qed

lemma sample_start_run: "\<exists>sv w'. run_state (startup sample_start_env) sample_world = (Inr sv, w')"
  by (rule start_run) (simp_all add: sample_start_env_def sample_env_def sample_world_def zero_time_def time_Unix_def second_def)

theorem startup_ready_witness:
  "\<exists>sv w'. run_state (startup sample_start_env) sample_world = (Inr sv, w') \<and> length (with_status ''active'' (signing_keys (w_db w'))) = 1"
proof -
  from sample_start_run obtain sv w' where r: "run_state (startup sample_start_env) sample_world = (Inr sv, w')" by blast
  have "keys_inv (signing_keys (w_db sample_world))" by (simp add: keys_inv_def sample_world_def empty_db_def)
  from startup_ready [OF r this] r show ?thesis by blast
qed

end
