(* ===== verification/Lineage.thy ===== *)
theory Lineage
  imports Server "HOL-Library.Sublist"
begin

text \<open>
  The contract between the tables and the handlers. \<open>db_ok\<close> is what every statement keeps of the
  schema; \<open>db_inv\<close> adds a predicate on the rows of four tables. The locale \<open>lineage\<close> says when a
  request may add a row (a registered client, an opened session, a granted code, a redeemed code);
  its one result is that serving the request keeps \<open>db_inv\<close>. It is interpreted twice: with no
  demand on the rows, which gives the schema, and with the requests served so far as evidence,
  which gives the provenance of every row.
\<close>

section \<open>Well-formed databases\<close>

abbreviation whole :: "time \<Rightarrow> bool" where
  "whole t \<equiv> stored_time t = t"

definition db_ok :: "db \<Rightarrow> bool" where
  "db_ok d \<longleftrightarrow> keys_inv (signing_keys d) \<and> unique_key cl_ClientID (clients d) \<and> unique_key se_State (auth_sessions d) \<and>
     unique_key co_Code (codes d) \<and> unique_key rt_TokenHash (refresh_tokens d) \<and> unique_key rr_Name (resource_configs d) \<and>
     unique_key ek_KeyID (encryption_keys d) \<and> (\<forall>k \<in> set (encryption_keys d). encryption_status_ok (ek_Status k)) \<and>
     (\<forall>a \<in> set (audit_events d). ar_Success a = 0 \<or> ar_Success a = 1) \<and>
     (\<forall>c \<in> set (clients d). whole (cl_CreatedAt c) \<and> whole (cl_LastUsedAt c)) \<and>
     (\<forall>s \<in> set (auth_sessions d). whole (se_CreatedAt s) \<and> whole (se_ExpiresAt s)) \<and>
     (\<forall>c \<in> set (codes d). whole (co_ExpiresAt c)) \<and> (\<forall>t \<in> set (refresh_tokens d). whole (rt_ExpiresAt t))"

definition db_inv :: "(Client \<Rightarrow> bool) \<Rightarrow> (AuthSession \<Rightarrow> bool) \<Rightarrow> (Code \<Rightarrow> bool) \<Rightarrow> (RefreshToken \<Rightarrow> bool) \<Rightarrow> db \<Rightarrow> bool" where
  "db_inv C P Q R d \<longleftrightarrow> db_ok d \<and> (\<forall>c \<in> set (clients d). C c) \<and> (\<forall>s \<in> set (auth_sessions d). P s) \<and>
     (\<forall>c \<in> set (codes d). Q c) \<and> (\<forall>t \<in> set (refresh_tokens d). R t)"

lemma db_inv_mono:
  assumes "db_inv C P Q R d" "\<And>c. C c \<Longrightarrow> C' c" "\<And>s. P s \<Longrightarrow> P' s" "\<And>c. Q c \<Longrightarrow> Q' c" "\<And>t. R t \<Longrightarrow> R' t"
  shows "db_inv C' P' Q' R' d"
  using assms by (auto simp: db_inv_def)

lemma db_inv_signing_keys: "db_inv C P Q R d \<Longrightarrow> keys_inv ks \<Longrightarrow> db_inv C P Q R (d\<lparr>signing_keys := ks\<rparr>)"
  by (simp add: db_inv_def db_ok_def)

section \<open>Statements\<close>

lemma set_sql_update: "set (sql_update P f t) = (\<lambda>r. if P r then f r else r) ` set t"
  by (simp add: sql_update_def)

named_theorems inv_rules \<open>rules that keep \<open>db_inv\<close>\<close>

lemma inv_reads [inv_rules]:
  "keeps (\<lambda>w. db_inv C P Q R (w_db w)) (ListSigningKeys E)" "keeps (\<lambda>w. db_inv C P Q R (w_db w)) (GetActiveSigningKey E)"
  "keeps (\<lambda>w. db_inv C P Q R (w_db w)) (GetRefreshTokenByHash E k)"
  unfolding ListSigningKeys_def GetActiveSigningKey_def GetRefreshTokenByHash_def by (rule keeps_db_stmt, simp)+

lemma inv_deletes [inv_rules]:
  "keeps (\<lambda>w. db_inv C P Q R (w_db w)) (DeleteAuthSession E k)" "keeps (\<lambda>w. db_inv C P Q R (w_db w)) (DeleteCode E k)"
  "keeps (\<lambda>w. db_inv C P Q R (w_db w)) (DeleteRefreshTokenByHash E k)"
  unfolding DeleteAuthSession_def DeleteCode_def DeleteRefreshTokenByHash_def
  by (rule keeps_db_stmt, simp add: db_inv_def db_ok_def sql_delete_unique)+

lemma inv_expired [inv_rules]:
  "keeps (\<lambda>w. db_inv C P Q R (w_db w)) (DeleteExpiredAuthSessions E)" "keeps (\<lambda>w. db_inv C P Q R (w_db w)) (DeleteExpiredCodes E)"
  "keeps (\<lambda>w. db_inv C P Q R (w_db w)) (DeleteExpiredRefreshTokens E)" "keeps (\<lambda>w. db_inv C P Q R (w_db w)) (DeleteExpiredSigningKeys E)"
  "keeps (\<lambda>w. db_inv C P Q R (w_db w)) (DeleteStaleClients E n)"
  unfolding DeleteExpiredAuthSessions_def DeleteExpiredCodes_def DeleteExpiredRefreshTokens_def DeleteExpiredSigningKeys_def DeleteStaleClients_def
  by (intro hoare_rules keeps_db_stmt; simp add: db_inv_def db_ok_def sql_delete_unique keys_inv_delete Let_def)+

lemma inv_UpsertResourceConfig [inv_rules]: "keeps (\<lambda>w. db_inv C P Q R (w_db w)) (UpsertResourceConfig E row)"
proof -
  have u: "unique_key rr_Name (sql_update (\<lambda>r. rr_Name r = rr_Name row) (\<lambda>_. row') t)" if "unique_key rr_Name t" "rr_Name row' = rr_Name row" for t row'
  proof -
    have "map rr_Name (sql_update (\<lambda>r. rr_Name r = rr_Name row) (\<lambda>_. row') t) = map rr_Name t"
      using that(2) by (auto simp: sql_update_def)
    with that(1) show ?thesis by simp
  qed
  show ?thesis unfolding UpsertResourceConfig_def
    by (intro keeps_db_stmt) (auto simp: db_inv_def db_ok_def Let_def u dest: sql_insert_unique split: option.split)
qed

lemma inv_TouchClient:
  assumes "\<And>c t. C c \<Longrightarrow> C (c\<lparr>cl_LastUsedAt := t\<rparr>)"
  shows "keeps (\<lambda>w. db_inv C P Q R (w_db w)) (TouchClient E k)"
  unfolding TouchClient_def
  by (intro hoare_rules keeps_db_stmt) (auto simp: db_inv_def db_ok_def sql_update_unique set_sql_update assms)

lemma inv_InsertAuthSession [inv_rules]:
  assumes "P (s\<lparr>se_CreatedAt := stored_time (se_CreatedAt s), se_ExpiresAt := stored_time (se_ExpiresAt s)\<rparr>)"
  shows "keeps (\<lambda>w. db_inv C P Q R (w_db w)) (InsertAuthSession E s)"
  using assms unfolding InsertAuthSession_def
  by (intro keeps_db_stmt) (auto simp: db_inv_def db_ok_def sql_insert_def split: option.split if_splits)

lemma inv_InsertCode [inv_rules]:
  assumes "Q (c\<lparr>co_ExpiresAt := stored_time (co_ExpiresAt c)\<rparr>)"
  shows "keeps (\<lambda>w. db_inv C P Q R (w_db w)) (InsertCode E c)"
  using assms unfolding InsertCode_def
  by (intro keeps_db_stmt) (auto simp: db_inv_def db_ok_def sql_insert_def split: option.split if_splits)

lemma inv_InsertRefreshToken [inv_rules]:
  assumes "R (t\<lparr>rt_ExpiresAt := stored_time (rt_ExpiresAt t)\<rparr>)"
  shows "keeps (\<lambda>w. db_inv C P Q R (w_db w)) (InsertRefreshToken E t)"
  using assms unfolding InsertRefreshToken_def
  by (intro keeps_db_stmt) (auto simp: db_inv_def db_ok_def sql_insert_def split: option.split if_splits)

lemma inv_InsertClient [inv_rules]:
  assumes "\<And>t. C (c\<lparr>cl_CreatedAt := stored_time (cl_CreatedAt c), cl_LastUsedAt := t\<rparr>)"
  shows "keeps (\<lambda>w. db_inv C P Q R (w_db w)) (InsertClient E c)"
  using assms unfolding InsertClient_def
  by (intro hoare_rules keeps_db_stmt) (auto simp: db_inv_def db_ok_def sql_insert_def split: option.split if_splits)

lemma inv_InsertAuditEvent [inv_rules]: "keeps (\<lambda>w. db_inv C P Q R (w_db w)) (InsertAuditEvent E a b c d e f)"
  unfolding InsertAuditEvent_def by (intro hoare_rules keeps_db_stmt) (auto simp: db_inv_def db_ok_def)

lemma inv_encryption_keys:
  "keeps (\<lambda>w. db_inv C P Q R (w_db w)) (ListEncryptionKeys E)" "keeps (\<lambda>w. db_inv C P Q R (w_db w)) (InsertEncryptionKey E k)"
  "keeps (\<lambda>w. db_inv C P Q R (w_db w)) (SetEncryptionKeyStatus E kid st)"
  subgoal unfolding ListEncryptionKeys_def by (rule keeps_db_stmt) simp
  subgoal unfolding InsertEncryptionKey_def
    by (intro hoare_rules keeps_db_stmt) (auto simp: db_inv_def db_ok_def sql_insert_def split: option.split if_splits)
  subgoal unfolding SetEncryptionKeyStatus_def
    by (intro keeps_db_stmt) (auto simp: db_inv_def db_ok_def sql_update_unique set_sql_update)
  done

text \<open>What a lookup returns satisfies the predicate of its table.\<close>

lemma keeps_bind_fact: "hoare I m (\<lambda>a s. I s \<and> A a) \<Longrightarrow> (\<And>a. A a \<Longrightarrow> keeps I (f a)) \<Longrightarrow> keeps I (State_Monad.bind m f)"
  by (erule hoare_bind) (simp add: hoare_def)

lemma inv_GetClient [inv_rules]:
  assumes "\<And>a. (\<forall>c. a = Inr (Some c) \<longrightarrow> C c \<and> cl_ClientID c = k) \<Longrightarrow> keeps (\<lambda>w. db_inv C P Q R (w_db w)) (f a)"
  shows "keeps (\<lambda>w. db_inv C P Q R (w_db w)) (State_Monad.bind (GetClient E k) f)"
  by (rule keeps_bind_fact [OF _ assms]) (auto simp: hoare_def store_run db_inv_def dest!: sql_get_Some)

lemma inv_GetAuthSession [inv_rules]:
  assumes "\<And>a. (\<forall>s. a = Inr (Some s) \<longrightarrow> P s \<and> se_State s = k) \<Longrightarrow> keeps (\<lambda>w. db_inv C P Q R (w_db w)) (f a)"
  shows "keeps (\<lambda>w. db_inv C P Q R (w_db w)) (State_Monad.bind (GetAuthSession E k) f)"
  by (rule keeps_bind_fact [OF _ assms]) (auto simp: hoare_def store_run db_inv_def dest!: sql_get_Some)

lemma inv_GetCode [inv_rules]:
  assumes "\<And>a. (\<forall>c. a = Inr (Some c) \<longrightarrow> Q c \<and> co_Code c = k) \<Longrightarrow> keeps (\<lambda>w. db_inv C P Q R (w_db w)) (f a)"
  shows "keeps (\<lambda>w. db_inv C P Q R (w_db w)) (State_Monad.bind (GetCode E k) f)"
  by (rule keeps_bind_fact [OF _ assms]) (auto simp: hoare_def store_run db_inv_def dest!: sql_get_Some)

lemma inv_GetRefreshToken [inv_rules]:
  assumes "\<And>a. (\<forall>t. a = Inr (Some t) \<longrightarrow> R t) \<Longrightarrow> keeps (\<lambda>w. db_inv C P Q R (w_db w)) (f a)"
  shows "keeps (\<lambda>w. db_inv C P Q R (w_db w)) (State_Monad.bind (GetRefreshTokenByHash E k) f)"
  by (rule keeps_bind_fact [OF _ assms]) (auto simp: hoare_def store_run db_inv_def dest!: sql_get_Some)

section \<open>Operations that add no row of the four tables\<close>

lemma keeps_refresh_upstream [hoare_rules]: "keeps (\<lambda>w. I (w_db w)) (refresh_upstream E cipher rc enc)"
  unfolding refresh_upstream_def Let_def by (intro hoare_rules) auto

lemma inv_PersistEncrypted [inv_rules]: "keeps (\<lambda>w. db_inv C P Q R (w_db w)) (PersistEncrypted E c rc)"
  unfolding PersistEncrypted_def by (intro inv_rules hoare_rules)

lemma inv_AllPublishableKeys [inv_rules]: "keeps (\<lambda>w. db_inv C P Q R (w_db w)) (AllPublishableKeys E)"
  unfolding AllPublishableKeys_def by (rule inv_rules)

lemma inv_HandleJWKS [inv_rules]: "keeps (\<lambda>w. db_inv C P Q R (w_db w)) (HandleJWKS E)"
  unfolding HandleJWKS_def by (intro inv_rules hoare_rules)

lemma inv_HandleRevoke [inv_rules]: "keeps (\<lambda>w. db_inv C P Q R (w_db w)) (HandleRevoke E r)"
  unfolding HandleRevoke_def Let_def by (intro inv_rules hoare_rules)

lemma inv_verifyAccessJWT [inv_rules]: "keeps (\<lambda>w. db_inv C P Q R (w_db w)) (verifyAccessJWT E rc tok)"
  unfolding verifyAccessJWT_def by (auto intro!: inv_rules hoare_rules split: list.split)

lemma inv_HandleIntrospect [inv_rules]: "keeps (\<lambda>w. db_inv C P Q R (w_db w)) (HandleIntrospect E rc r)"
  unfolding HandleIntrospect_def introspect_token_def introspect_access_def Let_def
  by (intro inv_rules hoare_rules)

lemma inv_getKey [inv_rules]: "keeps (\<lambda>w. db_inv C P Q R (w_db w)) (getKey E m kid alg)"
  unfolding getKey_def by (intro hoare_rules)

lemma inv_HandleUserinfo [inv_rules]: "keeps (\<lambda>w. db_inv C P Q R (w_db w)) (HandleUserinfo E rc r)"
  unfolding HandleUserinfo_def verifyLocalJWT_def Let_def by (auto intro!: inv_rules hoare_rules split: list.split)

lemma inv_worker_turn [inv_rules]: "keeps (\<lambda>w. db_inv C P Q R (w_db w)) (worker_turn E l)"
  unfolding worker_turn_def persist_def by (auto intro!: inv_rules hoare_rules split: list.split)

lemma inv_janitor: "m \<in> set (janitor_stmts E ttl) \<Longrightarrow> keeps (\<lambda>w. db_inv C P Q R (w_db w)) m"
  by (auto simp: janitor_stmts_def intro!: inv_rules hoare_rules)

lemma inv_Ensure:
  assumes "run_state (Ensure E ro) w = (x, w')" "db_inv C P Q R (w_db w)"
  shows "db_inv C P Q R (w_db w')"
proof -
  have k: "keys_inv (signing_keys (w_db w))" using assms(2) by (simp add: db_inv_def db_ok_def)
  have "\<exists>ks. w_db w' = (w_db w)\<lparr>signing_keys := ks\<rparr>"
  proof (cases "w_db w' = w_db w")
    case True
    then show ?thesis by (intro exI [of _ "signing_keys (w_db w)"]) simp
  qed (use Ensure_result [OF assms(1)] in blast)
  with keys_inv_Ensure [OF assms(1) k] db_inv_signing_keys [OF assms(2)] show ?thesis by auto
qed

lemma inv_startup [inv_rules]: "keeps (\<lambda>w. db_inv C P Q R (w_db w)) (startup E)"
proof -
  have [inv_rules]: "keeps (\<lambda>w. db_inv C P Q R (w_db w)) (Ensure E ro)" for ro
    by (rule hoareI) (rule inv_Ensure)
  show ?thesis unfolding startup_def NewCipherWithStore_def Let_def
    by (intro inv_rules inv_encryption_keys hoare_rules keeps_db_stmt) auto
qed

section \<open>The contract\<close>

text \<open>
  What makes a new row legitimate while the request \<open>r\<close> is served: the request itself, the row it was
  derived from, and the checks of the handler. Touching a client and renewing a refresh token keep
  what is known of them.
\<close>

locale lineage =
  fixes E :: env and r :: request
    and client_ok :: "Client \<Rightarrow> bool" and session_ok :: "AuthSession \<Rightarrow> bool"
    and code_ok :: "Code \<Rightarrow> bool" and refresh_ok :: "RefreshToken \<Rightarrow> bool"
  assumes touched: "client_ok c \<Longrightarrow> client_ok (c\<lparr>cl_LastUsedAt := now\<rparr>)"
    and registered: "rq_Path r = ''/oauth/register'' \<Longrightarrow> FromRequest r = Inr rc \<Longrightarrow> rq_Body r = Inr b \<Longrightarrow>
      parse_register (limit_read 65536 b) = Inr req \<Longrightarrow> \<forall>u \<in> set (rg_RedirectURIs req). validateRedirectURI E u = [] \<Longrightarrow>
      cl_RedirectURIsJSON c = json_marshal (JArr (map JStr (rg_RedirectURIs req))) \<Longrightarrow> cl_Resource c = rc_Name rc \<Longrightarrow> client_ok c"
    and opened: "rq_Path r = ''/oauth/authorize'' \<Longrightarrow> FromRequest r = Inr rc \<Longrightarrow> client_ok c \<Longrightarrow> cl_ClientID c = QueryGet r ''client_id'' \<Longrightarrow>
      unmarshal_strings (cl_RedirectURIsJSON c) = Inr uris \<Longrightarrow> QueryGet r ''redirect_uri'' \<in> set uris \<Longrightarrow>
      QueryGet r ''code_challenge_method'' = ''S256'' \<Longrightarrow> se_CodeChallenge s = QueryGet r ''code_challenge'' \<Longrightarrow>
      se_CodeChallengeMethod s = ''S256'' \<Longrightarrow> se_RedirectURI s = QueryGet r ''redirect_uri'' \<Longrightarrow> se_ClientID s = QueryGet r ''client_id'' \<Longrightarrow>
      se_Resource s = rc_Name rc \<Longrightarrow> se_Scopes s = (if QueryGet r ''scope'' = [] then rc_Scopes rc else QueryGet r ''scope'') \<Longrightarrow>
      session_ok s"
    and granted: "rq_Path r = ''/oauth/callback'' \<Longrightarrow> QueryGet r ''error'' = [] \<Longrightarrow> QueryGet r ''code'' \<noteq> [] \<Longrightarrow> session_ok s \<Longrightarrow>
      se_State s = QueryGet r ''state'' \<Longrightarrow> co_ClientID k = se_ClientID s \<Longrightarrow> co_Resource k = se_Resource s \<Longrightarrow> co_Scopes k = se_Scopes s \<Longrightarrow>
      co_RedirectURI k = se_RedirectURI s \<Longrightarrow> co_CodeChallenge k = se_CodeChallenge s \<Longrightarrow>
      co_CodeChallengeMethod k = se_CodeChallengeMethod s \<Longrightarrow> code_ok k"
    and redeemed: "rq_Path r = ''/oauth/token'' \<Longrightarrow> FormValue r ''grant_type'' = ''authorization_code'' \<Longrightarrow> code_ok k \<Longrightarrow>
      co_Code k = FormValue r ''code'' \<Longrightarrow> co_RedirectURI k = FormValue r ''redirect_uri'' \<Longrightarrow>
      pkceS256Challenge (FormValue r ''code_verifier'') = co_CodeChallenge k \<Longrightarrow> rt_ClientID t = co_ClientID k \<Longrightarrow>
      rt_Resource t = co_Resource k \<Longrightarrow> rt_Sub t = co_Sub k \<Longrightarrow> rt_Scopes t = co_Scopes k \<Longrightarrow> refresh_ok t"
    and renewed: "refresh_ok t \<Longrightarrow> refresh_ok (t\<lparr>rt_TokenHash := h, rt_UpstreamRefreshEnc := e, rt_ExpiresAt := x\<rparr>)"
begin

abbreviation inv :: "world \<Rightarrow> bool" where
  "inv w \<equiv> db_inv client_ok session_ok code_ok refresh_ok (w_db w)"

lemmas keeps_touch = inv_TouchClient [of client_ok, OF touched]

lemma keeps_HandleRegister:
  assumes "rq_Path r = ''/oauth/register''" "FromRequest r = Inr rc"
  shows "keeps inv (HandleRegister E rc r)"
  unfolding HandleRegister_def register_client_def Let_def
  by (intro inv_rules hoare_rules) (auto simp: first_invalid_ok intro: registered [OF assms])

lemma keeps_HandleAuthorize:
  assumes "rq_Path r = ''/oauth/authorize''" "FromRequest r = Inr rc"
  shows "keeps inv (HandleAuthorize E rc r)"
  unfolding HandleAuthorize_def start_session_def Let_def
  by (intro inv_rules hoare_rules keeps_touch) (auto simp: containsString_set intro: opened [OF assms])

lemma keeps_HandleCallback:
  assumes "rq_Path r = ''/oauth/callback''"
  shows "keeps inv (HandleCallback E cipher rc r)"
  unfolding HandleCallback_def callback_error_def issue_code_def Let_def
  by (intro inv_rules hoare_rules) (auto intro: granted [OF assms])

lemma keeps_HandleToken:
  assumes "rq_Path r = ''/oauth/token''"
  shows "keeps inv (HandleToken E i cipher rc r)"
  unfolding HandleToken_def handleAuthorizationCode_def redeem_row_def handleRefreshToken_def issue_for_code_def issue_for_refresh_def Let_def
  by (intro inv_rules hoare_rules keeps_touch) (auto intro: redeemed [OF assms] renewed)

lemma keeps_rc_handler:
  assumes "rc_handler E sv (rq_Path r) = Some h" "FromRequest r = Inr rc"
  shows "keeps inv (h rc r)"
  using assms inv_HandleIntrospect inv_HandleUserinfo
  by (auto simp: rc_handler_def intro!: keeps_HandleAuthorize keeps_HandleCallback keeps_HandleToken hoare_return split: if_splits)

lemma keeps_withRC:
  assumes "\<And>rc. FromRequest r = Inr rc \<Longrightarrow> keeps inv (h rc r)"
  shows "keeps inv (withRC E cipher h r)"
  unfolding withRC_def by (intro hoare_rules inv_rules assms) auto

lemma keeps_mux: "keeps inv (mux E sv r)"
  unfolding mux_def Let_def Middleware_def
  by (intro hoare_rules inv_rules keeps_withRC keeps_HandleRegister keeps_rc_handler) auto

lemma keeps_logRequests: "keeps inv (logRequests E sv r)"
  unfolding logRequests_def auditOAuth_def Record_def by (intro hoare_rules keeps_mux) auto

end

end
