(* ===== verification/System.thy ===== *)
theory System
  imports Lineage
begin

text \<open>
  The sidecar as a whole. \<open>reach\<close> installs an empty database and lets the process start, fail to start, serve requests, close its audit log and
  crash, in any order. While it is up, its goroutines run between the requests: the limiter's sweep, the audit worker, the janitor one
  clean-up at a time, and the rotator one statement at a time, so that a rotation may be interrupted by requests and cut short by a crash.
  Operators change encryption keys at any time. The history keeps each served request with the world
  before and after it. A request is one step. A start may find any provider cache (the real one is empty). The properties hold in every reachable state: the tables are well-formed,
  there is a key to sign with except in one window of a rotation, every token goes back to a registration, an authorization
  request and a return from the provider, and browsers are sent only to registered redirect URIs.
\<close>

section \<open>Runs of the sidecar\<close>

type_synonym served = "request \<times> world \<times> world"

abbreviation req :: "served \<Rightarrow> request" where "req e \<equiv> fst e"
abbreviation before :: "served \<Rightarrow> db" where "before e \<equiv> w_db (fst (snd e))"
abbreviation after :: "served \<Rightarrow> db" where "after e \<equiv> w_db (snd (snd e))"

datatype process = Down | Up server

inductive reach :: "env \<Rightarrow> served list \<Rightarrow> process \<Rightarrow> world \<Rightarrow> bool" for E where
  install: "w_db w = empty_db \<Longrightarrow> reach E [] Down w"
| start: "reach E h Down w \<Longrightarrow> run_state (startup E) (w\<lparr>w_providers := p\<rparr>) = (Inr sv, w') \<Longrightarrow> reach E h (Up sv) w'"
| failed_start: "reach E h Down w \<Longrightarrow> run_state (startup E) (w\<lparr>w_providers := p\<rparr>) = (Inl e, w') \<Longrightarrow> reach E h Down w'"
| crash: "reach E h (Up sv) w \<Longrightarrow> reach E h Down w"
| serve: "reach E h (Up sv) w \<Longrightarrow> run_state (logRequests E sv r) w = ((resp, sv'), w') \<Longrightarrow> reach E (h @ [(r, w, w')]) (Up sv') w'"
| janitor: "reach E h (Up sv) w \<Longrightarrow> m \<in> set (janitor_stmts E (st_clientTTL (sv_settings sv))) \<Longrightarrow> run_state m w = (x, w') \<Longrightarrow> reach E h (Up sv) w'"
| rotate: "reach E h (Up sv) w \<Longrightarrow> run_state (rot_step E (sv_rotator sv) (sv_rotation sv)) w = (pc, w') \<Longrightarrow> reach E h (Up (sv\<lparr>sv_rotation := pc\<rparr>)) w'"
| worker: "reach E h (Up sv) w \<Longrightarrow> run_state (worker_turn E (sv_audit sv)) w = (l, w') \<Longrightarrow> reach E h (Up (sv\<lparr>sv_audit := l\<rparr>)) w'"
| sweep: "reach E h (Up sv) w \<Longrightarrow> reach E h (Up (sv\<lparr>sv_limiter := gc_tick (clock E (w_tick w)) (sv_limiter sv)\<rparr>)) (bump w)"
| close: "reach E h (Up sv) w \<Longrightarrow> reach E h (Up (sv\<lparr>sv_audit := Close (sv_audit sv)\<rparr>)) w"
| add_key: "reach E h p w \<Longrightarrow> run_state (InsertEncryptionKey E k) w = (x, w') \<Longrightarrow> reach E h p w'"
| set_key: "reach E h p w \<Longrightarrow> run_state (SetEncryptionKeyStatus E kid st) w = (x, w') \<Longrightarrow> reach E h p w'"

section \<open>A key to sign with\<close>

named_theorems key_frame \<open>operations that leave the signing keys alone\<close>

lemma key_frame_statements [key_frame]:
  "keeps (\<lambda>w. K (signing_keys (w_db w))) (ListSigningKeys E)" "keeps (\<lambda>w. K (signing_keys (w_db w))) (GetClient E k)"
  "keeps (\<lambda>w. K (signing_keys (w_db w))) (GetAuthSession E k)" "keeps (\<lambda>w. K (signing_keys (w_db w))) (GetCode E k)"
  "keeps (\<lambda>w. K (signing_keys (w_db w))) (GetRefreshTokenByHash E k)" "keeps (\<lambda>w. K (signing_keys (w_db w))) (DeleteAuthSession E k)"
  "keeps (\<lambda>w. K (signing_keys (w_db w))) (DeleteCode E k)" "keeps (\<lambda>w. K (signing_keys (w_db w))) (DeleteRefreshTokenByHash E k)"
  "keeps (\<lambda>w. K (signing_keys (w_db w))) (UpsertResourceConfig E row)"
  unfolding ListSigningKeys_def GetClient_def GetAuthSession_def GetCode_def GetRefreshTokenByHash_def DeleteAuthSession_def DeleteCode_def
    DeleteRefreshTokenByHash_def UpsertResourceConfig_def Let_def
  by (rule keeps_db_stmt, simp)+

lemma key_frame_inserts [key_frame]:
  "keeps (\<lambda>w. K (signing_keys (w_db w))) (InsertAuthSession E s)" "keeps (\<lambda>w. K (signing_keys (w_db w))) (InsertCode E c)"
  "keeps (\<lambda>w. K (signing_keys (w_db w))) (InsertRefreshToken E t)"
  unfolding InsertAuthSession_def InsertCode_def InsertRefreshToken_def by (rule keeps_db_stmt, simp split: option.split)+

lemma key_frame_timed [key_frame]:
  "keeps (\<lambda>w. K (signing_keys (w_db w))) (TouchClient E k)" "keeps (\<lambda>w. K (signing_keys (w_db w))) (InsertClient E c)"
  "keeps (\<lambda>w. K (signing_keys (w_db w))) (InsertAuditEvent E a1 a2 a3 a4 a5 a6)" "keeps (\<lambda>w. K (signing_keys (w_db w))) (InsertEncryptionKey E ek)"
  "keeps (\<lambda>w. K (signing_keys (w_db w))) (DeleteExpiredAuthSessions E)" "keeps (\<lambda>w. K (signing_keys (w_db w))) (DeleteExpiredCodes E)"
  "keeps (\<lambda>w. K (signing_keys (w_db w))) (DeleteExpiredRefreshTokens E)" "keeps (\<lambda>w. K (signing_keys (w_db w))) (DeleteStaleClients E n)"
  unfolding TouchClient_def InsertClient_def InsertAuditEvent_def InsertEncryptionKey_def DeleteExpiredAuthSessions_def DeleteExpiredCodes_def
    DeleteExpiredRefreshTokens_def DeleteStaleClients_def
  by (intro hoare_rules keeps_time_Now [of "\<lambda>d. K (signing_keys d)"] keeps_db_stmt [of "\<lambda>d. K (signing_keys d)"];
      simp add: Let_def split: option.split)+

lemma key_frame_verifiers [key_frame]:
  "keeps (\<lambda>w. K (signing_keys (w_db w))) (verifyAccessJWT E rc tok)" "keeps (\<lambda>w. K (signing_keys (w_db w))) (verifyLocalJWT E (getKey E m) tok)"
  unfolding verifyAccessJWT_def verifyLocalJWT_def AllPublishableKeys_def getKey_def Let_def
  by (auto intro!: key_frame hoare_rules split: list.split)

lemma key_frame_handlers [key_frame]:
  "keeps (\<lambda>w. K (signing_keys (w_db w))) (HandleRegister E rc r)" "keeps (\<lambda>w. K (signing_keys (w_db w))) (HandleAuthorize E rc r)"
  "keeps (\<lambda>w. K (signing_keys (w_db w))) (HandleCallback E c rc r)" "keeps (\<lambda>w. K (signing_keys (w_db w))) (HandleToken E i c rc r)"
  "keeps (\<lambda>w. K (signing_keys (w_db w))) (HandleIntrospect E rc r)" "keeps (\<lambda>w. K (signing_keys (w_db w))) (HandleUserinfo E rc r)"
  "keeps (\<lambda>w. K (signing_keys (w_db w))) (HandleRevoke E r)" "keeps (\<lambda>w. K (signing_keys (w_db w))) (HandleJWKS E)"
  unfolding HandleRegister_def register_client_def HandleAuthorize_def start_session_def HandleCallback_def callback_error_def issue_code_def
    HandleToken_def handleAuthorizationCode_def redeem_row_def handleRefreshToken_def issue_for_code_def issue_for_refresh_def HandleIntrospect_def
    introspect_token_def introspect_access_def HandleUserinfo_def HandleRevoke_def HandleJWKS_def AllPublishableKeys_def Let_def
  by (intro key_frame hoare_rules | assumption)+

lemma key_frame_mux: "keeps (\<lambda>w. K (signing_keys (w_db w))) (mux E sv r)"
proof -
  have rc: "keeps (\<lambda>w. K (signing_keys (w_db w))) (withRC E c h r)" if "\<And>rc. keeps (\<lambda>w. K (signing_keys (w_db w))) (h rc r)" for c h
    unfolding withRC_def PersistEncrypted_def by (intro key_frame hoare_rules that)
  have h: "keeps (\<lambda>w. K (signing_keys (w_db w))) (h rc r)" if "rc_handler E sv p = Some h" for h rc p
    using that by (auto simp: rc_handler_def intro!: key_frame hoare_return split: if_splits)
  show ?thesis unfolding mux_def Let_def Middleware_def by (intro key_frame hoare_rules rc h)
qed

lemma key_frame_logRequests [key_frame]: "keeps (\<lambda>w. K (signing_keys (w_db w))) (logRequests E sv r)"
  unfolding logRequests_def auditOAuth_def Record_def by (intro hoare_rules key_frame_mux)

text \<open>What holds of the key table and the rotator in every reachable state.\<close>

definition keys_ok :: "env \<Rightarrow> process \<Rightarrow> SigningKey list \<Rightarrow> bool" where
  "keys_ok E p ks \<longleftrightarrow> keys_inv ks \<and> (case p of Down \<Rightarrow> True | Up sv \<Rightarrow> rot_ok (sv_rotation sv) ks \<and>
     (no_faults E \<and> (\<forall>now n. sv_rotation sv \<noteq> RotRetired now n) \<longrightarrow> length (with_status ''active'' ks) = 1))"

lemma keys_ok_expired: "keys_ok E p ks \<Longrightarrow> keys_ok E p (sql_delete (key_expired t) ks)"
  by (auto simp: keys_ok_def keys_inv_delete rot_ok_expired with_status_expired split: process.splits)

lemma key_frame_janitor:
  assumes "\<And>t ks. K ks \<Longrightarrow> K (sql_delete (key_expired t) ks)" "m \<in> set (janitor_stmts E ttl)"
  shows "keeps (\<lambda>w. K (signing_keys (w_db w))) m"
proof -
  have "keeps (\<lambda>w. K (signing_keys (w_db w))) (DeleteExpiredSigningKeys E)"
    unfolding DeleteExpiredSigningKeys_def
    by (intro hoare_rules keeps_time_Now [of "\<lambda>d. K (signing_keys d)"] keeps_db_stmt [of "\<lambda>d. K (signing_keys d)"]) (simp add: assms(1))
  with assms(2) show ?thesis by (auto simp: janitor_stmts_def intro!: key_frame hoare_rules)
qed

lemma key_frame_startup: "keeps (\<lambda>w. keys_inv (signing_keys (w_db w))) (startup E)"
proof -
  have "keeps (\<lambda>w. keys_inv (signing_keys (w_db w))) (Ensure E ro)" for ro
    by (rule hoareI) (rule keys_inv_Ensure)
  moreover have "keeps (\<lambda>w. keys_inv (signing_keys (w_db w))) (NewCipherWithStore E k)" for k
    by (rule hoareI) (simp add: keeps_NewCipherWithStore_keys)
  moreover have "keeps (\<lambda>w. keys_inv (signing_keys (w_db w))) (db_stmt E x (\<lambda>d. (Inr (), d)))" for x
    by (simp add: hoare_def run_db_stmt)
  ultimately show ?thesis unfolding startup_def Let_def by (intro hoare_rules)
qed

lemma logRequests_rotation: "run_state (logRequests E sv r) w = ((resp, sv'), w') \<Longrightarrow> sv_rotation sv' = sv_rotation sv"
  by (drule logRequests_result) (auto dest: mux_audit)

lemma keys_ok_rotate:
  assumes "keys_ok E (Up sv) (signing_keys (w_db w))" "run_state (rot_step E (sv_rotator sv) (sv_rotation sv)) w = (pc, w')"
  shows "keys_ok E (Up (sv\<lparr>sv_rotation := pc\<rparr>)) (signing_keys (w_db w'))"
proof -
  have k: "keys_inv (signing_keys (w_db w))" "rot_ok (sv_rotation sv) (signing_keys (w_db w))" using assms(1) by (simp_all add: keys_ok_def)
  from rot_step_inv [OF assms(2) k] obtain ks where "w_db w' = (w_db w)\<lparr>signing_keys := ks\<rparr>" "keys_inv ks" "rot_ok pc ks"
    and "no_faults E \<longrightarrow> (if \<exists>now n. sv_rotation sv = RotRetired now n then length (with_status ''active'' ks) = 1
       else (\<exists>now n. pc = RotRetired now n) \<or> length (with_status ''active'' ks) = length (with_status ''active'' (signing_keys (w_db w))))" by blast
  with assms(1) show ?thesis by (auto simp: keys_ok_def split: if_splits)
qed

lemma reach_keys_ok: "reach E h p w \<Longrightarrow> keys_ok E p (signing_keys (w_db w))"
proof (induction rule: reach.induct)
  case (install w)
  then show ?case by (simp add: keys_ok_def keys_inv_def empty_db_def)
next
  case (start h w p sv w')
  have k: "keys_inv (signing_keys (w_db (w\<lparr>w_providers := p\<rparr>)))" using start.IH by (simp add: keys_ok_def)
  have "sv_rotation sv = RotDone (Inr ())" using startup_parts [OF start.hyps(2)] by blast
  with startup_keys [OF start.hyps(2) k] show ?case by (simp add: keys_ok_def rot_ok_def)
next
  case (failed_start h w p e w')
  from hoareD [OF key_frame_startup _ failed_start.hyps(2)] failed_start.IH show ?case by (simp add: keys_ok_def)
next
  case (serve h sv w r resp sv' w')
  from logRequests_rotation [OF serve.hyps(2)] have "keys_ok E (Up sv') ks = keys_ok E (Up sv) ks" for ks by (simp add: keys_ok_def)
  with hoareD [OF key_frame_logRequests [of "keys_ok E (Up sv)"] serve.IH serve.hyps(2)] show ?case by simp
next
  case (janitor h sv w m x w')
  from hoareD [OF key_frame_janitor [of "keys_ok E (Up sv)", OF keys_ok_expired janitor.hyps(2)] janitor.IH janitor.hyps(3)] show ?case .
next
  case (rotate h sv w pc w')
  then show ?case by (auto intro: keys_ok_rotate)
next
  case (worker h sv w l w')
  have "keeps (\<lambda>w. keys_ok E (Up sv) (signing_keys (w_db w))) (worker_turn E (sv_audit sv))"
    unfolding worker_turn_def persist_def by (auto intro!: key_frame hoare_rules split: list.split)
  from hoareD [OF this worker.IH worker.hyps(2)] show ?case by (simp add: keys_ok_def)
next
  case (add_key h p w k x w')
  from hoareD [OF key_frame_timed(4) [of "keys_ok E p"] add_key.IH add_key.hyps(2)] show ?case .
next
  case (set_key h p w kid st x w')
  have "keeps (\<lambda>w. keys_ok E p (signing_keys (w_db w))) (SetEncryptionKeyStatus E kid st)"
    unfolding SetEncryptionKeyStatus_def by (rule keeps_db_stmt) simp
  from hoareD [OF this set_key.IH set_key.hyps(2)] show ?case .
qed (simp_all add: keys_ok_def)

text \<open>
  Property C8. As long as the database does not fail, a running sidecar has exactly one key to sign with, whatever requests it serves and
  however its goroutines interleave, with one exception: between the two updates of a promotion no key is active. Then the key
  about to be promoted is in the table as the next key, and the rotator's next statement makes it the one active key.
\<close>

theorem reachable_one_active_key:
  assumes "reach E h (Up sv) w" "no_faults E"
  shows "case sv_rotation sv of
      RotRetired now n \<Rightarrow> with_status ''active'' (signing_keys (w_db w)) = [] \<and> n \<in> set (signing_keys (w_db w)) \<and> sk_Status n = ''next'' \<and>
        (\<exists>k. with_status ''active'' (signing_keys (w_db (snd (run_state (rot_step E (sv_rotator sv) (sv_rotation sv)) w)))) = [k] \<and> sk_Kid k = sk_Kid n)
    | _ \<Rightarrow> length (with_status ''active'' (signing_keys (w_db w))) = 1"
proof (cases "\<exists>now n. sv_rotation sv = RotRetired now n")
  case True
  then obtain now n where pc: "sv_rotation sv = RotRetired now n" by blast
  have k: "keys_inv (signing_keys (w_db w))" "rot_ok (RotRetired now n) (signing_keys (w_db w))" using reach_keys_ok [OF assms(1)] pc by (simp_all add: keys_ok_def)
  obtain pc' w' where s: "run_state (rot_step E (sv_rotator sv) (RotRetired now n)) w = (pc', w')" by fastforce
  from rot_step_promotes [OF s k assms(2)] have
    "\<exists>k. with_status ''active'' (signing_keys (w_db w')) = [k] \<and> sk_Kid k = sk_Kid n" .
  with k(2) s show ?thesis unfolding pc by (simp add: rot_ok_def del: rot_step.simps)
next
  case False
  with reach_keys_ok [OF assms(1)] assms(2) have "length (with_status ''active'' (signing_keys (w_db w))) = 1" by (simp add: keys_ok_def)
  with False show ?thesis by (cases "sv_rotation sv") simp_all
qed

section \<open>The tables are well-formed\<close>

text \<open>A predicate of history and database holds in every reachable state if it holds of the empty database,
  the background operations keep it, it does not depend on the signing keys beyond their invariant, and serving a request carries it to the longer
  history.\<close>

lemma reach_inv:
  assumes "reach E h p w"
    and init: "I [] empty_db"
    and served: "\<And>h r w w' sv out. I h (w_db w) \<Longrightarrow> run_state (logRequests E sv r) w = (out, w') \<Longrightarrow> I (h @ [(r, w, w')]) (w_db w')"
    and jan: "\<And>h m ttl. m \<in> set (janitor_stmts E ttl) \<Longrightarrow> keeps (\<lambda>w. I h (w_db w)) m"
    and rot: "\<And>h d ks. I h d \<Longrightarrow> keys_inv ks \<Longrightarrow> I h (d\<lparr>signing_keys := ks\<rparr>)"
    and wor: "\<And>h l. keeps (\<lambda>w. I h (w_db w)) (worker_turn E l)"
    and key: "\<And>h k. keeps (\<lambda>w. I h (w_db w)) (InsertEncryptionKey E k)" "\<And>h k st. keeps (\<lambda>w. I h (w_db w)) (SetEncryptionKeyStatus E k st)"
    and sta: "\<And>h. keeps (\<lambda>w. I h (w_db w)) (startup E)"
  shows "I h (w_db w)"
  using assms(1)
proof (induction rule: reach.induct)
  case (install w)
  then show ?case using init by simp
next
  case (start h w p sv w')
  from hoareD [OF sta _ start.hyps(2), of h] start.IH show ?case by simp
next
  case (failed_start h w p e w')
  from hoareD [OF sta _ failed_start.hyps(2), of h] failed_start.IH show ?case by simp
next
  case (serve h sv w r resp sv' w')
  from served [OF serve.IH serve.hyps(2)] show ?case .
next
  case (janitor h sv w m x w')
  from hoareD [OF jan [OF janitor.hyps(2)] janitor.IH janitor.hyps(3)] show ?case .
next
  case (rotate h sv w pc w')
  have k: "keys_inv (signing_keys (w_db w))" "rot_ok (sv_rotation sv) (signing_keys (w_db w))"
    using reach_keys_ok [OF rotate.hyps(1)] by (simp_all add: keys_ok_def)
  from rot_step_inv [OF rotate.hyps(2) k] obtain ks where "w_db w' = (w_db w)\<lparr>signing_keys := ks\<rparr>" "keys_inv ks" by blast
  with rot [OF rotate.IH] show ?case by simp
next
  case (worker h sv w l w')
  from hoareD [OF wor worker.IH worker.hyps(2)] show ?case .
next
  case (add_key h p w k x w')
  from hoareD [OF key(1) add_key.IH add_key.hyps(2)] show ?case .
next
  case (set_key h p w kid st x w')
  from hoareD [OF key(2) set_key.IH set_key.hyps(2)] show ?case .
qed simp_all

interpretation schema: lineage E r "\<lambda>_. True" "\<lambda>_. True" "\<lambda>_. True" "\<lambda>_. True" for E r
  by unfold_locales simp_all

lemma db_inv_empty: "db_inv C P Q R empty_db"
  by (simp add: db_inv_def db_ok_def keys_inv_def empty_db_def)

text \<open>
  Property C7. The database is well-formed in every reachable state: each table has its primary key, statuses are
  those of the CHECK constraints, at most one key is active and at most one is next, the success column
  holds 0 or 1, and the times of clients, sessions, codes and refresh tokens are whole seconds.
\<close>

theorem reachable_db_ok:
  assumes "reach E h p w"
  shows "db_ok (w_db w)"
proof -
  let ?I = "\<lambda>_ :: served list. db_inv (\<lambda>_. True) (\<lambda>_. True) (\<lambda>_. True) (\<lambda>_. True)"
  have "?I h (w_db w)"
    by (rule reach_inv [OF assms, of ?I])
      (auto intro: db_inv_empty db_inv_signing_keys inv_janitor inv_rules inv_encryption_keys dest: hoareD [OF schema.keeps_logRequests])
  then show ?thesis by (simp add: db_inv_def)
qed

lemma sample_start_reach: "\<exists>sv w. reach sample_start_env [] (Up sv) w"
proof -
  have i: "reach sample_start_env [] Down sample_world" by (rule reach.install) (simp add: sample_world_def)
  from sample_start_run obtain sv w where "run_state (startup sample_start_env) (sample_world\<lparr>w_providers := []\<rparr>) = (Inr sv, w)"
    by (auto simp: sample_world_def)
  from reach.start [OF i this] show ?thesis by blast
qed

theorem reachable_db_ok_witness: "\<exists>sv w. reach sample_start_env [] (Up sv) w \<and> db_ok (w_db w)"
  using sample_start_reach reachable_db_ok by blast

theorem reachable_one_active_key_witness:
  "\<exists>sv w. reach sample_start_env [] (Up sv) w \<and> sv_rotation sv = RotDone (Inr ()) \<and> length (with_status ''active'' (signing_keys (w_db w))) = 1"
proof -
  have n: "no_faults sample_start_env" by (simp add: no_faults_def sample_start_env_def)
  have i: "reach sample_start_env [] Down sample_world" by (rule reach.install) (simp add: sample_world_def)
  from sample_start_run obtain sv w where s: "run_state (startup sample_start_env) (sample_world\<lparr>w_providers := []\<rparr>) = (Inr sv, w)"
    by (auto simp: sample_world_def)
  from reach.start [OF i s] have r: "reach sample_start_env [] (Up sv) w" .
  have "sv_rotation sv = RotDone (Inr ())" using startup_parts [OF s] by blast
  with reachable_one_active_key [OF r n] r show ?thesis by auto
qed

section \<open>Where tokens come from\<close>

text \<open>The four requests behind a token, each tied to the row it leaves: a registration and the client, an
  authorization request and the session, a return from the provider and the code, a redemption and
  the refresh token.\<close>

definition registers :: "env \<Rightarrow> request \<Rightarrow> Client \<Rightarrow> bool" where
  "registers E r c \<longleftrightarrow> rq_Path r = ''/oauth/register'' \<and> (\<exists>rc b q. FromRequest r = Inr rc \<and> rq_Body r = Inr b \<and>
     parse_register (limit_read 65536 b) = Inr q \<and> (\<forall>u \<in> set (rg_RedirectURIs q). validateRedirectURI E u = []) \<and>
     cl_RedirectURIsJSON c = json_marshal (JArr (map JStr (rg_RedirectURIs q))) \<and> cl_Resource c = rc_Name rc)"

definition asks :: "request \<Rightarrow> Client \<Rightarrow> AuthSession \<Rightarrow> bool" where
  "asks r c s \<longleftrightarrow> rq_Path r = ''/oauth/authorize'' \<and> cl_ClientID c = QueryGet r ''client_id'' \<and>
     (\<exists>uris. unmarshal_strings (cl_RedirectURIsJSON c) = Inr uris \<and> QueryGet r ''redirect_uri'' \<in> set uris) \<and>
     QueryGet r ''code_challenge_method'' = ''S256'' \<and> se_CodeChallenge s = QueryGet r ''code_challenge'' \<and> se_CodeChallengeMethod s = ''S256'' \<and>
     se_RedirectURI s = QueryGet r ''redirect_uri'' \<and> se_ClientID s = QueryGet r ''client_id'' \<and>
     (\<exists>rc. FromRequest r = Inr rc \<and> se_Resource s = rc_Name rc \<and>
        se_Scopes s = (if QueryGet r ''scope'' = [] then rc_Scopes rc else QueryGet r ''scope''))"

definition returns :: "request \<Rightarrow> AuthSession \<Rightarrow> Code \<Rightarrow> bool" where
  "returns r s k \<longleftrightarrow> rq_Path r = ''/oauth/callback'' \<and> QueryGet r ''error'' = [] \<and> QueryGet r ''code'' \<noteq> [] \<and> QueryGet r ''state'' = se_State s \<and>
     co_ClientID k = se_ClientID s \<and> co_Resource k = se_Resource s \<and> co_Scopes k = se_Scopes s \<and> co_RedirectURI k = se_RedirectURI s \<and>
     co_CodeChallenge k = se_CodeChallenge s \<and> co_CodeChallengeMethod k = se_CodeChallengeMethod s"

definition redeems :: "request \<Rightarrow> Code \<Rightarrow> RefreshToken \<Rightarrow> bool" where
  "redeems r k t \<longleftrightarrow> rq_Path r = ''/oauth/token'' \<and> FormValue r ''grant_type'' = ''authorization_code'' \<and> FormValue r ''code'' = co_Code k \<and>
     FormValue r ''redirect_uri'' = co_RedirectURI k \<and> pkceS256Challenge (FormValue r ''code_verifier'') = co_CodeChallenge k \<and>
     rt_ClientID t = co_ClientID k \<and> rt_Resource t = co_Resource k \<and> rt_Sub t = co_Sub k \<and> rt_Scopes t = co_Scopes k"

text \<open>Evidence for a row in a history: the request that stored it, preceded by the evidence for the row it
  was derived from. A client is known up to the time of its last use, a refresh token up to its
  renewals.\<close>

definition added :: "(db \<Rightarrow> 'a list) \<Rightarrow> served \<Rightarrow> 'a \<Rightarrow> bool" where
  "added rows e x \<longleftrightarrow> x \<in> set (rows (after e)) \<and> x \<notin> set (rows (before e))"

definition client_known :: "env \<Rightarrow> served list \<Rightarrow> Client \<Rightarrow> bool" where
  "client_known E h c \<longleftrightarrow> (\<exists>h1 e h2 t. h = h1 @ e # h2 \<and> registers E (req e) c \<and> added clients e (c\<lparr>cl_LastUsedAt := t\<rparr>))"

definition session_known :: "env \<Rightarrow> served list \<Rightarrow> AuthSession \<Rightarrow> bool" where
  "session_known E h s \<longleftrightarrow> (\<exists>h1 e h2 c. h = h1 @ e # h2 \<and> client_known E h1 c \<and> asks (req e) c s \<and> added auth_sessions e s)"

definition code_known :: "env \<Rightarrow> served list \<Rightarrow> Code \<Rightarrow> bool" where
  "code_known E h k \<longleftrightarrow> (\<exists>h1 e h2 s. h = h1 @ e # h2 \<and> session_known E h1 s \<and> returns (req e) s k \<and> added codes e k)"

definition refresh_known :: "env \<Rightarrow> served list \<Rightarrow> RefreshToken \<Rightarrow> bool" where
  "refresh_known E h t \<longleftrightarrow> (\<exists>h1 e h2 k. h = h1 @ e # h2 \<and> code_known E h1 k \<and> redeems (req e) k t)"

lemmas known_defs = client_known_def session_known_def code_known_def refresh_known_def

lemma split_snoc: "\<exists>h1 e h2 z. h = h1 @ e # h2 \<and> P h1 e z \<Longrightarrow> \<exists>h1 e h2 z. h @ [x] = h1 @ e # h2 \<and> P h1 e z"
proof (elim exE conjE)
  fix h1 e h2 z assume "h = h1 @ e # h2" "P h1 e z"
  then have "h @ [x] = h1 @ e # (h2 @ [x]) \<and> P h1 e z" by simp
  then show ?thesis by blast
qed

lemma known_mono:
  "client_known E h c \<Longrightarrow> client_known E (h @ [x]) c" "session_known E h s \<Longrightarrow> session_known E (h @ [x]) s"
  "code_known E h k \<Longrightarrow> code_known E (h @ [x]) k" "refresh_known E h t \<Longrightarrow> refresh_known E (h @ [x]) t"
  unfolding known_defs by (erule split_snoc)+

text \<open>While a request is served, a row is known from before or stored by this request.\<close>

interpretation traced: lineage E r
  "\<lambda>c. client_known E h c \<or> registers E r c" "\<lambda>s. session_known E h s \<or> (\<exists>c. client_known E h c \<and> asks r c s)"
  "\<lambda>k. code_known E h k \<or> (\<exists>s. session_known E h s \<and> returns r s k)" "\<lambda>t. refresh_known E h t \<or> (\<exists>k. code_known E h k \<and> redeems r k t)"
  for E r h
proof unfold_locales
  fix c now assume "client_known E h c \<or> registers E r c"
  then show "client_known E h (c\<lparr>cl_LastUsedAt := now\<rparr>) \<or> registers E r (c\<lparr>cl_LastUsedAt := now\<rparr>)"
    by (simp add: client_known_def registers_def)
next
  fix t hash e x assume "refresh_known E h t \<or> (\<exists>k. code_known E h k \<and> redeems r k t)"
  then show "refresh_known E h (t\<lparr>rt_TokenHash := hash, rt_UpstreamRefreshEnc := e, rt_ExpiresAt := x\<rparr>) \<or>
      (\<exists>k. code_known E h k \<and> redeems r k (t\<lparr>rt_TokenHash := hash, rt_UpstreamRefreshEnc := e, rt_ExpiresAt := x\<rparr>))"
    by (simp add: refresh_known_def redeems_def)
qed (auto simp: registers_def asks_def returns_def redeems_def)

abbreviation rows_known :: "env \<Rightarrow> served list \<Rightarrow> db \<Rightarrow> bool" where
  "rows_known E h \<equiv> db_inv (client_known E h) (session_known E h) (code_known E h) (refresh_known E h)"

lemma known_here: "P h e z \<Longrightarrow> \<exists>h1 e' h2 z. h @ [e] = h1 @ e' # h2 \<and> P h1 e' z"
  by (intro exI [of _ h] exI [of _ e] exI [of _ "[]"] exI [of _ z]) simp

lemma rows_known_served:
  assumes "rows_known E h (w_db w)" "run_state (logRequests E sv r) w = (out, w')"
  shows "rows_known E (h @ [(r, w, w')]) (w_db w')"
proof -
  let ?e = "(r, w, w')"
  have inv: "db_inv (\<lambda>c. client_known E h c \<or> registers E r c) (\<lambda>s. session_known E h s \<or> (\<exists>c. client_known E h c \<and> asks r c s))
      (\<lambda>k. code_known E h k \<or> (\<exists>s. session_known E h s \<and> returns r s k)) (\<lambda>t. refresh_known E h t \<or> (\<exists>k. code_known E h k \<and> redeems r k t)) (w_db w')"
    by (rule hoareD [OF traced.keeps_logRequests _ assms(2)], rule db_inv_mono [OF assms(1)]) simp_all
  have "client_known E (h @ [?e]) c" if "c \<in> set (clients (w_db w'))" for c
  proof (cases "client_known E h c")
    case False
    with inv that assms(1) have "registers E (req ?e) c \<and> added clients ?e (c\<lparr>cl_LastUsedAt := cl_LastUsedAt c\<rparr>)"
      by (auto simp: db_inv_def added_def)
    then show ?thesis unfolding client_known_def by (rule known_here)
  qed (rule known_mono)
  moreover have "session_known E (h @ [?e]) s" if "s \<in> set (auth_sessions (w_db w'))" for s
  proof (cases "session_known E h s")
    case False
    with inv that assms(1) obtain c where "client_known E h c \<and> asks (req ?e) c s \<and> added auth_sessions ?e s"
      unfolding db_inv_def added_def by (simp, metis)
    then show ?thesis unfolding session_known_def by (rule known_here)
  qed (rule known_mono)
  moreover have "code_known E (h @ [?e]) k" if "k \<in> set (codes (w_db w'))" for k
  proof (cases "code_known E h k")
    case False
    with inv that assms(1) obtain s where "session_known E h s \<and> returns (req ?e) s k \<and> added codes ?e k"
      unfolding db_inv_def added_def by (simp, metis)
    then show ?thesis unfolding code_known_def by (rule known_here)
  qed (rule known_mono)
  moreover have "refresh_known E (h @ [?e]) t" if "t \<in> set (refresh_tokens (w_db w'))" for t
  proof (cases "refresh_known E h t")
    case False
    with inv that obtain k where "code_known E h k \<and> redeems (req ?e) k t" by (auto simp: db_inv_def)
    then show ?thesis unfolding refresh_known_def by (rule known_here)
  qed (rule known_mono)
  ultimately show ?thesis using inv by (simp add: db_inv_def)
qed

lemma reach_rows_known: "reach E h p w \<Longrightarrow> rows_known E h (w_db w)"
  by (rule reach_inv [of E h p w "rows_known E"])
    (auto intro: db_inv_empty db_inv_signing_keys inv_janitor inv_rules inv_encryption_keys rows_known_served)

lemma served_answer:
  assumes "run_state (logRequests E sv r) w = ((resp, sv'), w')" "rs_Status resp \<noteq> 0"
  shows "\<exists>sv1 w1. run_state (mux E sv r) (bump w) = ((resp, sv1), w1)"
  using logRequests_result [OF assms(1)] assms(2) by (auto simp: aborted_def)

lemma served_token:
  assumes "run_state (logRequests E sv r) w = ((resp, sv'), w')" "rq_Path r = ''/oauth/token''" "rs_Status resp = 200"
  shows "\<exists>rc w1 w2 t. FromRequest r = Inr rc \<and> w_db w1 = (w_db w)\<lparr>resource_configs := t\<rparr> \<and>
    run_state (HandleToken E (sv_issuer sv) (sv_cipher sv) rc r) w1 = (resp, w2)"
proof -
  have h: "rc_handler E sv (rq_Path r) = Some (\<lambda>rc r. HandleToken E (sv_issuer sv) (sv_cipher sv) rc r)"
    using assms(2) by (simp add: rc_handler_def)
  have p: "cleanPath (rq_Path r) = rq_Path r" using assms(2) sample_path(2) by simp
  from served_answer [OF assms(1)] assms(3) obtain sv1 w2 where "run_state (mux E sv r) (bump w) = ((resp, sv1), w2)" by auto
  then have m: "run_state (withRC E (sv_cipher sv) (\<lambda>rc r. HandleToken E (sv_issuer sv) (sv_cipher sv) rc r) r) (bump w) = (resp, w2)"
    by (auto simp: mux_rc_path [OF h p] split: prod.splits)
  with assms(3) obtain rc where rc: "FromRequest r = Inr rc" by (auto simp: withRC_def split: sum.splits)
  with m obtain x w1 where pe: "run_state (PersistEncrypted E (sv_cipher sv) rc) (bump w) = (x, w1)"
    and ht: "run_state (HandleToken E (sv_issuer sv) (sv_cipher sv) rc r) w1 = (resp, w2)"
    unfolding withRC_def by (auto elim!: run_bindE simp del: run_state_bind)
  from PersistEncrypted_db [OF pe] rc ht show ?thesis by auto
qed

text \<open>The first three requests of a grant, in the order of the history.\<close>

definition consent :: "env \<Rightarrow> served list \<Rightarrow> served \<Rightarrow> served \<Rightarrow> served \<Rightarrow> Code \<Rightarrow> bool" where
  "consent E h reg aut cb k \<longleftrightarrow> (\<exists>h0 h1 h2 h3 c s t. h = h0 @ reg # h1 @ aut # h2 @ cb # h3 \<and>
     registers E (req reg) c \<and> added clients reg (c\<lparr>cl_LastUsedAt := t\<rparr>) \<and> asks (req aut) c s \<and> added auth_sessions aut s \<and>
     returns (req cb) s k \<and> added codes cb k)"

lemma code_known_consent:
  assumes "code_known E h k"
  shows "\<exists>reg aut cb. consent E h reg aut cb k"
proof -
  from assms obtain g2 cb h3 s where 1: "h = g2 @ cb # h3" "session_known E g2 s" "returns (req cb) s k" "added codes cb k"
    unfolding code_known_def by metis
  from 1(2) obtain g1 aut h2 c where 2: "g2 = g1 @ aut # h2" "client_known E g1 c" "asks (req aut) c s" "added auth_sessions aut s"
    unfolding session_known_def by metis
  from 2(2) obtain h0 reg h1 t where 3: "g1 = h0 @ reg # h1" "registers E (req reg) c" "added clients reg (c\<lparr>cl_LastUsedAt := t\<rparr>)"
    unfolding client_known_def by metis
  have "h = h0 @ reg # h1 @ aut # h2 @ cb # h3" using 1(1) 2(1) 3(1) by simp
  with 1 2 3 show ?thesis unfolding consent_def by metis
qed

lemma consent_query:
  "consent E h reg aut cb k \<Longrightarrow> QueryGet (req aut) ''client_id'' = co_ClientID k \<and> QueryGet (req aut) ''redirect_uri'' = co_RedirectURI k \<and>
     QueryGet (req aut) ''code_challenge'' = co_CodeChallenge k \<and>
     (QueryGet (req aut) ''scope'' = [] \<or> co_Scopes k = QueryGet (req aut) ''scope'')"
  by (auto simp: consent_def asks_def returns_def split: if_splits)

text \<open>
  Property C1. Every token goes back to consent. In every reachable state, if the token endpoint answers 200, the
  authenticated client once registered, later an authorization request for that client id and one of its
  registered redirect URIs stored a session, and later still a return from the provider without an error
  presented the state of that session and stored a code. For the code grant this is the code now
  presented, with the redirect URI of the authorization request and a verifier whose S256 hash is its
  challenge; for the refresh grant an earlier request redeemed that code in this way, and the
  presented token is its descendant, with the client, subject, resource and scopes of the code. The
  scopes of the code are those the authorization request named, if it named any.
\<close>

theorem tokens_trace_to_consent:
  assumes "reach E h (Up sv) w" "run_state (logRequests E sv r) w = ((resp, sv'), w')" "rq_Path r = ''/oauth/token''" "rs_Status resp = 200"
  shows "\<exists>cid sec reg aut cb k. extractClientCredentials r = Inr (cid, sec) \<and> QueryGet (req aut) ''client_id'' = cid \<and>
    (QueryGet (req aut) ''scope'' = [] \<or> co_Scopes k = QueryGet (req aut) ''scope'') \<and>
    (FormValue r ''grant_type'' = ''authorization_code'' \<and> consent E h reg aut cb k \<and> FormValue r ''code'' = co_Code k \<and>
       FormValue r ''redirect_uri'' = QueryGet (req aut) ''redirect_uri'' \<and>
       pkceS256Challenge (FormValue r ''code_verifier'') = QueryGet (req aut) ''code_challenge'' \<or>
     FormValue r ''grant_type'' = ''refresh_token'' \<and>
     (\<exists>h1 tok h2 t. h = h1 @ tok # h2 \<and> consent E h1 reg aut cb k \<and> redeems (req tok) k t \<and> t \<in> set (refresh_tokens (w_db w)) \<and>
        rt_TokenHash t = HashToken (FormValue r ''refresh_token'')))"
proof -
  from served_token [OF assms(2-4)] obtain rc w1 w2 rs where w1: "w_db w1 = (w_db w)\<lparr>resource_configs := rs\<rparr>"
    and ht: "run_state (HandleToken E (sv_issuer sv) (sv_cipher sv) rc r) w1 = (resp, w2)" by blast
  from HandleToken_200 [OF ht assms(4)] obtain cid sec client d w3 where
    c: "extractClientCredentials r = Inr (cid, sec)" "sql_get cl_ClientID cid (clients (w_db w1)) = Some client"
    and t: "run_state (TouchClient E (cl_ClientID client)) (bump w1) = (d, w3)"
    and g: "FormValue r ''grant_type'' = ''authorization_code'' \<and> run_state (handleAuthorizationCode E (sv_issuer sv) rc client r) w3 = (resp, w2) \<or>
      FormValue r ''grant_type'' = ''refresh_token'' \<and> run_state (handleRefreshToken E (sv_issuer sv) (sv_cipher sv) rc client r) w3 = (resp, w2)" by blast
  from TouchClient_result [OF t] w1 have w3: "codes (w_db w3) = codes (w_db w)" "refresh_tokens (w_db w3) = refresh_tokens (w_db w)" by auto
  have cid: "cl_ClientID client = cid" using sql_get_Some [OF c(2)] by simp
  note known = reach_rows_known [OF assms(1), unfolded db_inv_def]
  from g show ?thesis
  proof (elim disjE conjE)
    assume gt: "FormValue r ''grant_type'' = ''authorization_code''"
      and "run_state (handleAuthorizationCode E (sv_issuer sv) rc client r) w3 = (resp, w2)"
    from handleAuthorizationCode_200 [OF this(2) assms(4)] w3(1) obtain k where
      k: "sql_get co_Code (FormValue r ''code'') (codes (w_db w)) = Some k" "co_ClientID k = cid" "co_RedirectURI k = FormValue r ''redirect_uri''"
      "pkceS256Challenge (FormValue r ''code_verifier'') = co_CodeChallenge k" by (auto simp: cid)
    from sql_get_Some [OF k(1)] known code_known_consent obtain reg aut cb where cs: "consent E h reg aut cb k" by blast
    with consent_query [OF cs] k sql_get_Some [OF k(1)] gt c(1) show ?thesis
      by (intro exI [of _ cid] exI [of _ sec] exI [of _ reg] exI [of _ aut] exI [of _ cb] exI [of _ k]) simp
  next
    assume gt: "FormValue r ''grant_type'' = ''refresh_token''"
      and "run_state (handleRefreshToken E (sv_issuer sv) (sv_cipher sv) rc client r) w3 = (resp, w2)"
    from handleRefreshToken_200 [OF this(2) assms(4)] w3(2) obtain t where
      t: "sql_get rt_TokenHash (HashToken (FormValue r ''refresh_token'')) (refresh_tokens (w_db w)) = Some t" "rt_ClientID t = cid" by (auto simp: cid)
    from sql_get_Some [OF t(1)] known obtain h1 tok h2 k where
      k: "h = h1 @ tok # h2" "code_known E h1 k" "redeems (req tok) k t" unfolding refresh_known_def by metis
    from code_known_consent [OF k(2)] obtain reg aut cb where cs: "consent E h1 reg aut cb k" by blast
    have "QueryGet (req aut) ''client_id'' = cid" using consent_query [OF cs] k(3) t(2) by (simp add: redeems_def)
    moreover have "\<exists>h1 tok h2 t. h = h1 @ tok # h2 \<and> consent E h1 reg aut cb k \<and> redeems (req tok) k t \<and> t \<in> set (refresh_tokens (w_db w)) \<and>
        rt_TokenHash t = HashToken (FormValue r ''refresh_token'')"
      using cs k(1,3) sql_get_Some [OF t(1)] by blast
    ultimately show ?thesis
      using consent_query [OF cs] gt c(1)
      by (intro exI [of _ cid] exI [of _ sec] exI [of _ reg] exI [of _ aut] exI [of _ cb] exI [of _ k]) simp
  qed
qed

section \<open>Where browsers are sent\<close>

lemma served_callback:
  assumes "run_state (logRequests E sv r) w = ((resp, sv'), w')" "rq_Path r = ''/oauth/callback''" "rs_Status resp = 302"
  shows "\<exists>rc w1 w2. w_db w1 = (w_db w)\<lparr>resource_configs := resource_configs (w_db w1)\<rparr> \<and>
    run_state (HandleCallback E (sv_cipher sv) rc r) w1 = (resp, w2)"
proof -
  have h: "rc_handler E sv (rq_Path r) = Some (\<lambda>rc r. HandleCallback E (sv_cipher sv) rc r)"
    using assms(2) by (simp add: rc_handler_def)
  have p: "cleanPath (rq_Path r) = rq_Path r" using assms(2) rc_paths_clean by (simp add: rc_paths_def)
  from served_answer [OF assms(1)] assms(3) obtain sv1 w2 where "run_state (mux E sv r) (bump w) = ((resp, sv1), w2)" by auto
  then have m: "run_state (withRC E (sv_cipher sv) (\<lambda>rc r. HandleCallback E (sv_cipher sv) rc r) r) (bump w) = (resp, w2)"
    by (auto simp: mux_rc_path [OF h p] split: prod.splits)
  with assms(3) obtain rc where rc: "FromRequest r = Inr rc" by (auto simp: withRC_def split: sum.splits)
  with m obtain x w1 where pe: "run_state (PersistEncrypted E (sv_cipher sv) rc) (bump w) = (x, w1)"
    and ht: "run_state (HandleCallback E (sv_cipher sv) rc r) w1 = (resp, w2)"
    unfolding withRC_def by (auto elim!: run_bindE simp del: run_state_bind)
  from PersistEncrypted_db [OF pe] obtain t where "w_db w1 = (w_db w)\<lparr>resource_configs := t\<rparr>" by auto
  with ht show ?thesis by (intro exI [of _ rc] exI [of _ w1] exI [of _ w2]) simp
qed

lemma uris_roundtrip:
  assumes "\<forall>u \<in> set us. ascii u"
  shows "unmarshal_strings (json_marshal (JArr (map JStr us))) = Inr us"
proof -
  have "jplain (JArr (map JStr us))" using assms by (simp add: list_all_iff)
  from json_roundtrip [OF this] have "json_unmarshal (json_marshal (JArr (map JStr us))) = Inr (jnorm (JArr (map JStr us)))" .
  moreover have "as_strings (map jnorm (map JStr us)) = Inr us" by (induction us) simp_all
  ultimately show ?thesis by (simp add: unmarshal_strings_def)
qed

text \<open>
  Property C32. Browsers are sent back only to redirect URIs that a client registered and the sidecar vetted. In every reachable state,
  if the callback answers with a redirect, carrying a code or an error, there is an earlier registration in the history; the redirect goes to
  the parsed form of a URI of that registration, with only its query extended, and each URI of the registration
  parses with a host, has a scheme other than javascript, data, file, vbscript, blob and about, is local if the scheme
  is plain http, and has a scheme of valid syntax. (The registered URIs are taken to be ASCII, as they are stored as JSON and read back.)
\<close>

theorem redirects_only_to_vetted_uris:
  assumes "reach E h (Up sv) w" "run_state (logRequests E sv r) w = ((resp, sv'), w')" "rq_Path r = ''/oauth/callback''" "rs_Status resp = 302"
    and "\<forall>e \<in> set h. \<forall>b q. rq_Body (req e) = Inr b \<and> parse_register (limit_read 65536 b) = Inr q \<longrightarrow> (\<forall>u \<in> set (rg_RedirectURIs q). ascii u)"
  shows "\<exists>e b q raw u qs. e \<in> set h \<and> rq_Path (req e) = ''/oauth/register'' \<and> rq_Body (req e) = Inr b \<and>
    parse_register (limit_read 65536 b) = Inr q \<and> raw \<in> set (rg_RedirectURIs q) \<and> url_Parse E raw = Inr u \<and>
    rs_Body resp = RedirectBody (u\<lparr>u_Query := qs\<rparr>) \<and>
    (\<forall>x \<in> set (rg_RedirectURIs q). \<exists>v. url_ParseRequestURI E x = Inr v \<and> u_Host v \<noteq> [] \<and>
       u_Scheme v \<notin> {[], ''javascript'', ''data'', ''file'', ''vbscript'', ''blob'', ''about''} \<and>
       (u_Scheme v = ''http'' \<longrightarrow> u_Hostname v \<in> {''localhost'', ''127.0.0.1''}) \<and>
       (u_Scheme v \<in> {''https'', ''mcp'', ''http''} \<or> is_lower (hd (u_Scheme v)) \<and>
         (\<forall>c \<in> set (tl (u_Scheme v)). is_lower c \<or> is_digit c \<or> c \<in> {CHR ''+'', CHR ''.'', CHR ''-''})))"
proof -
  from served_callback [OF assms(2-4)] obtain rc w1 w2 where w1: "w_db w1 = (w_db w)\<lparr>resource_configs := resource_configs (w_db w1)\<rparr>"
    and hc: "run_state (HandleCallback E (sv_cipher sv) rc r) w1 = (resp, w2)" by blast
  have "auth_sessions (w_db w1) = auth_sessions (w_db w)" by (subst w1) simp
  with callback_redirects [OF hc assms(4)] obtain s u qs where s: "s \<in> set (auth_sessions (w_db w))"
    and u: "url_Parse E (se_RedirectURI s) = Inr u" "rs_Body resp = RedirectBody (u\<lparr>u_Query := qs\<rparr>)" by auto
  from s reach_rows_known [OF assms(1)] have "session_known E h s" by (auto simp: db_inv_def)
  then obtain h1 a h2 c where a: "h = h1 @ a # h2" "client_known E h1 c" "asks (req a) c s" unfolding session_known_def by metis
  from a(2) obtain h0 e h3 where e: "h1 = h0 @ e # h3" "registers E (req e) c" unfolding client_known_def by metis
  have mem: "e \<in> set h" using a(1) e(1) by simp
  from e(2) obtain b q where q: "rq_Path (req e) = ''/oauth/register''" "rq_Body (req e) = Inr b" "parse_register (limit_read 65536 b) = Inr q"
    "\<forall>x \<in> set (rg_RedirectURIs q). validateRedirectURI E x = []" "cl_RedirectURIsJSON c = json_marshal (JArr (map JStr (rg_RedirectURIs q)))"
    unfolding registers_def by blast
  have "\<forall>u \<in> set (rg_RedirectURIs q). ascii u" using assms(5) mem q(2,3) by blast
  from a(3) uris_roundtrip [OF this] q(5) have "se_RedirectURI s \<in> set (rg_RedirectURIs q)" by (auto simp: asks_def)
  with mem q(1-4) u show ?thesis unfolding validateRedirectURI_accepts by blast
qed

section \<open>A complete grant\<close>

text \<open>A run of the model from an empty database to a token, in an environment with a constant clock and random
  source and a provider that answers every token request.\<close>

definition flow_now :: time where
  "flow_now = time_Unix 1700000000"

definition flow_env :: env where
  "flow_env = sample_start_env\<lparr>clock := \<lambda>_. flow_now, rng := \<lambda>_ n. Some (replicate n CHR ''a''), url_Parse := \<lambda>_. Inr sample_uri,
     url_ParseRequestURI := \<lambda>_. Inr sample_uri, http_do := \<lambda>_ _. Inr \<lparr>hp_Status = 200, hp_Body = Inr sample_token_body\<rparr>\<rparr>"

lemma flow_env_simps [simp]:
  "clock flow_env n = flow_now" "rng flow_env i n = Some (replicate n CHR ''a'')" "url_Parse flow_env x = Inr sample_uri"
  "url_ParseRequestURI flow_env x = Inr sample_uri" "db_fail flow_env n = False"
  "http_do flow_env n q = Inr \<lparr>hp_Status = 200, hp_Body = Inr sample_token_body\<rparr>"
  by (simp_all add: flow_env_def sample_start_env_def)

definition flow_cid :: string where "flow_cid = hex_EncodeToString (replicate 16 CHR ''a'')"
definition flow_tok :: string where "flow_tok = b64_EncodeToString RawURLEncoding (replicate 32 CHR ''a'')"
definition flow_state :: string where "flow_state = b64_EncodeToString RawURLEncoding (replicate 16 CHR ''a'')"

lemma flow_nonempty: "flow_cid \<noteq> []" "flow_tok \<noteq> []" "flow_state \<noteq> []"
  by code_simp+

definition flow_req :: "string \<Rightarrow> string \<Rightarrow> (string \<times> string) list \<Rightarrow> (string \<times> string) list \<Rightarrow> bytes \<Rightarrow> request" where
  "flow_req meth path query form body = \<lparr>rq_Method = meth, rq_Path = path, rq_Host = ''h'', rq_RemoteAddr = ''10.0.0.1:5000'', rq_TLS = False,
     rq_Header = map (\<lambda>(k, v). (CanonicalHeaderKey k, [v])) [(''X-MCPB-Resource'', ''wiki''), (''X-MCPB-Public-Base'', ''https://h''),
       (''X-MCPB-Provider-Issuer'', ''https://idp''), (''X-MCPB-Client-ID'', ''up''), (''X-MCPB-Client-Secret'', ''s3cret''),
       (''X-MCPB-Scopes'', ''openid''), (''X-MCPB-Audience'', ''wiki'')],
     rq_Query = query, rq_FormError = False, rq_PostForm = form, rq_Body = Inr body\<rparr>"

lemma flow_rc: "FromRequest (flow_req m p q f b) = Inr sample_rc"
proof -
  have h: "rq_Header (flow_req m p q f b) = rq_Header (flow_req [] [] [] [] [])" for m p q f b by (simp add: flow_req_def)
  have "FromRequest (flow_req [] [] [] [] []) = Inr sample_rc" by code_simp
  then show ?thesis unfolding FromRequest_def ReqGet_def h [of m p q f b] by simp
qed

definition flow_register :: request where
  "flow_register = flow_req ''POST'' ''/oauth/register'' [] [] sample_register_body"

definition flow_authorize :: request where
  "flow_authorize = flow_req ''GET'' ''/oauth/authorize'' [(''response_type'', ''code''), (''client_id'', flow_cid),
     (''redirect_uri'', ''https://app/cb''), (''code_challenge'', pkceS256Challenge ''v''), (''code_challenge_method'', ''S256'')] [] []"

definition flow_callback :: request where
  "flow_callback = flow_req ''GET'' ''/oauth/callback'' [(''code'', ''upcode''), (''state'', flow_state)] [] []"

definition flow_redeem :: request where
  "flow_redeem = flow_req ''POST'' ''/oauth/token'' [] [(''grant_type'', ''authorization_code''), (''client_id'', flow_cid),
     (''client_secret'', flow_tok), (''code'', flow_tok), (''redirect_uri'', ''https://app/cb''), (''code_verifier'', ''v'')] []"

definition flow_client :: "Client" where
  "flow_client = \<lparr>cl_ClientID = flow_cid, cl_ClientSecretHash = sha256Hex flow_tok, cl_RedirectURIsJSON = sample_uris,
     cl_RegistrationAccessTokenHash = sha256Hex flow_tok, cl_Resource = ''wiki'', cl_Scopes = ''openid'',
     cl_CreatedAt = flow_now, cl_LastUsedAt = flow_now\<rparr>"

definition flow_session :: AuthSession where
  "flow_session = \<lparr>se_State = flow_state, se_CodeChallenge = pkceS256Challenge ''v'', se_CodeChallengeMethod = ''S256'',
     se_RedirectURI = ''https://app/cb'', se_ClientID = flow_cid, se_Resource = ''wiki'', se_Scopes = ''openid'',
     se_ProviderIssuer = ''https://idp'', se_PublicBase = ''https://h'', se_UpstreamState = flow_state, se_UpstreamPKCEVerifier = flow_tok,
     se_OriginalState = [], se_CreatedAt = flow_now, se_ExpiresAt = flow_now + 10 * minute\<rparr>"

definition flow_code :: Code where
  "flow_code = \<lparr>co_Code = flow_tok, co_ClientID = flow_cid, co_Resource = ''wiki'', co_Sub = ''unknown'', co_ClaimsJSON = claims_json (Some []),
     co_UpstreamRefreshEnc = [], co_Scopes = ''openid'', co_RedirectURI = ''https://app/cb'', co_CodeChallenge = pkceS256Challenge ''v'',
     co_CodeChallengeMethod = ''S256'', co_ExpiresAt = flow_now + 60 * second\<rparr>"

lemma flow_stored: "stored_time flow_now = flow_now" "stored_time (flow_now + 10 * minute) = flow_now + 10 * minute"
  "stored_time (flow_now + 60 * second) = flow_now + 60 * second" "flow_now \<noteq> zero_time"
  by (simp_all add: stored_time_def unix_sec_def time_Unix_def flow_now_def minute_def second_def zero_time_def)

lemma flow_HandleRegister:
  assumes "clients (w_db w) = []"
  shows "\<exists>resp w'. run_state (HandleRegister flow_env sample_rc flow_register) w = (resp, w') \<and>
    w_db w' = (w_db w)\<lparr>clients := [flow_client]\<rparr> \<and> w_providers w' = w_providers w"
proof -
  have lim: "limit_read 65536 sample_register_body = sample_register_body" by (simp add: limit_read_def sample_register_length)
  have ok: "initial_token_ok flow_env flow_register" by (simp add: initial_token_ok_def flow_env_def sample_start_env_def)
  have u: "json_marshal (JArr [JStr ''https://app/cb'']) = sample_uris" by (simp add: sample_uris_def)
  have valid: "validateRedirectURI flow_env x = []" for x by (simp add: validateRedirectURI_def sample_uri_def schemeDenylist_def)
  have fi: "first_invalid flow_env [''https://app/cb''] = []" by (simp add: first_invalid_ok valid)
  have "run_state (HandleRegister flow_env sample_rc flow_register) w = run_state (register_client flow_env sample_rc
      \<lparr>rg_RedirectURIs = [''https://app/cb''], rg_ClientName = [], rg_GrantTypes = [], rg_Scope = []\<rparr>) w"
    using ok sample_register_parse lim fi by (simp add: HandleRegister_def) (simp add: flow_register_def flow_req_def)
  with assms show ?thesis
    by (simp add: register_client_def randomHex_def InsertClient_def run_db_stmt sql_insert_def Let_def u flow_stored
        flow_client_def flow_cid_def flow_tok_def sample_rc_def del: json_marshal.simps)
qed

lemma flow_HandleAuthorize:
  assumes "clients (w_db w) = [flow_client]" "auth_sessions (w_db w) = []" "w_providers w = [(''https://idp'', sample_provider)]"
  shows "\<exists>resp w'. run_state (HandleAuthorize flow_env sample_rc flow_authorize) w = (resp, w') \<and>
    w_db w' = (w_db w)\<lparr>clients := [flow_client], auth_sessions := [flow_session]\<rparr> \<and> w_providers w' = w_providers w"
proof -
  have q: "QueryGet flow_authorize ''response_type'' = ''code''" "QueryGet flow_authorize ''client_id'' = flow_cid"
    "QueryGet flow_authorize ''redirect_uri'' = ''https://app/cb''" "QueryGet flow_authorize ''code_challenge'' = pkceS256Challenge ''v''"
    "QueryGet flow_authorize ''code_challenge_method'' = ''S256''" "QueryGet flow_authorize ''scope'' = []"
    "QueryGet flow_authorize ''state'' = []" "QueryGet flow_authorize ''prompt'' = []"
    by (simp_all add: QueryGet_def first_value_def flow_authorize_def flow_req_def)
  have "sha256_Sum256 ''v'' \<noteq> []" by (metis length_sha256 list.size(3) zero_neq_numeral)
  then have ne: "pkceS256Challenge ''v'' \<noteq> []" by (simp add: pkceS256Challenge_def b64_nonempty)
  have c: "sql_get cl_ClientID flow_cid [flow_client] = Some flow_client"
    "sql_update (\<lambda>c. cl_ClientID c = cl_ClientID flow_client) (\<lambda>c. c\<lparr>cl_LastUsedAt := flow_now\<rparr>) [flow_client] = [flow_client]"
    by (simp_all add: sql_get_def sql_update_def flow_client_def)
  have u: "unmarshal_strings (cl_RedirectURIsJSON flow_client) = Inr [''https://app/cb'']" by (simp add: flow_client_def sample_uris_parse)
  have p: "map_of (w_providers w) (rc_ProviderIssuer sample_rc) = Some sample_provider" by (simp add: assms(3) sample_rc_def)
  show ?thesis
    using assms ne
    by (simp add: HandleAuthorize_def q store_run c u flow_stored flow_nonempty(1) Discover_def p start_session_def
        InsertAuthSession_def run_db_stmt sql_insert_def Let_def)
      (simp add: flow_session_def flow_state_def flow_tok_def sample_rc_def)
qed

lemma flow_HandleCallback:
  assumes "auth_sessions (w_db w) = [flow_session]" "codes (w_db w) = []" "w_providers w = [(''https://idp'', sample_provider)]"
  shows "\<exists>resp w'. run_state (HandleCallback flow_env c sample_rc flow_callback) w = (resp, w') \<and> rs_Status resp = 302 \<and>
    w_db w' = (w_db w)\<lparr>codes := [flow_code], auth_sessions := []\<rparr> \<and> w_providers w' = w_providers w"
proof -
  have q: "QueryGet flow_callback ''error'' = []" "QueryGet flow_callback ''code'' = ''upcode''" "QueryGet flow_callback ''state'' = flow_state"
    by (simp_all add: QueryGet_def first_value_def flow_callback_def flow_req_def)
  have s: "sql_get se_State flow_state [flow_session] = Some flow_session" "sql_delete (\<lambda>s. se_State s = flow_state) [flow_session] = []"
    by (simp_all add: sql_get_def sql_delete_def flow_session_def)
  have p: "map_of (w_providers w) (se_ProviderIssuer flow_session) = Some sample_provider" by (simp add: assms(3) flow_session_def)
  have x: "\<not> se_ExpiresAt flow_session < flow_now" by (simp add: flow_session_def minute_def second_def)
  have lim: "limit_read body_limit sample_token_body = sample_token_body"
    by (simp add: limit_read_def sample_token_length body_limit_def)
  have e: "run_state (ExchangeCode flow_env sample_provider a b d f g) v =
      (Inr \<lparr>tr_AccessToken = ''up'', tr_RefreshToken = [], tr_IDToken = [], tr_TokenType = [], tr_Scope = []\<rparr>, bump v)" for a b d f g v
    by (simp add: ExchangeCode_def postToken_def lim sample_exchange_parse Let_def)
  have f: "run_state (fetch_claims flow_env sample_provider
      \<lparr>tr_AccessToken = ''up'', tr_RefreshToken = [], tr_IDToken = [], tr_TokenType = [], tr_Scope = []\<rparr>) v = (Some [], v)" for v
    by (simp add: fetch_claims_def oidc_Userinfo_def sample_provider_def)
  have sub: "claims_sub (Some []) = ''unknown''" by code_simp
  show ?thesis
    using assms
    by (simp add: HandleCallback_def q store_run s x flow_nonempty(3) Discover_def p e f issue_code_def encrypt_refresh_def Let_def
        InsertCode_def run_db_stmt sql_insert_def flow_stored)
      (simp add: flow_code_def flow_session_def flow_tok_def sub)
qed

lemma flow_HandleToken:
  assumes "clients (w_db w) = [flow_client]" "codes (w_db w) = [flow_code]" "refresh_tokens (w_db w) = []"
    and "with_status ''active'' (signing_keys (w_db w)) \<noteq> []"
  shows "\<exists>resp w'. run_state (HandleToken flow_env i c sample_rc flow_redeem) w = (resp, w') \<and> rs_Status resp = 200"
proof -
  have q: "extractClientCredentials flow_redeem = Inr (flow_cid, flow_tok)" "FormValue flow_redeem ''grant_type'' = ''authorization_code''"
    "FormValue flow_redeem ''code'' = flow_tok" "FormValue flow_redeem ''redirect_uri'' = ''https://app/cb''"
    "FormValue flow_redeem ''code_verifier'' = ''v''" "rq_Method flow_redeem = ''POST''" "\<not> rq_FormError flow_redeem"
    using flow_nonempty(1)
    by (simp_all add: extractClientCredentials_def FormValue_def first_value_def flow_redeem_def flow_req_def)
  have cl: "sql_get cl_ClientID flow_cid [flow_client] = Some flow_client" "check_secret flow_client flow_tok = None"
    using flow_nonempty(2) by (simp_all add: sql_get_def flow_client_def check_secret_def)
  have co: "sql_get co_Code flow_tok [flow_code] = Some flow_code" "co_ClientID flow_code = cl_ClientID flow_client"
    "co_RedirectURI flow_code = ''https://app/cb''" "\<not> co_ExpiresAt flow_code < flow_now" "co_CodeChallengeMethod flow_code = ''S256''"
    "co_CodeChallenge flow_code = pkceS256Challenge ''v''"
    by (simp_all add: sql_get_def flow_code_def flow_client_def second_def)
  from assms(4) obtain k where k: "List.find (\<lambda>k. sk_Status k = ''active'') (signing_keys (w_db w)) = Some k"
    by (metis find_None_iff filter_False option.exhaust)
  have dec: "decodePrivatePEM flow_env x = Inr x" for x
    by (simp add: decodePrivatePEM_def flow_env_def sample_start_env_def sample_env_def)
  show ?thesis
    using assms(1-3)
    by (simp add: HandleToken_def q store_run cl co handleAuthorizationCode_def redeem_row_def Let_def flow_nonempty(2) issue_for_code_def
        MintAccessToken_def ActiveKey_def k dec MintRefreshToken_def InsertRefreshToken_def run_db_stmt sql_insert_def)
qed

lemma prov_prims:
  "keeps (\<lambda>w. w_providers w = ps) (time_Now E)" "keeps (\<lambda>w. w_providers w = ps) (rand_Read E n)" "keeps (\<lambda>w. w_providers w = ps) (db_stmt E x f)"
  by (simp_all add: hoare_def run_db_stmt)

lemma prov_PersistEncrypted: "keeps (\<lambda>w. w_providers w = ps) (PersistEncrypted E c rc)"
  unfolding PersistEncrypted_def Encrypt_def UpsertResourceConfig_def by (intro hoare_rules prov_prims) auto

lemma prov_startup: "keeps (\<lambda>w. w_providers w = ps) (startup E)"
proof -
  have "keeps (\<lambda>w. w_providers w = ps) (generateEd25519 E)" by (simp add: generateEd25519_def hoare_def)
  then show ?thesis
    unfolding startup_def NewCipherWithStore_def ListEncryptionKeys_def InsertEncryptionKey_def Ensure_def GetActiveSigningKey_def InsertSigningKey_def Let_def
    by (intro hoare_rules prov_prims) auto
qed

text \<open>The tables and the provider cache between the requests.\<close>

definition stage :: "Client list \<Rightarrow> AuthSession list \<Rightarrow> Code list \<Rightarrow> world \<Rightarrow> bool" where
  "stage cs ss ks w \<longleftrightarrow> clients (w_db w) = cs \<and> auth_sessions (w_db w) = ss \<and> codes (w_db w) = ks \<and> refresh_tokens (w_db w) = [] \<and>
     w_providers w = [(''https://idp'', sample_provider)]"

lemma stage_bump: "stage cs ss ks (bump w) = stage cs ss ks w"
  by (simp add: stage_def)

lemma run_withRC:
  assumes "FromRequest r = Inr rc" "stage cs ss ks w"
    and "\<And>w1. stage cs ss ks w1 \<Longrightarrow> \<exists>resp w2. run_state (h rc r) w1 = (resp, w2) \<and> stage cs' ss' ks' w2"
  shows "\<exists>resp w2. run_state (withRC E c h r) w = (resp, w2) \<and> stage cs' ss' ks' w2"
proof -
  obtain x w1 where p: "run_state (PersistEncrypted E c rc) w = (x, w1)" by fastforce
  have "stage cs ss ks w1"
    using PersistEncrypted_db [OF p] hoareD [OF prov_PersistEncrypted refl p] assms(2) by (auto simp: stage_def)
  from assms(3) [OF this] p show ?thesis by (auto simp: withRC_def assms(1))
qed

text \<open>A server whose audit log is open and whose rotator waits.\<close>

definition calm :: "server \<Rightarrow> bool" where
  "calm sv \<longleftrightarrow> \<not> lg_closed (sv_audit sv) \<and> sv_rotation sv = RotDone (Inr ())"

lemma logRequests_open:
  assumes "calm sv" "run_state (mux E sv r) (bump w) = ((resp, sv1), w1)"
  shows "\<exists>sv' w'. run_state (logRequests E sv r) w = ((resp, sv'), w')"
proof -
  obtain resp2 sv2 w2 where lr: "run_state (logRequests E sv r) w = ((resp2, sv2), w2)" by (metis prod.exhaust)
  with logRequests_result [OF lr] assms show ?thesis by (auto simp: calm_def)
qed

lemma flow_serve:
  assumes "reach E h (Up sv) w" "calm sv" "run_state (mux E sv r) (bump w) = ((resp, sv'), w1)" "stage cs ss ks w1"
  shows "\<exists>e sv2 w2. reach E (h @ [e]) (Up sv2) w2 \<and> req e = r \<and> calm sv2 \<and> stage cs ss ks w2"
proof -
  obtain resp2 sv2 w2 where lr: "run_state (logRequests E sv r) w = ((resp2, sv2), w2)" by (metis prod.exhaust)
  from logRequests_result [OF lr] assms(2,3) logRequests_rotation [OF lr] have
    d: "w_db w2 = w_db w1" "w_providers w2 = w_providers w1" and c: "calm sv2" by (auto simp: calm_def)
  then have "stage cs ss ks w2" using assms(4) by (simp add: stage_def)
  with reach.serve [OF assms(1) lr] c show ?thesis by (intro exI [of _ "(r, w, w2)"] exI [of _ sv2] exI [of _ w2]) simp
qed

lemma flow_rc_serve:
  assumes "reach flow_env h (Up sv) w" "calm sv" "stage cs ss ks w" "rc_handler flow_env sv (rq_Path r) = Some f"
    "cleanPath (rq_Path r) = rq_Path r"
    and "FromRequest r = Inr sample_rc" "\<And>w1. stage cs ss ks w1 \<Longrightarrow> \<exists>resp w2. run_state (f sample_rc r) w1 = (resp, w2) \<and> stage cs' ss' ks' w2"
  shows "\<exists>e sv2 w2. reach flow_env (h @ [e]) (Up sv2) w2 \<and> req e = r \<and> calm sv2 \<and> stage cs' ss' ks' w2"
proof -
  have "stage cs ss ks (bump w)" using assms(3) by (simp add: stage_bump)
  from run_withRC [where h = f, OF assms(6) this assms(7)] obtain resp w2 where
    w: "run_state (withRC flow_env (sv_cipher sv) f r) (bump w) = (resp, w2)" "stage cs' ss' ks' w2" by metis
  then have "run_state (mux flow_env sv r) (bump w) = ((resp, sv), w2)" by (simp add: mux_rc_path [OF assms(4,5)])
  from flow_serve [OF assms(1,2) this w(2)] show ?thesis .
qed

lemma flow_paths: "cleanPath ''/oauth/register'' = ''/oauth/register''" "cleanPath ''/oauth/authorize'' = ''/oauth/authorize''"
  "cleanPath ''/oauth/callback'' = ''/oauth/callback''" "cleanPath ''/oauth/token'' = ''/oauth/token''"
  by code_simp+

lemma flow_reqs: "rq_Path flow_register = ''/oauth/register''" "rq_Path flow_authorize = ''/oauth/authorize''"
  "rq_Path flow_callback = ''/oauth/callback''" "rq_Path flow_redeem = ''/oauth/token''"
  "FromRequest flow_register = Inr sample_rc" "FromRequest flow_authorize = Inr sample_rc" "FromRequest flow_callback = Inr sample_rc"
  "FromRequest flow_redeem = Inr sample_rc"
  by (simp_all add: flow_register_def flow_authorize_def flow_callback_def flow_redeem_def flow_rc) (simp_all add: flow_req_def)

lemma flow_started: "\<exists>sv w l. reach flow_env [] (Up sv) w \<and> calm sv \<and> stage [] [] [] w \<and>
    take_token (sv_limiter sv) flow_now (clientIP flow_register) = (None, l)"
proof -
  let ?p = "[(''https://idp'', sample_provider)]"
  let ?w = "sample_world\<lparr>w_providers := ?p\<rparr>"
  have db: "w_db ?w = empty_db" "w_db sample_world = empty_db" by (simp_all add: sample_world_def)
  have "\<exists>sv w'. run_state (startup flow_env) ?w = (Inr sv, w')"
    by (rule start_run) (simp_all add: db flow_stored, simp_all add: flow_env_def sample_start_env_def sample_env_def)
  then obtain sv w where s: "run_state (startup flow_env) ?w = (Inr sv, w)" by blast
  from reach.start [OF reach.install [OF db(2)] s] have r: "reach flow_env [] (Up sv) w" .
  have o: "calm sv" using startup_parts [OF s] by (auto simp: calm_def newSQLiteLoggerWithBuffer_def)
  have "w_providers w = ?p" using hoareD [OF prov_startup _ s] by simp
  then have "stage [] [] [] w"
    using reach_rows_known [OF r] by (auto simp: stage_def db_inv_def known_defs simp flip: set_empty)
  moreover have "\<exists>l. take_token (sv_limiter sv) flow_now (clientIP flow_register) = (None, l)"
    using startup_limiter [OF s] by (auto simp: take_token_def current_bucket_def)
  ultimately show ?thesis using r o by blast
qed

text \<open>Two requests later the session waits in the table, three requests later the code.\<close>

lemma flow_session_waits: "\<exists>e1 e2 sv w. reach flow_env [e1, e2] (Up sv) w \<and> req e1 = flow_register \<and> req e2 = flow_authorize \<and> calm sv \<and> stage [flow_client] [flow_session] [] w"
proof -
  from flow_started obtain sv w l where r0: "reach flow_env [] (Up sv) w" "calm sv" "stage [] [] [] w"
    and lim: "take_token (sv_limiter sv) flow_now (clientIP flow_register) = (None, l)" by blast
  have "\<exists>resp w1. run_state (withRC flow_env (sv_cipher sv) (HandleRegister flow_env) flow_register) (bump (bump w)) = (resp, w1) \<and>
      stage [flow_client] [] [] w1"
  proof (rule run_withRC [OF flow_reqs(5)])
    show "stage [] [] [] (bump (bump w))" using r0(3) by (simp add: stage_bump)
    show "\<exists>resp w2. run_state (HandleRegister flow_env sample_rc flow_register) w1 = (resp, w2) \<and> stage [flow_client] [] [] w2"
      if "stage [] [] [] w1" for w1 using flow_HandleRegister [of w1] that by (auto simp: stage_def)
  qed
  then obtain resp w1 where "run_state (withRC flow_env (sv_cipher sv) (HandleRegister flow_env) flow_register) (bump (bump w)) = (resp, w1)"
    and w1: "stage [flow_client] [] [] w1" by blast
  then have "run_state (mux flow_env sv flow_register) (bump w) = ((resp, sv\<lparr>sv_limiter := l\<rparr>), w1)"
    by (simp add: mux_def flow_reqs flow_paths Middleware_def lim)
  from flow_serve [OF r0(1,2) this w1] obtain e1 sv1 v1 where
    r1: "reach flow_env [e1] (Up sv1) v1" "calm sv1" "stage [flow_client] [] [] v1" and e1: "req e1 = flow_register" by auto
  have "\<exists>e sv2 w2. reach flow_env ([e1] @ [e]) (Up sv2) w2 \<and> req e = flow_authorize \<and> calm sv2 \<and> stage [flow_client] [flow_session] [] w2"
  proof (rule flow_rc_serve [OF r1, of flow_authorize "\<lambda>rc r. HandleAuthorize flow_env rc r"])
    show "\<exists>resp w2. run_state (HandleAuthorize flow_env sample_rc flow_authorize) w = (resp, w2) \<and> stage [flow_client] [flow_session] [] w2"
      if "stage [flow_client] [] [] w" for w using flow_HandleAuthorize [of w] that by (auto simp: stage_def)
  qed (simp_all add: flow_reqs flow_paths rc_handler_def)
  with e1 show ?thesis by (simp only: append_Cons append_Nil) blast
qed

lemma flow_code_waits: "\<exists>h sv w. reach flow_env h (Up sv) w \<and> calm sv \<and> stage [flow_client] [] [flow_code] w"
proof -
  from flow_session_waits obtain h2 sv2 v2 where
    r2: "reach flow_env h2 (Up sv2) v2" "calm sv2" "stage [flow_client] [flow_session] [] v2" by blast
  have "\<exists>e sv3 w3. reach flow_env (h2 @ [e]) (Up sv3) w3 \<and> req e = flow_callback \<and> calm sv3 \<and> stage [flow_client] [] [flow_code] w3"
  proof (rule flow_rc_serve [OF r2, of flow_callback "\<lambda>rc r. HandleCallback flow_env (sv_cipher sv2) rc r"])
    show "\<exists>resp w2. run_state (HandleCallback flow_env (sv_cipher sv2) sample_rc flow_callback) w = (resp, w2) \<and> stage [flow_client] [] [flow_code] w2"
      if "stage [flow_client] [flow_session] [] w" for w using flow_HandleCallback [of w "sv_cipher sv2"] that by (auto simp: stage_def)
  qed (simp_all add: flow_reqs flow_paths rc_handler_def)
  then show ?thesis by blast
qed

theorem tokens_trace_to_consent_witness:
  "\<exists>h sv w resp sv' w' reg aut cb k. reach flow_env h (Up sv) w \<and> run_state (logRequests flow_env sv flow_redeem) w = ((resp, sv'), w') \<and>
     rs_Status resp = 200 \<and> consent flow_env h reg aut cb k \<and> co_Code k = flow_tok"
proof -
  from flow_code_waits obtain h sv w where r: "reach flow_env h (Up sv) w" and op: "calm sv" and s: "stage [flow_client] [] [flow_code] w" by blast
  have "no_faults flow_env" by (simp add: no_faults_def)
  with reach_keys_ok [OF r] op have k: "with_status ''active'' (signing_keys (w_db w)) \<noteq> []" by (auto simp: keys_ok_def calm_def)
  obtain x w1 where p: "run_state (PersistEncrypted flow_env (sv_cipher sv) sample_rc) (bump w) = (x, w1)" by fastforce
  have "stage [flow_client] [] [flow_code] w1" "with_status ''active'' (signing_keys (w_db w1)) \<noteq> []"
    using PersistEncrypted_db [OF p] hoareD [OF prov_PersistEncrypted refl p] s k by (auto simp: stage_def)
  then obtain resp w2 where t: "run_state (HandleToken flow_env (sv_issuer sv) (sv_cipher sv) sample_rc flow_redeem) w1 = (resp, w2)"
    and ok: "rs_Status resp = 200"
    using flow_HandleToken [of w1 "sv_issuer sv" "sv_cipher sv"] by (auto simp: stage_def)
  have h: "rc_handler flow_env sv (rq_Path flow_redeem) = Some (\<lambda>rc r. HandleToken flow_env (sv_issuer sv) (sv_cipher sv) rc r)"
    by (simp add: rc_handler_def flow_reqs)
  have m: "run_state (mux flow_env sv flow_redeem) (bump w) = ((resp, sv), w2)"
    using p t by (subst mux_rc_path [OF h]) (simp_all add: flow_reqs flow_paths withRC_def)
  obtain sv' w' where l: "run_state (logRequests flow_env sv flow_redeem) w = ((resp, sv'), w')"
    using logRequests_open [OF op m] by blast
  have q: "FormValue flow_redeem ''grant_type'' = ''authorization_code''" "FormValue flow_redeem ''code'' = flow_tok"
    by (simp_all add: FormValue_def first_value_def flow_redeem_def flow_req_def)
  from tokens_trace_to_consent [OF r l flow_reqs(4) ok] q obtain reg aut cb k where
    "consent flow_env h reg aut cb k" "co_Code k = flow_tok" by auto
  with r l ok show ?thesis by blast
qed

lemma flow_empty_body: "parse_register [] = Inl (GoErr ''json'')"
  by code_simp

lemma flow_ascii:
  assumes "req e1 = flow_register" "req e2 = flow_authorize"
  shows "\<forall>e \<in> set [e1, e2]. \<forall>b q. rq_Body (req e) = Inr b \<and> parse_register (limit_read 65536 b) = Inr q \<longrightarrow> (\<forall>u \<in> set (rg_RedirectURIs q). ascii u)"
proof -
  have "limit_read 65536 sample_register_body = sample_register_body" by (simp add: limit_read_def sample_register_length)
  moreover have "ascii ''https://app/cb''" by code_simp
  moreover have "parse_register (limit_read 65536 []) = Inl (GoErr ''json'')" by (simp add: limit_read_def flow_empty_body)
  ultimately show ?thesis
    using assms sample_register_parse by (auto simp: flow_register_def flow_authorize_def flow_req_def)
qed

theorem redirects_only_to_vetted_uris_witness:
  "\<exists>h sv w resp sv' w' qs. reach flow_env h (Up sv) w \<and> run_state (logRequests flow_env sv flow_callback) w = ((resp, sv'), w') \<and> rs_Status resp = 302 \<and>
     (\<exists>e \<in> set h. rq_Path (req e) = ''/oauth/register'') \<and> rs_Body resp = RedirectBody (sample_uri\<lparr>u_Query := qs\<rparr>)"
proof -
  from flow_session_waits obtain e1 e2 sv w where r: "reach flow_env [e1, e2] (Up sv) w" and e: "req e1 = flow_register" "req e2 = flow_authorize"
    and op: "calm sv" and s: "stage [flow_client] [flow_session] [] w" by blast
  obtain x w1 where p: "run_state (PersistEncrypted flow_env (sv_cipher sv) sample_rc) (bump w) = (x, w1)" by fastforce
  have "stage [flow_client] [flow_session] [] w1"
    using PersistEncrypted_db [OF p] hoareD [OF prov_PersistEncrypted refl p] s by (auto simp: stage_def)
  then obtain resp w2 where t: "run_state (HandleCallback flow_env (sv_cipher sv) sample_rc flow_callback) w1 = (resp, w2)"
    and ok: "rs_Status resp = 302"
    using flow_HandleCallback [of w1 "sv_cipher sv"] by (auto simp: stage_def)
  have h: "rc_handler flow_env sv (rq_Path flow_callback) = Some (\<lambda>rc r. HandleCallback flow_env (sv_cipher sv) rc r)"
    by (simp add: rc_handler_def flow_reqs)
  have m: "run_state (mux flow_env sv flow_callback) (bump w) = ((resp, sv), w2)"
    using p t by (subst mux_rc_path [OF h]) (simp_all add: flow_reqs flow_paths withRC_def)
  obtain sv' w' where l: "run_state (logRequests flow_env sv flow_callback) w = ((resp, sv'), w')"
    using logRequests_open [OF op m] by blast
  from redirects_only_to_vetted_uris [OF r l flow_reqs(3) ok flow_ascii [OF e]] obtain e raw u qs where
    o: "e \<in> set [e1, e2]" "rq_Path (req e) = ''/oauth/register''" "url_Parse flow_env raw = Inr u" "rs_Body resp = RedirectBody (u\<lparr>u_Query := qs\<rparr>)" by blast
  then have "u = sample_uri" by simp
  with r l ok o show ?thesis by blast
qed

end
