(* ===== verification/Go_Indent.thy ===== *)
theory Go_Indent
  imports Go_Json
begin

text \<open>
  The bytes that \<^verbatim>\<open>writeJSON\<close> of \<^verbatim>\<open>as/wellknown.go\<close> sends: the JSON encoder with \<^verbatim>\<open>SetIndent("", "  ")\<close> puts each element
  and member on a line of its own, two spaces deeper than the bracket, a space after each colon,
  nothing inside an empty bracket, and a newline at the end. A reader gets the same value as from the
  compact form.
\<close>

definition newline :: "nat \<Rightarrow> string" where
  "newline d = CHR 0x0A # replicate (2 * d) CHR '' ''"

fun json_indent :: "nat \<Rightarrow> json \<Rightarrow> string" where
  "json_indent d (JArr xs) =
     (if xs = [] then ''[]'' else ''['' @ comma_sep (map (\<lambda>x. newline (Suc d) @ json_indent (Suc d) x) xs) @ newline d @ '']'')"
| "json_indent d (JObj m) =
     (if m = [] then ''{}''
      else ''{'' @ comma_sep (map (\<lambda>(k, t). newline (Suc d) @ quote k @ '': '' @ t)
         (sort_key fst (map (\<lambda>(k, v). (k, json_indent (Suc d) v)) m))) @ newline d @ ''}'')"
| "json_indent d v = json_marshal v"

definition encode_indented :: "json \<Rightarrow> string" where
  "encode_indented v = json_indent 0 v @ [CHR 0x0A]"

section \<open>Reading it back\<close>

lemma ws_chars: "json_ws CHR '' ''" "json_ws CHR 0x0A" "\<not> json_ws CHR '',''" "\<not> json_ws CHR '':''" "\<not> json_ws CHR '']''" "\<not> json_ws CHR ''}''" "\<not> json_ws CHR 0x22"
  by (simp_all add: json_ws_def)

lemma skip_newline [simp]: "skip_ws (newline d @ r) = skip_ws r"
proof -
  have "skip_ws (replicate n CHR '' '' @ r) = skip_ws r" for n by (induction n) (simp_all add: ws_chars)
  then show ?thesis by (simp add: newline_def ws_chars)
qed

lemma num_stop_newline: "num_stop (newline d @ r)"
  by (simp add: newline_def num_stop_def is_digit_def)

lemma json_indent_start: "jplain v \<Longrightarrow> \<exists>c t. json_indent d v = c # t \<and> val_start c"
  using json_marshal_start [of v] by (cases v) (auto simp: val_start_def json_ws_def)

lemma skip_ws_indent: "jplain v \<Longrightarrow> skip_ws (json_indent d v @ r) = json_indent d v @ r"
  using json_indent_start [of v d] by (auto simp: val_start_def)

definition reads_indented :: "json \<Rightarrow> bool" where
  "reads_indented v \<longleftrightarrow> (\<forall>d n r. length (json_indent d v) \<le> n \<longrightarrow> num_stop r \<longrightarrow> json_value n (json_indent d v @ r) = Some (jnorm v, r))"

lemma reads_indentedD:
  "reads_indented v \<Longrightarrow> length (json_indent d v) \<le> n \<Longrightarrow> num_stop r \<Longrightarrow> json_value n (json_indent d v @ r) = Some (jnorm v, r)"
  by (simp add: reads_indented_def)

definition indented_member :: "nat \<Rightarrow> string \<times> json \<Rightarrow> string" where
  "indented_member d = (\<lambda>(k, v). newline d @ quote k @ '': '' @ json_indent d v)"

lemma indented_elems:
  "xs \<noteq> [] \<Longrightarrow> \<forall>x \<in> set xs. jplain x \<and> reads_indented x \<Longrightarrow> length (comma_sep (map (\<lambda>x. newline d @ json_indent d x) xs)) < n \<Longrightarrow>
   json_elems n (skip_ws (comma_sep (map (\<lambda>x. newline d @ json_indent d x) xs) @ newline d' @ CHR '']'' # r)) = Some (map jnorm xs, r)"
proof (induction xs arbitrary: n)
  case (Cons x xs)
  then obtain m where n: "n = Suc m" by (cases n) auto
  from Cons.prems have x: "jplain x" "reads_indented x" and xs: "\<forall>x \<in> set xs. jplain x \<and> reads_indented x" by auto
  show ?case
  proof (cases xs)
    case Nil
    with Cons.prems(3) n have "length (json_indent d x) \<le> m" by simp
    from reads_indentedD [OF x(2) this num_stop_newline, of d' "CHR '']'' # r"] Nil n x(1) show ?thesis
      by (simp add: skip_ws_indent ws_chars)
  next
    case (Cons y ys)
    let ?text = "comma_sep (map (\<lambda>x. newline d @ json_indent d x) xs)"
    let ?rest = "?text @ newline d' @ CHR '']'' # r"
    from Cons have t: "comma_sep (map (\<lambda>x. newline d @ json_indent d x) (x # xs)) = newline d @ json_indent d x @ CHR '','' # ?text" by simp
    from Cons.prems(3) t n have l: "length (json_indent d x) \<le> m" "length ?text < m" by auto
    have "num_stop (CHR '','' # ?rest)" by (simp add: num_stop_def is_digit_def)
    from reads_indentedD [OF x(2) l(1) this] have v: "json_value m (json_indent d x @ CHR '','' # ?rest) = Some (jnorm x, CHR '','' # ?rest)" .
    have "json_elems m (skip_ws ?rest) = Some (map jnorm xs, r)" using Cons.IH [OF _ xs l(2)] Cons by simp
    with v show ?thesis unfolding t n by (simp add: skip_ws_indent [OF x(1)] ws_chars del: json_value.simps)
  qed
qed simp

lemma indented_member_step:
  assumes "ascii k" "jplain v" "reads_indented v" "length (json_indent d v) \<le> m" "num_stop t"
  shows "json_members (Suc m) acc (skip_ws (indented_member d (k, v) @ t)) =
    (case skip_ws t of
       c # t' \<Rightarrow> if c = CHR '','' then json_members m (alist_set k (jnorm v) acc) (skip_ws t')
                 else if c = CHR ''}'' then Some (alist_set k (jnorm v) acc, t') else None
     | [] \<Rightarrow> None)"
proof -
  have "json_str (Suc (length (json_esc k @ CHR 0x22 # u))) (json_esc k @ CHR 0x22 # u) = Some (k, u)" for u
    using assms(1) by (intro json_str_roundtrip) simp_all
  from this [of "'': '' @ json_indent d v @ t"] reads_indentedD [OF assms(3-5)] skip_ws_indent [OF assms(2), of d t]
  show ?thesis by (simp add: indented_member_def quote_def ws_chars del: json_value.simps)
qed

lemma indented_members:
  "ms \<noteq> [] \<Longrightarrow> \<forall>(k, v) \<in> set ms. ascii k \<and> jplain v \<and> reads_indented v \<Longrightarrow> distinct (map fst acc @ map fst ms) \<Longrightarrow>
   length (comma_sep (map (indented_member d) ms)) < n \<Longrightarrow>
   json_members n acc (skip_ws (comma_sep (map (indented_member d) ms) @ newline d' @ CHR ''}'' # r)) = Some (acc @ map (\<lambda>(k, v). (k, jnorm v)) ms, r)"
proof (induction ms arbitrary: n acc)
  case (Cons kv ms)
  then obtain m where n: "n = Suc m" by (cases n) auto
  obtain k v where kv: "kv = (k, v)" by (cases kv)
  from Cons.prems kv have v: "ascii k" "jplain v" "reads_indented v"
    and ms: "\<forall>(k, v) \<in> set ms. ascii k \<and> jplain v \<and> reads_indented v" by auto
  have set_new: "alist_set k u acc = acc @ [(k, u)]" for u
  proof -
    from Cons.prems(3) kv have "k \<notin> fst ` set acc" by auto
    then show ?thesis by (induction acc) auto
  qed
  show ?case
  proof (cases ms)
    case Nil
    with Cons.prems(4) n kv have "length (json_indent d v) \<le> m" by (simp add: indented_member_def)
    from indented_member_step [OF v this num_stop_newline, of acc d' "CHR ''}'' # r"] Nil kv n show ?thesis
      by (simp add: ws_chars set_new del: json_members.simps)
  next
    case (Cons kv' ms')
    let ?text = "comma_sep (map (indented_member d) ms)"
    let ?rest = "?text @ newline d' @ CHR ''}'' # r"
    from Cons have t: "comma_sep (map (indented_member d) (kv # ms)) = indented_member d (k, v) @ CHR '','' # ?text" by (simp add: kv)
    from Cons.prems(4) t n have l: "length (json_indent d v) \<le> m" "length ?text < m" by (auto simp: indented_member_def)
    have "num_stop (CHR '','' # ?rest)" by (simp add: num_stop_def is_digit_def)
    from indented_member_step [OF v l(1) this, of acc] have
      "json_members (Suc m) acc (skip_ws (indented_member d (k, v) @ CHR '','' # ?rest)) = json_members m (acc @ [(k, jnorm v)]) (skip_ws ?rest)"
      by (simp add: ws_chars set_new del: json_members.simps)
    moreover have "json_members m (acc @ [(k, jnorm v)]) (skip_ws ?rest) = Some ((acc @ [(k, jnorm v)]) @ map (\<lambda>(k, v). (k, jnorm v)) ms, r)"
      using Cons.IH [of "acc @ [(k, jnorm v)]" m] Cons Cons.prems(3) ms l kv by auto
    ultimately show ?thesis unfolding t n by (simp add: kv del: json_members.simps)
  qed
qed simp

lemma indented_arr:
  assumes "\<forall>x \<in> set xs. jplain x \<and> reads_indented x"
  shows "reads_indented (JArr xs)"
proof (unfold reads_indented_def, intro allI impI)
  fix d n r assume len: "length (json_indent d (JArr xs)) \<le> n"
  let ?t = "comma_sep (map (\<lambda>x. newline (Suc d) @ json_indent (Suc d) x) xs)"
  obtain m where n: "n = Suc m" using len by (cases n) (auto split: if_splits)
  show "json_value n (json_indent d (JArr xs) @ r) = Some (jnorm (JArr xs), r)"
  proof (cases xs)
    case (Cons y ys)
    then have t: "json_indent d (JArr xs) @ r = CHR ''['' # ?t @ newline d @ CHR '']'' # r" by simp
    from Cons assms obtain c u where cu: "skip_ws (?t @ newline d @ CHR '']'' # r) = c # u" "val_start c"
      using json_indent_start [of y "Suc d"] skip_ws_indent [of y "Suc d"] by (cases ys) auto
    have "length ?t < m" using len n Cons by (simp add: newline_def)
    with indented_elems [OF _ assms, of "Suc d" m d r] Cons have "json_elems m (skip_ws (?t @ newline d @ CHR '']'' # r)) = Some (map jnorm xs, r)" by simp
    with cu show ?thesis unfolding t n by (simp add: val_start_def)
  qed (simp add: n ws_chars)
qed

lemma indented_obj:
  assumes "distinct (map fst ms)" "\<forall>(k, v) \<in> set ms. ascii k \<and> jplain v \<and> reads_indented v"
  shows "reads_indented (JObj ms)"
proof (unfold reads_indented_def, intro allI impI)
  fix d n r assume len: "length (json_indent d (JObj ms)) \<le> n"
  let ?ms = "sort_key fst ms"
  let ?t = "comma_sep (map (indented_member (Suc d)) ?ms)"
  obtain m where n: "n = Suc m" using len by (cases n) (auto split: if_splits)
  have nrm: "jnorm (JObj ms) = JObj (map (\<lambda>(k, v). (k, jnorm v)) ?ms)" by (simp add: sort_key_map_snd)
  show "json_value n (json_indent d (JObj ms) @ r) = Some (jnorm (JObj ms), r)"
  proof (cases "ms = []")
    case False
    then have t: "json_indent d (JObj ms) = CHR ''{'' # ?t @ newline d @ ''}''"
      unfolding json_indent.simps sort_key_map_snd by (simp add: indented_member_def comp_def split_def)
    have ne: "?ms \<noteq> []" using False by (metis length_0_conv length_sort)
    then obtain u where u: "skip_ws (?t @ newline d @ CHR ''}'' # r) = CHR 0x22 # u"
      by (cases ?ms; cases "tl ?ms") (auto simp: indented_member_def quote_def ws_chars)
    have all: "\<forall>(k, v) \<in> set ?ms. ascii k \<and> jplain v \<and> reads_indented v" using assms(2) by simp
    have dist: "distinct (map fst ([] :: jmap) @ map fst ?ms)" using assms(1) by (simp add: distinct_map)
    have "length ?t < m" using len n unfolding t by (simp add: newline_def)
    from indented_members [OF ne all dist this, of d r] u show ?thesis unfolding t nrm n by simp
  qed (simp add: n ws_chars)
qed

lemma reads_indented: "jplain v \<Longrightarrow> reads_indented v"
proof (induction v)
  case (JArr xs)
  then show ?case by (intro indented_arr) auto
next
  case (JObj ms)
  then show ?case by (intro indented_obj) fastforce+
next
  case (JFloat m e)
  then show ?case by simp
qed (use json_value_roundtrip in \<open>simp_all add: reads_indented_def reads_back_def del: json_marshal.simps\<close>)

text \<open>What \<^verbatim>\<open>writeJSON\<close> sends reads back like the compact form.\<close>

theorem encode_indented_roundtrip:
  assumes "jplain v"
  shows "json_unmarshal (encode_indented v) = Inr (jnorm v)"
proof -
  let ?n = "2 * length (encode_indented v) + 2"
  have "num_stop [CHR 0x0A]" by (simp add: num_stop_def is_digit_def)
  with reads_indentedD [OF reads_indented [OF assms], of 0 ?n] have "json_value ?n (json_indent 0 v @ [CHR 0x0A]) = Some (jnorm v, [CHR 0x0A])"
    by (simp add: encode_indented_def del: json_value.simps)
  with skip_ws_indent [OF assms, of 0 "[CHR 0x0A]"] show ?thesis
    by (simp add: json_unmarshal_def encode_indented_def ws_chars del: json_value.simps)
qed

end
