(* ===== verification/Plugin_Jwt.thy ===== *)
theory Plugin_Jwt
  imports As_Inspect Go_Net Go_Indent
begin

text \<open>
  The plugin's token verification: \<^verbatim>\<open>plugin/jwks_cache.go\<close> and \<^verbatim>\<open>plugin/jwt_verify.go\<close>. The cache is passed and
  returned; fetching the key set is an HTTP effect. The verifier is the third instance of
  \<open>jwt_verifier\<close>. One request at a time holds the cache: another request's refresh between the read
  and the write lock is a refresh before this one.
\<close>

section \<open>The key cache\<close>

datatype pubkey = EdPublicKey bytes | RsaPublicKey int int

record publicKey =
  pk_kid :: string
  pk_alg :: string
  pk_key :: pubkey

record jwksCache =
  jc_sidecarBaseURL :: string
  jc_resource :: string
  jc_ttl :: int
  jc_lastFetch :: time
  jc_keys :: "(string \<times> publicKey) list"

definition newJWKSCache :: "string \<Rightarrow> string \<Rightarrow> int \<Rightarrow> jwksCache" where
  "newJWKSCache sidecarBaseURL resource ttlSeconds =
     (let secs = (if ttlSeconds \<le> 0 then 300 else ttlSeconds) in
      \<lparr>jc_sidecarBaseURL = sidecarBaseURL, jc_resource = resource, jc_ttl = wrap64 (secs * second), jc_lastFetch = zero_time, jc_keys = []\<rparr>)"

record jwkEntry =
  je_Kty :: string
  je_Kid :: string
  je_Alg :: string
  je_Crv :: string
  je_X :: string
  je_N :: string
  je_E :: string

text \<open>Decoding the key set into the structs. A null entry is the zero entry, a null list is empty, and a
  member of another type is an error; of several \<^verbatim>\<open>keys\<close> members the last counts.\<close>

definition parse_entry_fields :: "jmap \<Rightarrow> jwkEntry result" where
  "parse_entry_fields m =
     (case (struct_str m ''kty'', struct_str m ''kid'', struct_str m ''alg'', struct_str m ''crv'', struct_str m ''x'',
        struct_str m ''n'', struct_str m ''e'') of
        (Inr kty, Inr kid, Inr alg, Inr crv, Inr x, Inr n, Inr e) \<Rightarrow>
          Inr \<lparr>je_Kty = kty, je_Kid = kid, je_Alg = alg, je_Crv = crv, je_X = x, je_N = n, je_E = e\<rparr>
      | _ \<Rightarrow> Inl (GoErr ''json type''))"

fun parse_entry :: "json \<Rightarrow> jwkEntry result" where
  "parse_entry (JObj m) = parse_entry_fields m"
| "parse_entry JNull = parse_entry_fields []"
| "parse_entry _ = Inl (GoErr ''json type'')"

fun parse_entries :: "json list \<Rightarrow> jwkEntry list result" where
  "parse_entries [] = Inr []"
| "parse_entries (v # vs) =
     (case parse_entry v of
        Inl e \<Rightarrow> Inl e
      | Inr x \<Rightarrow> (case parse_entries vs of Inl e \<Rightarrow> Inl e | Inr xs \<Rightarrow> Inr (x # xs)))"

fun parse_key_lists :: "json list \<Rightarrow> jwkEntry list \<Rightarrow> jwkEntry list result" where
  "parse_key_lists [] acc = Inr acc"
| "parse_key_lists (JArr xs # vs) acc = (case parse_entries xs of Inl e \<Rightarrow> Inl e | Inr ks \<Rightarrow> parse_key_lists vs ks)"
| "parse_key_lists (JNull # vs) acc = parse_key_lists vs []"
| "parse_key_lists (_ # vs) acc = Inl (GoErr ''json type'')"

definition parse_jwks :: "bytes \<Rightarrow> jwkEntry list result" where
  "parse_jwks body =
     (case json_unmarshal body of
        Inl e \<Rightarrow> Inl e
      | Inr (JObj m) \<Rightarrow> parse_key_lists (field_values m ''keys'') []
      | Inr JNull \<Rightarrow> Inr []
      | Inr _ \<Rightarrow> Inl (GoErr ''json type''))"

definition be_int :: "bytes \<Rightarrow> int" where
  "be_int bs = foldl (\<lambda>a b. a * 256 + int (byte_val b)) 0 bs"

definition parseJWKEntry :: "jwkEntry \<Rightarrow> publicKey result" where
  "parseJWKEntry e =
     (if je_Kty e = ''OKP'' \<and> je_Crv e = ''Ed25519'' then
        (case b64_DecodeString RawURLEncoding (je_X e) of
           Inl err \<Rightarrow> Inl (GoWrap ''ed25519 x decode'' err)
         | Inr xBytes \<Rightarrow>
             if length xBytes \<noteq> 32 then Inl (GoErr ''ed25519 x wrong size'')
             else Inr \<lparr>pk_kid = je_Kid e, pk_alg = ''EdDSA'', pk_key = EdPublicKey xBytes\<rparr>)
      else if je_Kty e = ''RSA'' then
        (case b64_DecodeString RawURLEncoding (je_N e) of
           Inl err \<Rightarrow> Inl (GoWrap ''rsa n decode'' err)
         | Inr nBytes \<Rightarrow>
             (case b64_DecodeString RawURLEncoding (je_E e) of
                Inl err \<Rightarrow> Inl (GoWrap ''rsa e decode'' err)
              | Inr eBytes \<Rightarrow>
                  if length eBytes > 4 then Inl (GoErr ''rsa e too large'')
                  else Inr \<lparr>pk_kid = je_Kid e, pk_alg = ''RS256'',
                    pk_key = RsaPublicKey (be_int nBytes) (be_int (replicate (4 - length eBytes) CHR 0x00 @ eBytes))\<rparr>))
      else Inl (GoErr ''unsupported kty''))"

definition entry_keys :: "jwkEntry list \<Rightarrow> (string \<times> publicKey) list" where
  "entry_keys es = fold (\<lambda>e m. case parseJWKEntry e of Inl err \<Rightarrow> m | Inr pk \<Rightarrow> alist_set (je_Kid e) pk m) es []"

definition jwks_url :: "jwksCache \<Rightarrow> string" where
  "jwks_url c = jc_sidecarBaseURL c @ ''/oauth/jwks.json?resource='' @ jc_resource c"

definition jwks_request :: "jwksCache \<Rightarrow> http_req" where
  "jwks_request c = \<lparr>hq_Method = ''GET'', hq_URL = jwks_url c, hq_Header = [], hq_Form = []\<rparr>"

definition refresh :: "env \<Rightarrow> jwksCache \<Rightarrow> (unit result \<times> jwksCache) eff" where
  "refresh E c = do {
     resp \<leftarrow> http_Do E (jwks_request c);
     case resp of
       Inl e \<Rightarrow> State_Monad.return (Inl (GoWrap ''jwks fetch'' e), c)
     | Inr hr \<Rightarrow>
         (case hp_Body hr of
            Inl e \<Rightarrow> State_Monad.return (Inl (GoWrap ''jwks read'' e), c)
          | Inr body \<Rightarrow>
              if hp_Status hr \<noteq> 200 then State_Monad.return (Inl (GoErr ''jwks fetch status''), c)
              else case parse_jwks body of
                Inl e \<Rightarrow> State_Monad.return (Inl (GoWrap ''jwks parse'' e), c)
              | Inr entries \<Rightarrow> do {
                  now \<leftarrow> time_Now E;
                  State_Monad.return (Inr (), c\<lparr>jc_keys := entry_keys entries, jc_lastFetch := now\<rparr>) }) }"

definition cache_Get :: "env \<Rightarrow> jwksCache \<Rightarrow> string \<Rightarrow> (publicKey result \<times> jwksCache) eff" where
  "cache_Get E c kid = do {
     now \<leftarrow> time_Now E;
     let expired = time_Sub now (jc_lastFetch c) > jc_ttl c in
     case (map_of (jc_keys c) kid, expired) of
       (Some k, False) \<Rightarrow> State_Monad.return (Inr k, c)
     | _ \<Rightarrow> do {
         now2 \<leftarrow> time_Now E;
         (res, c') \<leftarrow> (if time_Sub now2 (jc_lastFetch c) > 5 * second then refresh E c else State_Monad.return (Inr (), c));
         State_Monad.return (case res of
           Inl e \<Rightarrow> (case map_of (jc_keys c') kid of Some k \<Rightarrow> (Inr k, c') | None \<Rightarrow> (Inl e, c'))
         | Inr _ \<Rightarrow> (case map_of (jc_keys c') kid of Some k \<Rightarrow> (Inr k, c') | None \<Rightarrow> (Inl (GoErr ''key not found in JWKS''), c'))) } }"

section \<open>Verification\<close>

definition parseJWTHeader :: "string \<Rightarrow> (string \<times> string) result" where
  "parseJWTHeader headerPart =
     (case b64_DecodeString RawURLEncoding headerPart of
        Inl e \<Rightarrow> Inl (GoWrap ''header decode'' e)
      | Inr headerJSON \<Rightarrow>
          (case unmarshal_map headerJSON of
             Inl e \<Rightarrow> Inl (GoWrap ''header parse'' e)
           | Inr header \<Rightarrow>
               let alg = jget_str header ''alg'' in
               if alg = [] then Inl (GoErr ''missing alg'')
               else if alg = ''none'' then Inl (GoErr ''alg=none not allowed'')
               else if alg = ''EdDSA'' \<or> alg = ''RS256'' then Inr (alg, jget_str header ''kid'')
               else Inl (GoErr ''unsupported alg'')))"

fun verifyJWTSignature :: "env \<Rightarrow> string \<Rightarrow> pubkey \<Rightarrow> bytes \<Rightarrow> bytes \<Rightarrow> unit result" where
  "verifyJWTSignature E alg pub signingInput sig =
     (if alg = ''EdDSA'' then
        (case pub of
           EdPublicKey k \<Rightarrow> if ed25519_Verify E k signingInput sig then Inr () else Inl (GoErr ''EdDSA signature invalid'')
         | RsaPublicKey n e \<Rightarrow> Inl (GoErr ''expected ed25519.PublicKey for EdDSA''))
      else if alg = ''RS256'' then
        (case pub of
           RsaPublicKey n e \<Rightarrow> if rsa_VerifyPKCS1v15 E (n, e) (sha256_Sum256 signingInput) sig then Inr () else Inl (GoErr ''RS256 signature invalid'')
         | EdPublicKey k \<Rightarrow> Inl (GoErr ''expected *rsa.PublicKey for RS256''))
      else Inl (GoErr ''unsupported alg''))"

definition parseJWTPayload :: "string \<Rightarrow> jmap result" where
  "parseJWTPayload payloadPart =
     (case b64_DecodeString RawURLEncoding payloadPart of
        Inl e \<Rightarrow> Inl (GoWrap ''payload decode'' e)
      | Inr payloadJSON \<Rightarrow>
          (case unmarshal_map payloadJSON of Inl e \<Rightarrow> Inl (GoWrap ''payload parse'' e) | Inr claims \<Rightarrow> Inr claims))"

text \<open>With the plugin's callback, which looks the kid up in the cache.\<close>

definition ParseAndVerifyJWT :: "env \<Rightarrow> jwksCache \<Rightarrow> string \<Rightarrow> (jmap result \<times> jwksCache) eff" where
  "ParseAndVerifyJWT E c token =
     (case Split token CHR ''.'' of
        [h, p, s] \<Rightarrow>
          (case parseJWTHeader h of
             Inl e \<Rightarrow> State_Monad.return (Inl e, c)
           | Inr (alg, kid) \<Rightarrow> do {
               (k, c') \<leftarrow> cache_Get E c kid;
               State_Monad.return (case k of
                 Inl e \<Rightarrow> (Inl (GoWrap ''key lookup'' e), c')
               | Inr pk \<Rightarrow>
                   (case b64_DecodeString RawURLEncoding s of
                      Inl e \<Rightarrow> (Inl (GoWrap ''signature decode'' e), c')
                    | Inr sig \<Rightarrow>
                        (case verifyJWTSignature E alg (pk_key pk) (h @ ''.'' @ p) sig of
                           Inl e \<Rightarrow> (Inl e, c')
                         | Inr _ \<Rightarrow> (parseJWTPayload p, c')))) })
      | _ \<Rightarrow> State_Monad.return (Inl (GoErr ''malformed jwt: expected 3 parts''), c))"

section \<open>The verifier keeps its contract\<close>

definition plugin_verify :: "env \<times> jwksCache \<Rightarrow> string \<Rightarrow> jmap result eff" where
  "plugin_verify K t = do { (v, c) \<leftarrow> ParseAndVerifyJWT (fst K) (snd K) t; State_Monad.return v }"

definition trusted_plugin :: "env \<times> jwksCache \<Rightarrow> world \<Rightarrow> string \<Rightarrow> string \<Rightarrow> bytes \<Rightarrow> bytes \<Rightarrow> bool" where
  "trusted_plugin K w kid alg m s \<longleftrightarrow> alg \<in> {''EdDSA'', ''RS256''} \<and>
     (\<exists>pk c' w'. run_state (cache_Get (fst K) (snd K) kid) w = ((Inr pk, c'), w') \<and>
       verifyJWTSignature (fst K) alg (pk_key pk) m s = Inr ())"

lemma parseJWTHeader_ok:
  "parseJWTHeader h = Inr (alg, kid) \<Longrightarrow> \<exists>hb m. b64_DecodeString RawURLEncoding h = Inr hb \<and> unmarshal_map hb = Inr m \<and>
     alg = jget_str m ''alg'' \<and> kid = jget_str m ''kid'' \<and> alg \<in> {''EdDSA'', ''RS256''}"
  by (auto simp: parseJWTHeader_def Let_def split: sum.splits if_splits)

lemma parseJWTPayload_ok: "parseJWTPayload p = Inr c \<Longrightarrow> \<exists>pb. b64_DecodeString RawURLEncoding p = Inr pb \<and> unmarshal_map pb = Inr c"
  by (auto simp: parseJWTPayload_def split: sum.splits)

lemma ParseAndVerifyJWT_ok:
  assumes "run_state (ParseAndVerifyJWT E c t) w = ((Inr claims, c'), w')"
  shows "\<exists>j pk. parse_jwt t = Some j \<and> unmarshal_map (jt_payload j) = Inr claims \<and> jget_str (jt_header j) ''alg'' \<in> {''EdDSA'', ''RS256''} \<and>
    run_state (cache_Get E c (jget_str (jt_header j) ''kid'')) w = ((Inr pk, c'), w') \<and>
    verifyJWTSignature E (jget_str (jt_header j) ''alg'') (pk_key pk) (jt_input j) (jt_sig j) = Inr ()"
proof -
  from assms obtain h p s where parts: "Split t CHR ''.'' = [h, p, s]"
    unfolding ParseAndVerifyJWT_def by (cases rule: three_parts [of "Split t CHR ''.''"]) (auto split: list.splits)
  with assms obtain alg kid where h: "parseJWTHeader h = Inr (alg, kid)"
    unfolding ParseAndVerifyJWT_def by (auto split: sum.splits)
  with assms parts obtain pk sig where
    k: "run_state (cache_Get E c kid) w = ((Inr pk, c'), w')" and s: "b64_DecodeString RawURLEncoding s = Inr sig"
      "verifyJWTSignature E alg (pk_key pk) (h @ ''.'' @ p) sig = Inr ()" and p: "parseJWTPayload p = Inr claims"
    unfolding ParseAndVerifyJWT_def
    by (auto elim!: run_bindE simp del: run_state_bind verifyJWTSignature.simps split: sum.splits prod.splits)
  from parseJWTHeader_ok [OF h] obtain hb m where m: "b64_DecodeString RawURLEncoding h = Inr hb" "unmarshal_map hb = Inr m"
    "alg = jget_str m ''alg''" "kid = jget_str m ''kid''" "alg \<in> {''EdDSA'', ''RS256''}" by blast
  from parseJWTPayload_ok [OF p] obtain pb where pb: "b64_DecodeString RawURLEncoding p = Inr pb" "unmarshal_map pb = Inr claims" by blast
  from parse_jwt_parts [OF parts m(1,2) pb(1) s(1)] pb(2) k s(2) m(3-5) show ?thesis by (simp del: verifyJWTSignature.simps)
qed

lemma keeps_refresh [hoare_rules]: "keeps (\<lambda>w. I (w_db w)) (refresh E c)"
  unfolding refresh_def by (intro hoare_rules)

lemma cache_Get_alt:
  "cache_Get E c kid = do {
     now \<leftarrow> time_Now E;
     if map_of (jc_keys c) kid \<noteq> None \<and> \<not> time_Sub now (jc_lastFetch c) > jc_ttl c
     then State_Monad.return (Inr (the (map_of (jc_keys c) kid)), c)
     else do {
       now2 \<leftarrow> time_Now E;
       (res, c') \<leftarrow> (if time_Sub now2 (jc_lastFetch c) > 5 * second then refresh E c else State_Monad.return (Inr (), c));
       State_Monad.return (case map_of (jc_keys c') kid of
         Some k \<Rightarrow> (Inr k, c')
       | None \<Rightarrow> (Inl (case res of Inl e \<Rightarrow> e | Inr _ \<Rightarrow> GoErr ''key not found in JWKS''), c')) } }"
proof -
  have "(case res of
           Inl e \<Rightarrow> (case m of Some k \<Rightarrow> (Inr k, c') | None \<Rightarrow> (Inl e, c'))
         | Inr _ \<Rightarrow> (case m of Some k \<Rightarrow> (Inr k, c') | None \<Rightarrow> (Inl (GoErr ''key not found in JWKS''), c'))) =
        (case m of Some k \<Rightarrow> (Inr k, c') | None \<Rightarrow> (Inl (case res of Inl e \<Rightarrow> e | Inr _ \<Rightarrow> GoErr ''key not found in JWKS''), c'))"
    for res :: "unit result" and m :: "publicKey option" and c' :: jwksCache
    by (simp split: sum.split option.split)
  then show ?thesis
    unfolding cache_Get_def Let_def
    by (intro arg_cong2 [where f = State_Monad.bind] refl ext) (auto split: option.split bool.split)
qed

lemma keeps_cache_Get [hoare_rules]: "keeps (\<lambda>w. I (w_db w)) (cache_Get E c kid)"
  unfolding cache_Get_alt by (intro hoare_rules)

interpretation plugin_jwt: jwt_verifier plugin_verify trusted_plugin "{''EdDSA'', ''RS256''}"
proof
  fix K t w c w'
  assume "run_state (plugin_verify K t) w = (Inr c, w')"
  then obtain c1 where "run_state (ParseAndVerifyJWT (fst K) (snd K) t) w = ((Inr c, c1), w')"
    by (auto simp: plugin_verify_def split: prod.splits)
  from ParseAndVerifyJWT_ok [OF this]
  show "\<exists>j. parse_jwt t = Some j \<and> unmarshal_map (jt_payload j) = Inr c \<and>
      trusted_plugin K w (jget_str (jt_header j) ''kid'') (jget_str (jt_header j) ''alg'') (jt_input j) (jt_sig j)"
    unfolding trusted_plugin_def by blast
next
  fix K t w x w'
  have "keeps (\<lambda>w. I (w_db w)) (plugin_verify K t)" for I
    unfolding plugin_verify_def ParseAndVerifyJWT_def by (auto split: list.split intro!: hoare_rules)
  then show "run_state (plugin_verify K t) w = (x, w') \<Longrightarrow> w_db w' = w_db w" by (rule keeps_db_eq)
qed (auto simp: trusted_plugin_def)

section \<open>The key set arrives\<close>
















section \<open>Fetching the key set\<close>

text \<open>
  Bad kids cannot make the plugin hammer a healthy sidecar: within five seconds of the last
  successful fetch no lookup, whatever the kid, makes an HTTP request; the outcome is the same
  whatever the sidecar would answer.
\<close>

theorem no_fetch_within_five_seconds:
  assumes "time_Sub (clock E (Suc (w_tick w))) (jc_lastFetch c) \<le> 5 * second"
  shows "run_state (cache_Get (E\<lparr>http_do := f\<rparr>) c kid) w = run_state (cache_Get E c kid) w"
  using assms by (simp add: cache_Get_alt time_Now_def)

definition sample_cache :: jwksCache where
  "sample_cache = \<lparr>jc_sidecarBaseURL = ''http://s'', jc_resource = ''wiki'', jc_ttl = 300 * second, jc_lastFetch = time_Unix 1700000000,
     jc_keys = [(''key1'', \<lparr>pk_kid = ''key1'', pk_alg = ''EdDSA'', pk_key = EdPublicKey sample_key\<rparr>)]\<rparr>"

theorem no_fetch_within_five_seconds_witness:
  "run_state (cache_Get (sample_env\<lparr>http_do := \<lambda>n q. Inr \<lparr>hp_Status = 200, hp_Body = Inr ''{}''\<rparr>\<rparr>) sample_cache ''other'') sample_world =
   run_state (cache_Get sample_env sample_cache ''other'') sample_world"
  by (rule no_fetch_within_five_seconds)
    (simp add: sample_cache_def sample_world_def time_Sub_def time_Unix_def second_def max_int64_def)

lemma refresh_failed:
  assumes "case http_do E (w_tick w) (jwks_request c) of Inl e \<Rightarrow> True | Inr hr \<Rightarrow> hp_Status hr \<noteq> 200 \<or>
      (case hp_Body hr of Inl e \<Rightarrow> True | Inr b \<Rightarrow> (\<exists>e. json_unmarshal b = Inl e \<or> parse_jwks b = Inl e))"
  shows "\<exists>e. run_state (refresh E c) w = ((Inl e, c), bump w)"
proof -
  have "json_unmarshal b = Inl e \<Longrightarrow> parse_jwks b = Inl e" for b e by (simp add: parse_jwks_def)
  with assms show ?thesis by (auto simp: refresh_def split: sum.splits)
qed

text \<open>
  Property C34. A failed fetch changes nothing. Suppose the sidecar cannot be reached, its answer cannot be read, its status is not
  200, or its body is not JSON or not a key set. Then the cache is as before: a key it knows is still served, however old the cache, and an
  unknown kid is an error. The time of the failed attempt is not kept either, so the five-second
  limit does not apply after it: the guard is still open for the next lookup.
\<close>

theorem failed_fetch_keeps_cache:
  assumes "case http_do E (w_tick w + 2) (jwks_request c) of Inl e \<Rightarrow> True | Inr hr \<Rightarrow> hp_Status hr \<noteq> 200 \<or>
      (case hp_Body hr of Inl e \<Rightarrow> True | Inr b \<Rightarrow> (\<exists>e. json_unmarshal b = Inl e \<or> parse_jwks b = Inl e))"
    and "clock_mono E" "time_Sub (clock E (Suc (w_tick w))) (jc_lastFetch c) > 5 * second"
    and "run_state (cache_Get E c kid) w = ((res, c'), w')"
  shows "c' = c \<and> (case map_of (jc_keys c) kid of Some k \<Rightarrow> res = Inr k | None \<Rightarrow> (\<exists>e. res = Inl e)) \<and>
    time_Sub (clock E (Suc (w_tick w'))) (jc_lastFetch c') > 5 * second"
proof -
  from refresh_failed [of E "bump (bump w)" c] assms(1) obtain e where "run_state (refresh E c) (bump (bump w)) = ((Inl e, c), bump (bump (bump w)))"
    by auto
  with assms(3,4) have r: "c' = c" "w_tick w \<le> w_tick w'" "case map_of (jc_keys c) kid of Some k \<Rightarrow> res = Inr k | None \<Rightarrow> (\<exists>e. res = Inl e)"
    by (auto simp: cache_Get_alt split: if_splits option.splits)
  have "clock E (Suc (w_tick w)) \<le> clock E (Suc (w_tick w'))" using r(2) by (intro clock_monoD [OF assms(2)]) simp
  with assms(3) r show ?thesis by (auto simp: time_Sub_def)
qed

text \<open>An old cache in front of a sidecar that answers 500 with a JSON body.\<close>

theorem failed_fetch_keeps_cache_witness:
  "\<exists>k w'. run_state (cache_Get (sample_env\<lparr>http_do := \<lambda>n q. Inr \<lparr>hp_Status = 500, hp_Body = Inr ''{}''\<rparr>\<rparr>) (sample_cache\<lparr>jc_lastFetch := zero_time\<rparr>) ''key1'') sample_world =
     ((Inr k, sample_cache\<lparr>jc_lastFetch := zero_time\<rparr>), w') \<and> pk_key k = EdPublicKey sample_key"
proof -
  let ?c = "sample_cache\<lparr>jc_lastFetch := zero_time\<rparr>"
  let ?E = "sample_env\<lparr>http_do := \<lambda>n q. Inr \<lparr>hp_Status = 500, hp_Body = Inr ''{}''\<rparr>\<rparr>"
  obtain res c' w' where r: "run_state (cache_Get ?E ?c ''key1'') sample_world = ((res, c'), w')" by (metis prod.exhaust)
  have "clock_mono ?E" using sample_clock_mono by (simp add: clock_mono_def)
  moreover have "time_Sub (clock ?E (Suc (w_tick sample_world))) (jc_lastFetch ?c) > 5 * second"
    by (simp add: sample_world_def zero_time_def time_Sub_def time_Unix_def second_def max_int64_def)
  ultimately show ?thesis
    using failed_fetch_keeps_cache [OF _ _ _ r] r by (auto simp: sample_cache_def)
qed

end
