(* ===== verification/Plugin.thy ===== *)
theory Plugin
  imports Plugin_Jwt Config
begin

text \<open>
  The Traefik middleware: \<^verbatim>\<open>plugin/routing.go\<close> and \<^verbatim>\<open>plugin/mcpbouncer.go\<close>, with the part of
  \<^verbatim>\<open>httputil.ReverseProxy\<close> that touches the headers of a proxied request. A request ends in one of three
  actions: the plugin replies, it proxies to the sidecar, or it forwards to the protected backend.
  Not modelled of the reverse proxy is what it does to \<^verbatim>\<open>Te\<close>, \<^verbatim>\<open>Upgrade\<close> and \<^verbatim>\<open>User-Agent\<close>, which the sidecar
  does not read.
\<close>

section \<open>Routing\<close>

definition oauthSuffixes :: "string list" where
  "oauthSuffixes = [''/.well-known/oauth-protected-resource'', ''/.well-known/oauth-authorization-server'',
     ''/.well-known/openid-configuration'', ''/oauth/authorize'', ''/oauth/token'', ''/oauth/register'', ''/oauth/callback'',
     ''/oauth/jwks.json'']"

fun match_suffix :: "string \<Rightarrow> string list \<Rightarrow> (string \<times> string) option" where
  "match_suffix path [] = None"
| "match_suffix path (s # ss) =
     (if HasSuffix path s then Some (s, take (length path - length s) path) else match_suffix path ss)"

definition MatchOAuthSuffix :: "string \<Rightarrow> (string \<times> string) option" where
  "MatchOAuthSuffix path = match_suffix path oauthSuffixes"

section \<open>The middleware\<close>

record PluginConfig =
  cf_ProviderIssuer :: string
  cf_ClientID :: string
  cf_ClientSecret :: string
  cf_Resource :: string
  cf_Scopes :: string
  cf_SidecarURL :: string
  cf_Audience :: string
  cf_JWKSCacheTTLSeconds :: int
  cf_RequiredScopes :: string
  cf_PathPrefix :: string

definition CreateConfig :: PluginConfig where
  "CreateConfig = \<lparr>cf_ProviderIssuer = [], cf_ClientID = [], cf_ClientSecret = [], cf_Resource = [], cf_Scopes = [], cf_SidecarURL = [],
     cf_Audience = [], cf_JWKSCacheTTLSeconds = 300, cf_RequiredScopes = [], cf_PathPrefix = ''*''\<rparr>"

record MCPBouncer =
  mb_cfg :: PluginConfig
  mb_cache :: jwksCache
  mb_sidecarU :: url

definition New :: "env \<Rightarrow> PluginConfig \<Rightarrow> MCPBouncer result" where
  "New E config =
     (if cf_ProviderIssuer config = [] then Inl (GoErr ''mcpbouncer: providerIssuer is required'')
      else if cf_ClientID config = [] then Inl (GoErr ''mcpbouncer: clientID is required'')
      else if cf_ClientSecret config = [] then Inl (GoErr ''mcpbouncer: clientSecret is required'')
      else if cf_Resource config = [] then Inl (GoErr ''mcpbouncer: resource is required'')
      else if cf_SidecarURL config = [] then Inl (GoErr ''mcpbouncer: sidecarURL is required'')
      else
        let cfg = (if cf_Audience config = [] then config\<lparr>cf_Audience := cf_Resource config\<rparr> else config) in
        case url_Parse E (cf_SidecarURL cfg) of
          Inl e \<Rightarrow> Inl (GoWrap ''mcpbouncer: invalid sidecarURL'' e)
        | Inr su \<Rightarrow> Inr \<lparr>mb_cfg = cfg, mb_cache = newJWKSCache (cf_SidecarURL cfg) (cf_Resource cfg) (cf_JWKSCacheTTLSeconds cfg),
            mb_sidecarU = su\<rparr>)"

definition mcpb_key :: "string \<Rightarrow> bool" where
  "mcpb_key key \<longleftrightarrow> HasPrefix (ToUpper key) ''X-MCPB-''"

definition strip_headers :: "header \<Rightarrow> header" where
  "strip_headers h = fold (\<lambda>key h. if mcpb_key key then hdr_Del h key else h) (map fst h) h"

definition setCORS :: "request \<Rightarrow> header" where
  "setCORS r =
     (let origin = ReqGet r ''Origin'' in
      if origin = [] then []
      else
        let h = hdr_Set [] ''Access-Control-Allow-Origin'' origin;
            h = hdr_Add h ''Vary'' ''Origin'';
            h = hdr_Set h ''Access-Control-Allow-Methods'' ''GET, POST, OPTIONS, DELETE'';
            h = hdr_Set h ''Access-Control-Allow-Headers'' ''Authorization, Content-Type, Accept, Mcp-Session-Id, Last-Event-Id, X-Requested-With'';
            h = hdr_Set h ''Access-Control-Expose-Headers'' ''WWW-Authenticate, Mcp-Session-Id'' in
        hdr_Set h ''Access-Control-Max-Age'' ''600'')"

definition publicBase :: "MCPBouncer \<Rightarrow> request \<Rightarrow> string" where
  "publicBase m r =
     (let scheme = (if ReqGet r ''X-Forwarded-Proto'' = [] then ''https'' else ReqGet r ''X-Forwarded-Proto'');
          host = (if ReqGet r ''X-Forwarded-Host'' = [] then rq_Host r else ReqGet r ''X-Forwarded-Host'') in
      if cf_PathPrefix (mb_cfg m) \<noteq> ''*'' then scheme @ ''://'' @ host @ TrimRight (cf_PathPrefix (mb_cfg m)) ''/''
      else
        let prefix = (case MatchOAuthSuffix (rq_Path r) of None \<Rightarrow> rq_Path r | Some (_, p) \<Rightarrow> p) in
        scheme @ ''://'' @ host @ TrimRight prefix ''/'')"

definition extractBearer :: "request \<Rightarrow> string option" where
  "extractBearer r =
     (let authHeader = ReqGet r ''Authorization'' in
      if \<not> HasPrefix authHeader ''Bearer '' then None
      else let token = TrimPrefix authHeader ''Bearer '' in if token = [] then None else Some token)"

text \<open>\<^verbatim>\<open>claimInt64\<close> and the checks of \<^verbatim>\<open>checkClaims\<close>; \<open>None\<close> is the empty reason. The sums are int64.\<close>

definition claimInt64 :: "env \<Rightarrow> json option \<Rightarrow> int option" where
  "claimInt64 E v = (case v of Some (JFloat m e) \<Rightarrow> Some (f64_to_int64 E m e) | _ \<Rightarrow> None)"

definition checkRequiredScopes :: "MCPBouncer \<Rightarrow> jmap \<Rightarrow> string option" where
  "checkRequiredScopes m claims =
     (if cf_RequiredScopes (mb_cfg m) = [] then None
      else let granted = Fields (jget_str claims ''scope'') in
        if list_all (\<lambda>req. req \<in> set granted) (Fields (cf_RequiredScopes (mb_cfg m))) then None else Some ''missing_scope'')"

definition checkClaims :: "env \<Rightarrow> MCPBouncer \<Rightarrow> jmap \<Rightarrow> string \<Rightarrow> int \<Rightarrow> string option" where
  "checkClaims E m claims base now =
     (if jget_str claims ''iss'' \<noteq> base then Some ''iss_mismatch''
      else if \<not> audContains (jget claims ''aud'') base \<and> \<not> audContains (jget claims ''aud'') (base @ ''/'') then Some ''aud_mismatch''
      else case claimInt64 E (jget claims ''exp'') of
        None \<Rightarrow> Some ''exp_missing''
      | Some exp \<Rightarrow>
          if wrap64 (exp + 60) < now then Some ''exp_expired''
          else if (case claimInt64 E (jget claims ''nbf'') of Some nbf \<Rightarrow> wrap64 (nbf - 60) > now | None \<Rightarrow> False) then Some ''nbf_future''
          else checkRequiredScopes m claims)"

section \<open>Proxying\<close>

definition hopHeaders :: "string list" where
  "hopHeaders = [''Connection'', ''Proxy-Connection'', ''Keep-Alive'', ''Proxy-Authenticate'', ''Proxy-Authorization'', ''Te'', ''Trailer'',
     ''Transfer-Encoding'', ''Upgrade'']"

definition removeHopByHopHeaders :: "header \<Rightarrow> header" where
  "removeHopByHopHeaders h =
     (let named = filter (\<lambda>sf. sf \<noteq> []) (map TrimSpace (concat (map (\<lambda>f. Split f CHR '','') (hdr_values h ''Connection'')))) in
      fold (\<lambda>k h. hdr_Del h k) (named @ hopHeaders) h)"

text \<open>The director's seven headers, in its order.\<close>

definition director_headers :: "MCPBouncer \<Rightarrow> string \<Rightarrow> (string \<times> string) list" where
  "director_headers m base = [(''X-MCPB-Resource'', cf_Resource (mb_cfg m)), (''X-MCPB-Public-Base'', base),
     (''X-MCPB-Provider-Issuer'', cf_ProviderIssuer (mb_cfg m)), (''X-MCPB-Client-ID'', cf_ClientID (mb_cfg m)),
     (''X-MCPB-Client-Secret'', cf_ClientSecret (mb_cfg m)), (''X-MCPB-Scopes'', cf_Scopes (mb_cfg m)),
     (''X-MCPB-Audience'', cf_Audience (mb_cfg m))]"

definition set_headers :: "(string \<times> string) list \<Rightarrow> header \<Rightarrow> header" where
  "set_headers kvs h = fold (\<lambda>(k, v) h. hdr_Set h k v) kvs h"

definition proxyToSidecar :: "MCPBouncer \<Rightarrow> request \<Rightarrow> request" where
  "proxyToSidecar m r =
     (let suffix = (case MatchOAuthSuffix (rq_Path r) of None \<Rightarrow> [] | Some (s, _) \<Rightarrow> s);
          h = set_headers (director_headers m (publicBase m r)) (rq_Header r);
          h = removeHopByHopHeaders h;
          prior = hdr_values h ''X-Forwarded-For'';
          h = (case SplitHost (rq_RemoteAddr r) of
                 None \<Rightarrow> h
               | Some ip \<Rightarrow> hdr_Set h ''X-Forwarded-For'' (concat (map (\<lambda>p. p @ '', '') prior) @ ip)) in
      r\<lparr>rq_Path := suffix, rq_Header := h\<rparr>)"

section \<open>Serving\<close>

datatype action = Reply response | Proxy header request | Forward header request

definition unauthorized :: "MCPBouncer \<Rightarrow> request \<Rightarrow> header \<Rightarrow> response" where
  "unauthorized m r h =
     \<lparr>rs_Status = 401,
      rs_Header = hdr_Set (hdr_Set h ''WWW-Authenticate''
        (''Bearer resource_metadata='' @ [CHR 0x22] @ publicBase m r @ ''/.well-known/oauth-protected-resource'' @ [CHR 0x22]))
        ''Content-Type'' ''application/json'',
      rs_Body = JsonBody (JObj [(''error'', JStr ''unauthorized'')])\<rparr>"

definition validateAndForward :: "env \<Rightarrow> MCPBouncer \<Rightarrow> request \<Rightarrow> header \<Rightarrow> (action \<times> MCPBouncer) eff" where
  "validateAndForward E m r h =
     (case extractBearer r of
        None \<Rightarrow> State_Monad.return (Reply (unauthorized m r h), m)
      | Some token \<Rightarrow> do {
          (v, c) \<leftarrow> ParseAndVerifyJWT E (mb_cache m) token;
          let m' = m\<lparr>mb_cache := c\<rparr>;
          case v of
            Inl e \<Rightarrow> State_Monad.return (Reply (unauthorized m r h), m')
          | Inr claims \<Rightarrow> do {
              now \<leftarrow> time_Now E;
              State_Monad.return
                (case checkClaims E m claims (publicBase m r) (unix_sec now) of
                   Some reason \<Rightarrow> (Reply (unauthorized m r h), m')
                 | None \<Rightarrow>
                     (Forward h (r\<lparr>rq_Header := hdr_Set (hdr_Set (rq_Header r) ''X-Mcp-Sub'' (jget_str claims ''sub''))
                        ''X-Mcp-Scopes'' (jget_str claims ''scope'')\<rparr>), m')) } })"

definition ServeHTTP :: "env \<Rightarrow> MCPBouncer \<Rightarrow> request \<Rightarrow> (action \<times> MCPBouncer) eff" where
  "ServeHTTP E m r0 =
     (let r = r0\<lparr>rq_Header := strip_headers (rq_Header r0)\<rparr>; h = setCORS r in
      if rq_Method r = ''OPTIONS'' then State_Monad.return (Reply \<lparr>rs_Status = 204, rs_Header = h, rs_Body = NoBody\<rparr>, m)
      else if MatchOAuthSuffix (rq_Path r) \<noteq> None then State_Monad.return (Proxy h (proxyToSidecar m r), m)
      else validateAndForward E m r h)"

section \<open>The backend's status\<close>

text \<open>The recorder keeps the first status written; a body without one means 200.\<close>

datatype write_call = CallWriteHeader int | CallWrite bytes

record backendStatusRecorder =
  bs_status :: int
  bs_wroteHeader :: bool

fun record_write :: "write_call \<Rightarrow> backendStatusRecorder \<Rightarrow> backendStatusRecorder" where
  "record_write (CallWriteHeader code) s = (if \<not> bs_wroteHeader s then s\<lparr>bs_status := code, bs_wroteHeader := True\<rparr> else s)"
| "record_write (CallWrite b) s = (if \<not> bs_wroteHeader s then s\<lparr>bs_status := 200, bs_wroteHeader := True\<rparr> else s)"

lemma record_write_first: "bs_wroteHeader s \<Longrightarrow> fold record_write cs s = s"
proof (induction cs)
  case (Cons a cs)
  then have "record_write a s = s" by (cases a) auto
  with Cons show ?case by simp
qed simp

section \<open>Headers\<close>

text \<open>The keys of a header map as the server library fills it.\<close>

definition canonical_header :: "header \<Rightarrow> bool" where
  "canonical_header h \<longleftrightarrow> (\<forall>k \<in> fst ` set h. CanonicalHeaderKey k = k)"

lemma mcpb_key_canon [simp]: "mcpb_key (CanonicalHeaderKey k) = mcpb_key k"
  by (simp add: mcpb_key_def)

lemma map_of_strip_gen:
  "map_of (fold (\<lambda>key h. if mcpb_key key then hdr_Del h key else h) ks h) k =
     (if \<exists>k' \<in> set ks. mcpb_key k' \<and> CanonicalHeaderKey k' = k then None else map_of h k)"
  by (induction ks arbitrary: h) (auto simp: hdr_Del_def)

lemma hdr_values_strip: "hdr_values (strip_headers h) k = (if mcpb_key k \<and> CanonicalHeaderKey k \<in> CanonicalHeaderKey ` fst ` set h then [] else hdr_values h k)"
proof -
  have "(\<exists>k' \<in> K. mcpb_key k' \<and> CanonicalHeaderKey k' = CanonicalHeaderKey k) \<longleftrightarrow> mcpb_key k \<and> CanonicalHeaderKey k \<in> CanonicalHeaderKey ` K" for K
    by (metis (no_types, lifting) imageE imageI mcpb_key_canon)
  from this [of "set (map fst h)"] show ?thesis
    unfolding hdr_values_def strip_headers_def map_of_strip_gen by (simp only: set_map) simp
qed

lemma strip_removes:
  assumes "canonical_header h" "mcpb_key k"
  shows "hdr_values (strip_headers h) k = []"
proof (cases "map_of h (CanonicalHeaderKey k)")
  case None
  then have "hdr_values h k = []" by (simp add: hdr_values_def)
  then show ?thesis by (simp add: hdr_values_strip)
next
  case (Some vs)
  then have "CanonicalHeaderKey k \<in> fst ` set h" by (metis domI dom_map_of_conv_image_fst)
  with assms have "CanonicalHeaderKey k \<in> CanonicalHeaderKey ` fst ` set h" by (metis CanonicalHeaderKey_idem image_eqI)
  with assms(2) show ?thesis by (simp add: hdr_values_strip)
qed

lemma strip_keeps: "\<not> mcpb_key k \<Longrightarrow> hdr_Get (strip_headers h) k = hdr_Get h k"
  by (simp add: hdr_Get_def hdr_values_strip)

lemma hdr_values_dels:
  "hdr_values (fold (\<lambda>k h. hdr_Del h k) ks h) k = (if CanonicalHeaderKey k \<in> CanonicalHeaderKey ` set ks then [] else hdr_values h k)"
  by (induction ks arbitrary: h) (auto simp: hdr_values_def hdr_Del_def)

lemma hdr_Get_hop: "hdr_Get (removeHopByHopHeaders h) k \<in> {hdr_Get h k, []}"
  by (simp add: removeHopByHopHeaders_def Let_def hdr_Get_def hdr_values_dels)

lemma hdr_Get_sets:
  "distinct (map (CanonicalHeaderKey \<circ> fst) kvs) \<Longrightarrow> (k, v) \<in> set kvs \<Longrightarrow> hdr_Get (set_headers kvs h) k = v"
proof (induction kvs arbitrary: h)
  case (Cons kv kvs)
  have keep: "hdr_Get (set_headers kvs h') k = hdr_Get h' k" if "CanonicalHeaderKey k \<notin> set (map (CanonicalHeaderKey \<circ> fst) kvs)" for h' k
    using that by (induction kvs arbitrary: h') (auto simp: set_headers_def)
  show ?case
  proof (cases "(k, v) \<in> set kvs")
    case True
    with Cons show ?thesis by (simp add: set_headers_def)
  next
    case False
    with Cons.prems have "kv = (k, v)" by auto
    with Cons.prems(1) keep [of k "hdr_Set h k v"] show ?thesis by (simp add: set_headers_def)
  qed
qed simp

lemma director_distinct: "distinct (map (CanonicalHeaderKey \<circ> fst) (director_headers m base))"
proof -
  have "distinct (map CanonicalHeaderKey [''X-MCPB-Resource'', ''X-MCPB-Public-Base'', ''X-MCPB-Provider-Issuer'', ''X-MCPB-Client-ID'',
    ''X-MCPB-Client-Secret'', ''X-MCPB-Scopes'', ''X-MCPB-Audience''])" by code_simp
  then show ?thesis by (simp add: director_headers_def)
qed

lemma director_mcpb: "(k, v) \<in> set (director_headers m base) \<Longrightarrow> mcpb_key k"
proof -
  have "list_all mcpb_key [''X-MCPB-Resource'', ''X-MCPB-Public-Base'', ''X-MCPB-Provider-Issuer'', ''X-MCPB-Client-ID'',
    ''X-MCPB-Client-Secret'', ''X-MCPB-Scopes'', ''X-MCPB-Audience'']" by code_simp
  then show "(k, v) \<in> set (director_headers m base) \<Longrightarrow> mcpb_key k" by (auto simp: director_headers_def)
qed

lemma not_mcpb: "\<not> mcpb_key ''X-Forwarded-For''" "\<not> mcpb_key ''Authorization''" "\<not> mcpb_key ''X-Mcp-Sub''" "\<not> mcpb_key ''X-Mcp-Scopes''"
  "\<not> mcpb_key ''X-Forwarded-Proto''" "\<not> mcpb_key ''X-Forwarded-Host''" "\<not> mcpb_key ''Origin''"
  by code_simp+

lemma mcpb_key_other: "mcpb_key k \<Longrightarrow> \<not> mcpb_key k' \<Longrightarrow> CanonicalHeaderKey k \<noteq> CanonicalHeaderKey k'"
  by (metis mcpb_key_canon)

lemma proxied_header:
  assumes "(k, v) \<in> set (director_headers m (publicBase m r))"
  shows "hdr_Get (rq_Header (proxyToSidecar m r)) k \<in> {v, []}"
proof -
  have "CanonicalHeaderKey k \<noteq> CanonicalHeaderKey ''X-Forwarded-For''"
    using director_mcpb [OF assms] not_mcpb(1) by (rule mcpb_key_other)
  then have "hdr_Get (rq_Header (proxyToSidecar m r)) k =
      hdr_Get (removeHopByHopHeaders (set_headers (director_headers m (publicBase m r)) (rq_Header r))) k"
    by (simp add: proxyToSidecar_def Let_def split: option.split)
  with hdr_Get_hop [of "set_headers (director_headers m (publicBase m r)) (rq_Header r)" k] hdr_Get_sets [OF director_distinct assms]
  show ?thesis by simp
qed

section \<open>Properties\<close>

text \<open>
  Property C10. No client chooses the resource. Whatever headers a client sends, \<^verbatim>\<open>Connection\<close> included, if the
  sidecar accepts the configuration of a proxied request, it is the operator's: resource, provider,
  client credentials, scopes and audience of the middleware's configuration, and the public base
  the plugin computed. A client can at most have a header dropped, and then the sidecar refuses.
\<close>

theorem proxied_config_is_operators:
  assumes "run_state (ServeHTTP E m r0) w = ((Proxy h r, m'), w')" "FromRequest r = Inr rc"
  shows "rc = \<lparr>rc_Name = cf_Resource (mb_cfg m), rc_PublicBase = publicBase m (r0\<lparr>rq_Header := strip_headers (rq_Header r0)\<rparr>),
    rc_ProviderIssuer = cf_ProviderIssuer (mb_cfg m), rc_ClientID = cf_ClientID (mb_cfg m), rc_ClientSecret = cf_ClientSecret (mb_cfg m),
    rc_Scopes = cf_Scopes (mb_cfg m), rc_Audience = cf_Audience (mb_cfg m)\<rparr> \<and> rq_Path r \<in> set oauthSuffixes"
proof -
  let ?r = "r0\<lparr>rq_Header := strip_headers (rq_Header r0)\<rparr>"
  from assms(1) have r: "r = proxyToSidecar m ?r" and p: "MatchOAuthSuffix (rq_Path r0) \<noteq> None"
    by (auto simp: ServeHTTP_def validateAndForward_def Let_def split: if_splits option.splits sum.splits prod.splits)
  have suffix: "match_suffix path ss = Some (s, x) \<Longrightarrow> s \<in> set ss" for path ss s x
    by (induction ss) (auto split: if_splits)
  from p obtain s x where sx: "MatchOAuthSuffix (rq_Path r0) = Some (s, x)" by auto
  then have "s \<in> set oauthSuffixes" unfolding MatchOAuthSuffix_def by (rule suffix)
  then have path: "rq_Path r \<in> set oauthSuffixes" using sx by (simp add: r proxyToSidecar_def Let_def)
  have h: "ReqGet r k \<in> {v, []}" if "(k, v) \<in> set (director_headers m (publicBase m ?r))" for k v
    using proxied_header [OF that] by (simp add: ReqGet_def r)
  from assms(2) have ne: "ReqGet r ''X-MCPB-Resource'' \<noteq> []" "ReqGet r ''X-MCPB-Public-Base'' \<noteq> []" "ReqGet r ''X-MCPB-Provider-Issuer'' \<noteq> []"
    "ReqGet r ''X-MCPB-Client-ID'' \<noteq> []" "ReqGet r ''X-MCPB-Client-Secret'' \<noteq> []" "ReqGet r ''X-MCPB-Scopes'' \<noteq> []" "ReqGet r ''X-MCPB-Audience'' \<noteq> []"
    and rc: "rc = \<lparr>rc_Name = ReqGet r ''X-MCPB-Resource'', rc_PublicBase = ReqGet r ''X-MCPB-Public-Base'',
            rc_ProviderIssuer = ReqGet r ''X-MCPB-Provider-Issuer'', rc_ClientID = ReqGet r ''X-MCPB-Client-ID'',
            rc_ClientSecret = ReqGet r ''X-MCPB-Client-Secret'', rc_Scopes = ReqGet r ''X-MCPB-Scopes'',
            rc_Audience = ReqGet r ''X-MCPB-Audience''\<rparr>"
    by (auto simp: FromRequest_def Let_def split: if_splits)
  have "ReqGet r ''X-MCPB-Resource'' = cf_Resource (mb_cfg m)" "ReqGet r ''X-MCPB-Public-Base'' = publicBase m ?r"
    "ReqGet r ''X-MCPB-Provider-Issuer'' = cf_ProviderIssuer (mb_cfg m)" "ReqGet r ''X-MCPB-Client-ID'' = cf_ClientID (mb_cfg m)"
    "ReqGet r ''X-MCPB-Client-Secret'' = cf_ClientSecret (mb_cfg m)" "ReqGet r ''X-MCPB-Scopes'' = cf_Scopes (mb_cfg m)"
    "ReqGet r ''X-MCPB-Audience'' = cf_Audience (mb_cfg m)"
    using h [of "''X-MCPB-Resource''"] h [of "''X-MCPB-Public-Base''"] h [of "''X-MCPB-Provider-Issuer''"] h [of "''X-MCPB-Client-ID''"]
      h [of "''X-MCPB-Client-Secret''"] h [of "''X-MCPB-Scopes''"] h [of "''X-MCPB-Audience''"] ne
    by (auto simp: director_headers_def)
  with rc path show ?thesis by simp
qed

definition sample_plugin :: MCPBouncer where
  "sample_plugin = \<lparr>mb_cfg = \<lparr>cf_ProviderIssuer = ''https://idp'', cf_ClientID = ''id'', cf_ClientSecret = ''s'', cf_Resource = ''wiki'', cf_Scopes = ''openid'',
     cf_SidecarURL = ''http://s'', cf_Audience = ''wiki'', cf_JWKSCacheTTLSeconds = 300, cf_RequiredScopes = ''openid'', cf_PathPrefix = ''/wiki''\<rparr>,
     mb_cache = sample_cache, mb_sidecarU = \<lparr>u_Scheme = ''http'', u_Host = ''s'', u_Hostname = ''s'', u_Path = [], u_Query = []\<rparr>\<rparr>"

definition sample_spoof_req :: request where
  "sample_spoof_req = (form_request [])\<lparr>rq_Header := [(''X-Mcpb-Resource'', [''bank'']), (''X-Mcpb-Public-Base'', [''https://evil''])]\<rparr>"

lemma sample_suffix: "MatchOAuthSuffix ''/oauth/token'' = Some (''/oauth/token'', [])"
  by code_simp

theorem proxied_config_is_operators_witness:
  "\<exists>h r rc m' w'. run_state (ServeHTTP sample_env sample_plugin sample_spoof_req) sample_world = ((Proxy h r, m'), w') \<and> FromRequest r = Inr rc \<and>
     rc_Name rc = ''wiki''"
proof -
  let ?r = "sample_spoof_req\<lparr>rq_Header := strip_headers (rq_Header sample_spoof_req)\<rparr>"
  have r: "run_state (ServeHTTP sample_env sample_plugin sample_spoof_req) sample_world =
      ((Proxy (setCORS ?r) (proxyToSidecar sample_plugin ?r), sample_plugin), sample_world)"
    by (simp add: ServeHTTP_def Let_def sample_spoof_req_def form_request_def sample_suffix)
  have "\<not> isl (FromRequest (proxyToSidecar sample_plugin ?r))" by code_simp
  then obtain rc where rc: "FromRequest (proxyToSidecar sample_plugin ?r) = Inr rc" by (auto simp: isl_def) (metis sum.exhaust)
  from proxied_config_is_operators [OF r rc] have "rc_Name rc = ''wiki''" by (simp add: sample_plugin_def)
  with r rc show ?thesis by blast
qed

lemma extractBearer_Some: "extractBearer r = Some t \<Longrightarrow> ReqGet r ''Authorization'' = ''Bearer '' @ t \<and> t \<noteq> []"
  unfolding extractBearer_def Let_def by (auto simp only: HasPrefix_iff TrimPrefix_append split: if_splits)

lemma audContains_iff: "audContains v a \<longleftrightarrow> v = Some (JStr a) \<or> (\<exists>xs. v = Some (JArr xs) \<and> JStr a \<in> set xs)"
  by (cases v; cases "the v") auto

lemma checkClaims_None:
  "checkClaims E m claims base now = None \<Longrightarrow> jget_str claims ''iss'' = base \<and>
     (\<exists>a \<in> {base, base @ ''/''}. jget claims ''aud'' = Some (JStr a) \<or> (\<exists>xs. jget claims ''aud'' = Some (JArr xs) \<and> JStr a \<in> set xs)) \<and>
     (\<exists>exp. claimInt64 E (jget claims ''exp'') = Some exp \<and> now \<le> wrap64 (exp + 60)) \<and>
     (\<forall>nbf. claimInt64 E (jget claims ''nbf'') = Some nbf \<longrightarrow> wrap64 (nbf - 60) \<le> now) \<and>
     set (Fields (cf_RequiredScopes (mb_cfg m))) \<subseteq> set (Fields (jget_str claims ''scope''))"
  by (auto simp: checkClaims_def checkRequiredScopes_def audContains_iff Let_def list_all_iff Fields_def split: if_splits option.splits)

text \<open>
  Property C2. The backend sees only authorized requests. If the plugin forwards a request, its bearer token is
  a JWT signed, with EdDSA or RS256, by the key the cache gives for its kid; its issuer is this resource's
  public base; its audience is, or lists, that base with or without a final slash; it expired at most sixty
  seconds ago, it is valid by now up to the same skew, and it holds every required scope. The forwarded request names the token's subject
  and scopes, whatever the client wrote there, and carries no \<^verbatim>\<open>X-MCPB\<close> header.
\<close>

theorem forwarded_requests_authorized:
  assumes "run_state (ServeHTTP E m r0) w = ((Forward h r, m'), w')" "canonical_header (rq_Header r0)"
  shows "\<exists>t j claims pk c' w1 exp. ReqGet r0 ''Authorization'' = ''Bearer '' @ t \<and> parse_jwt t = Some j \<and>
    unmarshal_map (jt_payload j) = Inr claims \<and> jget_str (jt_header j) ''alg'' \<in> {''EdDSA'', ''RS256''} \<and>
    run_state (cache_Get E (mb_cache m) (jget_str (jt_header j) ''kid'')) w = ((Inr pk, c'), w1) \<and>
    verifyJWTSignature E (jget_str (jt_header j) ''alg'') (pk_key pk) (jt_input j) (jt_sig j) = Inr () \<and>
    jget_str claims ''iss'' = publicBase m (r0\<lparr>rq_Header := strip_headers (rq_Header r0)\<rparr>) \<and>
    (\<exists>a \<in> {jget_str claims ''iss'', jget_str claims ''iss'' @ ''/''}.
       jget claims ''aud'' = Some (JStr a) \<or> (\<exists>xs. jget claims ''aud'' = Some (JArr xs) \<and> JStr a \<in> set xs)) \<and>
    claimInt64 E (jget claims ''exp'') = Some exp \<and> unix_sec (clock E (w_tick w1)) \<le> wrap64 (exp + 60) \<and>
    (\<forall>nbf. claimInt64 E (jget claims ''nbf'') = Some nbf \<longrightarrow> wrap64 (nbf - 60) \<le> unix_sec (clock E (w_tick w1))) \<and>
    set (Fields (cf_RequiredScopes (mb_cfg m))) \<subseteq> set (Fields (jget_str claims ''scope'')) \<and>
    ReqGet r ''X-Mcp-Sub'' = jget_str claims ''sub'' \<and> ReqGet r ''X-Mcp-Scopes'' = jget_str claims ''scope'' \<and>
    (\<forall>k. mcpb_key k \<longrightarrow> ReqGet r k = [])"
proof -
  let ?r = "r0\<lparr>rq_Header := strip_headers (rq_Header r0)\<rparr>"
  from assms(1) have v: "run_state (validateAndForward E m ?r (setCORS ?r)) w = ((Forward h r, m'), w')"
    by (auto simp: ServeHTTP_def Let_def split: if_splits)
  then obtain t where t: "extractBearer ?r = Some t" by (auto simp: validateAndForward_def split: option.splits)
  with v obtain claims c' w1 where
    p: "run_state (ParseAndVerifyJWT E (mb_cache m) t) w = ((Inr claims, c'), w1)" and
    chk: "checkClaims E m claims (publicBase m ?r) (unix_sec (clock E (w_tick w1))) = None" and
    r: "r = ?r\<lparr>rq_Header := hdr_Set (hdr_Set (rq_Header ?r) ''X-Mcp-Sub'' (jget_str claims ''sub'')) ''X-Mcp-Scopes'' (jget_str claims ''scope'')\<rparr>"
    unfolding validateAndForward_def Let_def
    by (auto elim!: run_bindE simp del: run_state_bind split: sum.splits prod.splits option.splits)
  have auth: "ReqGet r0 ''Authorization'' = ''Bearer '' @ t"
    using extractBearer_Some [OF t] strip_keeps [OF not_mcpb(2)] by (simp add: ReqGet_def)
  have names: "CanonicalHeaderKey ''X-Mcp-Sub'' \<noteq> CanonicalHeaderKey ''X-Mcp-Scopes''" by code_simp
  have sub: "ReqGet r ''X-Mcp-Sub'' = jget_str claims ''sub''" "ReqGet r ''X-Mcp-Scopes'' = jget_str claims ''scope''"
    using names by (simp_all add: ReqGet_def r)
  have "ReqGet r k = []" if "mcpb_key k" for k
    using strip_removes [OF assms(2) that] mcpb_key_other [OF that not_mcpb(3)] mcpb_key_other [OF that not_mcpb(4)]
    by (simp add: ReqGet_def r) (simp add: hdr_Get_def)
  with auth sub checkClaims_None [OF chk] ParseAndVerifyJWT_ok [OF p] show ?thesis by metis
qed

section \<open>From the sidecar to the backend\<close>

lemma checkClaims_minted:
  assumes c: "\<And>x. jget c x = map_option jnorm (jget (add_claims (base_claims rc sub scopes cid t0 exp jti) extra) x)"
    and r: "\<bar>unix_sec t0\<bar> \<le> 2 ^ 53" "\<bar>unix_sec exp\<bar> \<le> 2 ^ 53" and t: "unix_sec t0 \<le> now + 60" "now \<le> unix_sec exp + 60"
    and s: "set (Fields (cf_RequiredScopes (mb_cfg m))) \<subseteq> set (Fields scopes)"
  shows "checkClaims E m c (rc_PublicBase rc) now = None"
proof -
  note mc = minted_claims [OF c]
  have big: "(2::int) ^ 53 < 2 ^ 63" by simp
  have i: "in_int64 (unix_sec t0)" "in_int64 (unix_sec exp)" using r big by (auto simp: in_int64_def)
  from f64_to_int64_norm [OF i(1), of E] obtain m1 e1 where e1: "f64_norm (unix_sec t0) 0 = JFloat m1 e1" "f64_to_int64 E m1 e1 = unix_sec t0" by blast
  from f64_to_int64_norm [OF i(2), of E] obtain m2 e2 where e2: "f64_norm (unix_sec exp) 0 = JFloat m2 e2" "f64_to_int64 E m2 e2 = unix_sec exp" by blast
  have "wrap64 (unix_sec exp + 60) = unix_sec exp + 60" "wrap64 (unix_sec t0 - 60) = unix_sec t0 - 60"
    using r by (auto simp: in_int64_def intro!: wrap64_id)
  with t s show ?thesis
    by (auto simp: checkClaims_def checkRequiredScopes_def claimInt64_def jget_str_def mc e1 e2 list_all_iff)
qed

lemma ParseAndVerifyJWT_run:
  assumes "parse_jwt t = Some j" "jget_str (jt_header j) ''alg'' = ''EdDSA''"
    and "map_of (jc_keys c) (jget_str (jt_header j) ''kid'') = Some pk" "time_Sub (clock E (w_tick w)) (jc_lastFetch c) \<le> jc_ttl c"
    and "pk_key pk = EdPublicKey pub" "ed25519_Verify E pub (jt_input j) (jt_sig j)" "unmarshal_map (jt_payload j) = Inr claims"
  shows "run_state (ParseAndVerifyJWT E c t) w = ((Inr claims, c), bump w)"
proof -
  from assms(1) obtain h p s hb where "Split t CHR ''.'' = [h, p, s]" "b64_DecodeString RawURLEncoding h = Inr hb"
    "unmarshal_map hb = Inr (jt_header j)" "b64_DecodeString RawURLEncoding p = Inr (jt_payload j)"
    "b64_DecodeString RawURLEncoding s = Inr (jt_sig j)" "jt_input j = h @ ''.'' @ p"
    by (auto simp: parse_jwt_def split: list.splits sum.splits)
  with assms(2-7) show ?thesis
    by (simp add: ParseAndVerifyJWT_def parseJWTHeader_def parseJWTPayload_def cache_Get_alt Let_def)
qed

lemma bearer_of: "ReqGet r ''Authorization'' = ''Bearer '' @ t \<Longrightarrow> t \<noteq> [] \<Longrightarrow> extractBearer r = Some t"
  unfolding extractBearer_def Let_def by (simp only: HasPrefix_append TrimPrefix_append) simp

lemma minted_forward:
  assumes mint: "run_state (MintAccessToken E i rc sub scopes cid extra) w = (Inr (tok, exp), w1)"
    and key: "\<And>k. k \<in> set (signing_keys (w_db w)) \<Longrightarrow> sk_Status k = ''active'' \<Longrightarrow>
      key_genuine E (sk_PrivatePEM k) (sk_PublicPEM k) \<and> ascii (sk_Kid k) \<and>
      (\<exists>pk pub. map_of (jc_keys (mb_cache m)) (sk_Kid k) = Some pk \<and> decodePublicPEM E (sk_PublicPEM k) = Inr pub \<and> pk_key pk = EdPublicKey pub)"
    and fresh: "time_Sub (clock E (w_tick w2)) (jc_lastFetch (mb_cache m)) \<le> jc_ttl (mb_cache m)"
    and plain: "ascii (rc_PublicBase rc)" "ascii sub" "ascii scopes" "ascii cid" "\<forall>(k, v) \<in> set extra. ascii k \<and> jplain v"
    and range: "\<bar>unix_sec (clock E (Suc (w_tick w)))\<bar> \<le> 2 ^ 53" "\<bar>unix_sec exp\<bar> \<le> 2 ^ 53"
    and time: "unix_sec (clock E (Suc (w_tick w))) \<le> unix_sec (clock E (Suc (w_tick w2))) + 60"
      "unix_sec (clock E (Suc (w_tick w2))) \<le> unix_sec exp + 60"
    and req: "rq_Method r0 \<noteq> ''OPTIONS''" "MatchOAuthSuffix (rq_Path r0) = None" "ReqGet r0 ''Authorization'' = ''Bearer '' @ tok"
      "rc_PublicBase rc = publicBase m (r0\<lparr>rq_Header := strip_headers (rq_Header r0)\<rparr>)"
    and scopes: "set (Fields (cf_RequiredScopes (mb_cfg m))) \<subseteq> set (Fields scopes)"
  shows "\<exists>h r m' w'. run_state (ServeHTTP E m r0) w2 = ((Forward h r, m'), w') \<and>
    ReqGet r ''X-Mcp-Sub'' = sub \<and> ReqGet r ''X-Mcp-Scopes'' = scopes \<and> mb_cache m' = mb_cache m"
proof -
  from MintAccessToken_ok [OF mint] obtain k priv jti where
    k: "k \<in> set (signing_keys (w_db w))" "sk_Status k = ''active''" "decodePrivatePEM E (sk_PrivatePEM k) = Inr priv" and
    exp: "exp = clock E (Suc (w_tick w)) + is_accessTTL i" and
    tok: "tok = minted E i rc sub scopes cid extra k priv (clock E (Suc (w_tick w))) (hex_EncodeToString jti)" by blast
  let ?now = "clock E (Suc (w_tick w))" and ?r = "r0\<lparr>rq_Header := strip_headers (rq_Header r0)\<rparr>"
  let ?claims = "add_claims (base_claims rc sub scopes cid ?now exp (hex_EncodeToString jti)) extra"
  from key [OF k(1,2)] k(3) obtain pub pk where g: "\<forall>x. ed25519_Verify E pub x (ed25519_Sign E priv x)" "ascii (sk_Kid k)"
    "map_of (jc_keys (mb_cache m)) (sk_Kid k) = Some pk" "pk_key pk = EdPublicKey pub"
    by (auto simp: key_genuine_def)
  have pl: "jplain (JObj (add_claims (base_claims rc sub scopes cid ?now (?now + is_accessTTL i) (hex_EncodeToString jti)) extra))"
    using plain range exp by (intro claims_plain) (auto simp: ascii_hex)
  from parse_minted [OF g(2) pl, of E priv] obtain j c where
    j: "parse_jwt tok = Some j" "jget_str (jt_header j) ''kid'' = sk_Kid k" "jget_str (jt_header j) ''alg'' = ''EdDSA''"
    "jt_sig j = ed25519_Sign E priv (jt_input j)" "unmarshal_map (jt_payload j) = Inr c" and
    c: "\<And>x. jget c x = map_option jnorm (jget ?claims x)"
    unfolding tok exp by auto
  have p: "run_state (ParseAndVerifyJWT E (mb_cache m) tok) w2 = ((Inr c, mb_cache m), bump w2)"
    using j g fresh by (intro ParseAndVerifyJWT_run [where pk = pk and pub = pub]) simp_all
  have chk: "checkClaims E m c (publicBase m ?r) (unix_sec (clock E (Suc (w_tick w2)))) = None"
    unfolding req(4) [symmetric] by (rule checkClaims_minted [OF c range time scopes])
  have "tok \<noteq> []" using j(1) by (auto simp: parse_jwt_def Split_def)
  moreover have "ReqGet ?r ''Authorization'' = ''Bearer '' @ tok"
    using req(3) strip_keeps [OF not_mcpb(2)] by (simp add: ReqGet_def)
  ultimately have b: "extractBearer ?r = Some tok" by (intro bearer_of)
  have cl: "jget_str c ''sub'' = sub" "jget_str c ''scope'' = scopes" using minted_claims [OF c] by (simp_all add: jget_str_def)
  have names: "CanonicalHeaderKey ''X-Mcp-Sub'' \<noteq> CanonicalHeaderKey ''X-Mcp-Scopes''" by code_simp
  have "run_state (ServeHTTP E m r0) w2 = ((Forward (setCORS ?r) (?r\<lparr>rq_Header := hdr_Set (hdr_Set (rq_Header ?r) ''X-Mcp-Sub'' sub)
      ''X-Mcp-Scopes'' scopes\<rparr>), m), bump (bump w2))"
    using req(1,2) by (simp add: ServeHTTP_def validateAndForward_def b p chk cl Let_def)
  then show ?thesis using names by (simp add: ReqGet_def)
qed

text \<open>
  Property C5. What the sidecar mints, the plugin lets through. A token minted for a resource whose public base is
  that of the request, with an active key whose public half the plugin has in a cache that is not stale, is forwarded
  to the backend with the subject and scopes it was minted for, from sixty seconds before its issue
  to sixty seconds after its expiry, if those scopes include the required ones. The values of the claims are ASCII and the key is a genuine pair.
\<close>

theorem minted_token_forwarded:
  assumes "run_state (MintAccessToken E i rc sub scopes cid extra) w = (Inr (tok, exp), w1)"
    and "\<And>k. k \<in> set (signing_keys (w_db w)) \<Longrightarrow> sk_Status k = ''active'' \<Longrightarrow>
      key_genuine E (sk_PrivatePEM k) (sk_PublicPEM k) \<and> ascii (sk_Kid k) \<and>
      (\<exists>pk pub. map_of (jc_keys (mb_cache m)) (sk_Kid k) = Some pk \<and> decodePublicPEM E (sk_PublicPEM k) = Inr pub \<and> pk_key pk = EdPublicKey pub)"
    and "time_Sub (clock E (w_tick w2)) (jc_lastFetch (mb_cache m)) \<le> jc_ttl (mb_cache m)"
    and "ascii (rc_PublicBase rc)" "ascii sub" "ascii scopes" "ascii cid" "\<forall>(k, v) \<in> set extra. ascii k \<and> jplain v"
    and "\<bar>unix_sec (clock E (Suc (w_tick w)))\<bar> \<le> 2 ^ 53" "\<bar>unix_sec exp\<bar> \<le> 2 ^ 53"
    and "unix_sec (clock E (Suc (w_tick w))) \<le> unix_sec (clock E (Suc (w_tick w2))) + 60"
      "unix_sec (clock E (Suc (w_tick w2))) \<le> unix_sec exp + 60"
    and "rq_Method r0 \<noteq> ''OPTIONS''" "MatchOAuthSuffix (rq_Path r0) = None" "ReqGet r0 ''Authorization'' = ''Bearer '' @ tok"
      "rc_PublicBase rc = publicBase m (r0\<lparr>rq_Header := strip_headers (rq_Header r0)\<rparr>)"
    and "set (Fields (cf_RequiredScopes (mb_cfg m))) \<subseteq> set (Fields scopes)"
  shows "\<exists>h r m' w'. run_state (ServeHTTP E m r0) w2 = ((Forward h r, m'), w') \<and>
    ReqGet r ''X-Mcp-Sub'' = sub \<and> ReqGet r ''X-Mcp-Scopes'' = scopes \<and> mb_cache m' = mb_cache m"
  using assms by (rule minted_forward)

text \<open>
  Property C40. Three advertised endpoints cannot be reached through the plugin: the metadata documents name the
  revocation, introspection and userinfo endpoints under the public base, but the plugin does not
  recognise their paths, under any prefix, and treats such a request as one for the backend.
\<close>

theorem advertised_endpoints_not_routed:
  "list_all (\<lambda>(field, path). map_of (server_metadata rc) field = Some (JStr (rc_PublicBase rc @ path)) \<and> MatchOAuthSuffix (prefix @ path) = None)
     [(''revocation_endpoint'', ''/oauth/revoke''), (''introspection_endpoint'', ''/oauth/introspect''), (''userinfo_endpoint'', ''/oauth/userinfo'')]"
proof -
  have last2: "HasSuffix p s \<Longrightarrow> 2 \<le> length s \<Longrightarrow> drop (length p - 2) p = drop (length s - 2) s" for p s
    by (auto simp: HasSuffix_iff)
  have none: "match_suffix p ss = None" if "\<forall>s \<in> set ss. 2 \<le> length s \<and> drop (length s - 2) s \<noteq> drop (length p - 2) p" for p ss
    using that by (induction ss) (auto dest: last2)
  have "MatchOAuthSuffix (prefix @ path) = None" if "path \<in> {''/oauth/revoke'', ''/oauth/introspect'', ''/oauth/userinfo''}" for path
    using that unfolding MatchOAuthSuffix_def oauthSuffixes_def by (intro none) auto
  then show ?thesis by (simp add: server_metadata_def)
qed

definition sample_forward_req :: "string \<Rightarrow> request" where
  "sample_forward_req t = (form_request [])\<lparr>rq_Path := ''/mcp'', rq_Header := [(''Authorization'', [''Bearer '' @ t]), (''X-Mcp-Sub'', [''root''])]\<rparr>"

definition sample_wiki_rc :: ResourceConfig where
  "sample_wiki_rc = sample_rc\<lparr>rc_PublicBase := ''https://h/wiki''\<rparr>"

lemma sample_wiki_mint:
  "\<exists>tok w1. run_state (MintAccessToken sample_env \<lparr>is_accessTTL = hour, is_refreshTTL = hour\<rparr> sample_wiki_rc ''alice'' ''openid'' ''c1'' []) sample_key_world =
     (Inr (tok, time_Unix 1700003601), w1)"
  by (simp add: MintAccessToken_def ActiveKey_def store_run sample_key_world_def sample_sk_def decodePrivatePEM_def Let_def sample_world_def)
    (simp add: sample_env_def time_Unix_def hour_def second_def)

lemma sample_forward_facts:
  "time_Sub (clock sample_env (w_tick sample_key_world)) (jc_lastFetch (mb_cache sample_plugin)) \<le> jc_ttl (mb_cache sample_plugin)"
  "MatchOAuthSuffix (rq_Path (sample_forward_req t)) = None" "rq_Method (sample_forward_req t) \<noteq> ''OPTIONS''"
  "ReqGet (sample_forward_req t) ''Authorization'' = ''Bearer '' @ t"
  "set (Fields (cf_RequiredScopes (mb_cfg sample_plugin))) \<subseteq> set (Fields ''openid'')"
  "canonical_header (rq_Header (sample_forward_req t))"
proof -
  show "MatchOAuthSuffix (rq_Path (sample_forward_req t)) = None"
    by (simp add: sample_forward_req_def form_request_def) code_simp
  have "CanonicalHeaderKey ''X-Mcp-Sub'' = ''X-Mcp-Sub''" by code_simp
  then show "canonical_header (rq_Header (sample_forward_req t))"
    by (simp add: canonical_header_def sample_forward_req_def canon_Authorization)
qed (simp_all add: sample_key_world_def sample_world_def sample_plugin_def sample_cache_def time_Sub_def max_int64_def second_def
    sample_forward_req_def form_request_def ReqGet_def hdr_Get_def hdr_values_def canon_Authorization)

lemma sample_forward_base:
  "publicBase sample_plugin ((sample_forward_req t)\<lparr>rq_Header := strip_headers (rq_Header (sample_forward_req t))\<rparr>) = ''https://h/wiki''"
proof -
  have p: "ReqGet ((sample_forward_req t)\<lparr>rq_Header := strip_headers (rq_Header (sample_forward_req t))\<rparr>) ''X-Forwarded-Proto'' = []"
    "ReqGet ((sample_forward_req t)\<lparr>rq_Header := strip_headers (rq_Header (sample_forward_req t))\<rparr>) ''X-Forwarded-Host'' = []"
  proof -
    have "CanonicalHeaderKey ''X-Forwarded-Proto'' = ''X-Forwarded-Proto''" "CanonicalHeaderKey ''X-Forwarded-Host'' = ''X-Forwarded-Host''" by code_simp+
    then show "ReqGet ((sample_forward_req t)\<lparr>rq_Header := strip_headers (rq_Header (sample_forward_req t))\<rparr>) ''X-Forwarded-Proto'' = []"
      "ReqGet ((sample_forward_req t)\<lparr>rq_Header := strip_headers (rq_Header (sample_forward_req t))\<rparr>) ''X-Forwarded-Host'' = []"
      using strip_keeps [OF not_mcpb(5)] strip_keeps [OF not_mcpb(6)]
      by (simp_all add: ReqGet_def) (simp_all add: sample_forward_req_def hdr_Get_def hdr_values_def)
  qed
  have "TrimRight ''/wiki'' ''/'' = ''/wiki''" by code_simp
  then show ?thesis
    unfolding publicBase_def p by (simp add: sample_plugin_def) (simp add: sample_forward_req_def form_request_def)
qed

lemma sample_key_cached:
  assumes "k \<in> set (signing_keys (w_db sample_key_world))"
  shows "key_genuine sample_env (sk_PrivatePEM k) (sk_PublicPEM k) \<and> ascii (sk_Kid k) \<and>
    (\<exists>pk pub. map_of (jc_keys (mb_cache sample_plugin)) (sk_Kid k) = Some pk \<and> decodePublicPEM sample_env (sk_PublicPEM k) = Inr pub \<and>
      pk_key pk = EdPublicKey pub)"
proof -
  have "decodePublicPEM sample_env sample_key = Inr sample_key" by (simp add: decodePublicPEM_def sample_env_def)
  moreover have "k = sample_sk ''key1'' 0 ''active''" using assms by (simp add: sample_key_world_def)
  ultimately show ?thesis by (simp add: sample_sk_def sample_genuine ascii_def sample_plugin_def sample_cache_def)
qed

lemma sample_forward_premises:
  "w_tick sample_key_world = 0" "ascii ''https://h/wiki''" "rc_PublicBase sample_wiki_rc = ''https://h/wiki''"
  "ascii ''alice''" "ascii ''openid''" "ascii ''c1''"
  by (simp_all add: sample_key_world_def sample_world_def sample_wiki_rc_def ascii_def)

theorem minted_token_forwarded_witness:
  "\<exists>tok exp w1 h r m' w'. run_state (MintAccessToken sample_env \<lparr>is_accessTTL = hour, is_refreshTTL = hour\<rparr> sample_wiki_rc ''alice'' ''openid'' ''c1'' [])
       sample_key_world = (Inr (tok, exp), w1) \<and>
     run_state (ServeHTTP sample_env sample_plugin (sample_forward_req tok)) sample_key_world = ((Forward h r, m'), w') \<and> ReqGet r ''X-Mcp-Sub'' = ''alice''"
proof -
  from sample_wiki_mint obtain tok w1 where
    t: "run_state (MintAccessToken sample_env \<lparr>is_accessTTL = hour, is_refreshTTL = hour\<rparr> sample_wiki_rc ''alice'' ''openid'' ''c1'' []) sample_key_world =
     (Inr (tok, time_Unix 1700003601), w1)" by blast
  have "\<exists>h r m' w'. run_state (ServeHTTP sample_env sample_plugin (sample_forward_req tok)) sample_key_world = ((Forward h r, m'), w') \<and>
    ReqGet r ''X-Mcp-Sub'' = ''alice'' \<and> ReqGet r ''X-Mcp-Scopes'' = ''openid'' \<and> mb_cache m' = mb_cache sample_plugin"
    by (rule minted_token_forwarded [OF t sample_key_cached sample_forward_facts(1)])
      (simp_all add: sample_forward_premises sample_forward_facts sample_forward_base)
  with t show ?thesis by blast
qed

theorem forwarded_requests_authorized_witness:
  "\<exists>tok h r m' w' claims. run_state (ServeHTTP sample_env sample_plugin (sample_forward_req tok)) sample_key_world = ((Forward h r, m'), w') \<and>
     jget_str claims ''iss'' = ''https://h/wiki'' \<and> ReqGet r ''X-Mcp-Sub'' = jget_str claims ''sub''"
proof -
  from sample_wiki_mint obtain tok w1 where
    t: "run_state (MintAccessToken sample_env \<lparr>is_accessTTL = hour, is_refreshTTL = hour\<rparr> sample_wiki_rc ''alice'' ''openid'' ''c1'' []) sample_key_world =
     (Inr (tok, time_Unix 1700003601), w1)" by blast
  have "\<exists>h r m' w'. run_state (ServeHTTP sample_env sample_plugin (sample_forward_req tok)) sample_key_world = ((Forward h r, m'), w') \<and>
    ReqGet r ''X-Mcp-Sub'' = ''alice'' \<and> ReqGet r ''X-Mcp-Scopes'' = ''openid'' \<and> mb_cache m' = mb_cache sample_plugin"
    by (rule minted_forward [OF t sample_key_cached sample_forward_facts(1)])
      (simp_all add: sample_forward_premises sample_forward_facts sample_forward_base)
  then obtain h r m' w' where f: "run_state (ServeHTTP sample_env sample_plugin (sample_forward_req tok)) sample_key_world = ((Forward h r, m'), w')" by blast
  from forwarded_requests_authorized [OF f sample_forward_facts(6)] obtain claims where
    "jget_str claims ''iss'' = ''https://h/wiki''" "ReqGet r ''X-Mcp-Sub'' = jget_str claims ''sub''"
    unfolding sample_forward_base by blast
  with f show ?thesis by blast
qed

end
