(* ===== verification/Spec2Isabelle.thy ===== *)
theory Spec2Isabelle
  imports System Plugin
begin

text \<open>
  \<^bold>\<open>MCPBouncer.\<close> MCPBouncer puts an OAuth 2.1 authorization server in front of MCP servers. It has two processes.
  The \<^emph>\<open>plugin\<close> (\<^verbatim>\<open>src/plugin\<close>) is a Traefik middleware: it proxies OAuth requests to the sidecar, with the operator's
  resource configuration in \<^verbatim>\<open>X-MCPB-*\<close> headers, and forwards other requests to the backend only with a
  valid access token. The \<^emph>\<open>sidecar\<close> (\<^verbatim>\<open>src/sidecar\<close>) registers clients, sends browsers to the upstream
  provider, turns the provider's answer into a local code, redeems codes and refresh tokens for
  access tokens signed with its own rotating Ed25519 keys, and publishes those keys, which the plugin
  fetches. Its state is a SQLite database, a provider cache, a rate limiter and an audit channel.

  \<^bold>\<open>How the code is modelled.\<close> Handlers are programs of the state monad over \<open>world\<close> (theory \<open>World\<close>): a counter of
  effects, the eight tables, the provider cache. What the program does not control is the record
  \<open>env\<close>: the clock, the random source, the failures of SQL statements and the answers of other servers,
  each a function of the counter, so that every call may answer differently, and the primitives of
  Go's library (AES-GCM, Ed25519, RSA, PEM, X.509, URL parsing). Their documented behaviour is stated
  in named hypotheses (\<open>gcm_ok\<close>, \<open>ed25519_ok\<close>, \<open>pem_ok\<close>, \<open>rng_ok\<close>, \<open>clock_mono\<close>, \<open>no_faults\<close>) only where a property
  needs them; \<open>Sample\<close> has an environment that satisfies them all. Errors are values of \<open>goerr + 'a\<close>. A
  time is an integer number of nanoseconds, a duration an int64 with wrap-around (\<open>wrap64\<close>), a string a
  list of bytes. All definitions are executable.

  \<^bold>\<open>Theories, in the order of their imports.\<close>
  \<^item> \<open>Prelude\<close>: Go errors, a Hoare logic for the state monad with its rule collection, association lists as Go
    maps, the locale \<open>codec\<close>.
  \<^item> \<open>Go_Strings\<close>, \<open>Go_Encoding\<close>, \<open>Go_Sha256\<close>, \<open>Go_Json\<close>, \<open>Go_Indent\<close>, \<open>Go_Http\<close>, \<open>Go_Net\<close>: what the sources use of Go's standard library: strings and
    canonical header names, hex and base64 (instances of \<open>codec\<close>), SHA-256 over words, a JSON printer
    and parser with their round trip, the indented form that the sidecar writes, requests and responses, host splitting, the float64 seconds of a duration, \<^verbatim>\<open>Atoi\<close>, \<^verbatim>\<open>ParseDuration\<close> and path
    cleaning.
  \<^item> \<open>World\<close>, \<open>Store\<close>, \<open>Sample\<close>: the tables (\<^verbatim>\<open>store/sqlite.go\<close>), every statement of \<^verbatim>\<open>store/repos.go\<close> as one atomic step, the
    janitor (\<^verbatim>\<open>store/janitor.go\<close>) as a whole and as a list of statements, and the locales \<open>row_table\<close> and \<open>ticket_table\<close>, which state what insert, lookup
    and delete promise and are interpreted on the client, session, code and refresh-token tables.
  \<^item> \<open>Cipher\<close> (\<^verbatim>\<open>crypto/aesgcm.go\<close>): key loading, the versioned and the legacy ciphertext format. Decryption inverts
    encryption, also across restarts in which keys are added and retired.
  \<^item> \<open>Keys\<close> (\<^verbatim>\<open>keys/rotator.go\<close>, \<^verbatim>\<open>keys/jwks.go\<close>): the signing-key state machine next, active, retiring, deleted; its
    invariant, the rotator as one function and as single database steps that compose to it, and that a key is published as long as tokens it may have signed live.
  \<^item> \<open>Config\<close> (\<^verbatim>\<open>config/context.go\<close>), \<open>Oidc\<close> (\<^verbatim>\<open>oidc/upstream.go\<close>), \<open>Tokens\<close> (\<^verbatim>\<open>tokens/issuer.go\<close>): resource configurations, the upstream client,
    and the minting of access and refresh tokens; the locale \<open>jwt_verifier\<close> states what verifiers promise.
  \<^item> \<open>As_Common\<close>, \<open>As_Authorize\<close>, \<open>As_Callback\<close>, \<open>As_Token\<close>, \<open>As_Inspect\<close> (\<^verbatim>\<open>internal/as\<close>): one definition per handler, with every early
    return: registration, authorization, callback, both grants, revocation (with a refinement of its
    specification), introspection, userinfo, metadata and the key set.
  \<^item> \<open>Ratelimit\<close> (\<^verbatim>\<open>httpx/ratelimit.go\<close>), \<open>Audit_Log\<close> (\<^verbatim>\<open>audit/audit.go\<close>): the limiter under any interleaving of requests and
    sweeps, equivalent to one that never forgets a bucket; the audit channel and its worker as a step
    relation.
  \<^item> \<open>Server\<close> (\<^verbatim>\<open>cmd/bouncer/main.go\<close>, \<^verbatim>\<open>internal/logx\<close>): settings, start, multiplexer and wrappers.
  \<^item> \<open>Lineage\<close>: the contract between tables and handlers. The locale \<open>lineage\<close> says which rows a request may add; its
    result, that serving a request keeps the contract, is proved once over all handlers and used with
    two interpretations.
  \<^item> \<open>System\<close>: the relation \<open>reach\<close> of all runs of the sidecar, up or down: starts, crashes, requests, and between the requests the
    janitor one clean-up, the rotator one statement and the audit worker one turn at a time. In every reachable state the tables are well-formed;
    without faults exactly one key can sign, except between the two updates of a promotion; a redirect of the callback goes to a URI that a client registered
    and that passed validation; and a token response goes back through the history to
    a registration, an authorization request with the same redirect URI and challenge, and a return
    from the provider. A complete grant from an empty database is run through the model.
  \<^item> \<open>Plugin_Jwt\<close> (\<^verbatim>\<open>jwks_cache.go\<close>, \<^verbatim>\<open>jwt_verify.go\<close>), \<open>Plugin\<close> (\<^verbatim>\<open>routing.go\<close>, \<^verbatim>\<open>mcpbouncer.go\<close>): the key cache with its fetches, the verifier (an instance of
    \<open>jwt_verifier\<close>), and the middleware with the header handling of Go's reverse proxy. The properties join the two
    processes: the key set survives the trip, what the sidecar mints the plugin forwards, what the
    plugin forwards was authorized, and what the sidecar reads as configuration is the operator's. The plugin's own
    \<^verbatim>\<open>audContains\<close> is the same function as the sidecar's and shares its definition.

  \<^bold>\<open>Bounds and fuel.\<close> The JSON parser takes fuel of twice the length of its input plus two; every call spends one unit and at least
    one byte per two calls, and the round trip shows that it is enough for every printed value; SHA-256 and the other loops are structural or have termination proofs.
    A wait in seconds is rounded up from a float64 as in the code; this is shown exact below \<open>2 ^ 24\<close> seconds (\<open>ceil_seconds_exact\<close>), a bound that the property on the
    \<^verbatim>\<open>Retry-After\<close> header has as a hypothesis. Read limits of the code (64 KiB of a registration, 1 MiB of upstream bodies) are in the definitions.

  \<^bold>\<open>Not modelled, and why.\<close> The Prometheus package only declares collectors of a library, and no code path updates them. Of
    the process, listening, timeouts, signals and shutdown, the hints printed on standard error, and
    \<^verbatim>\<open>slog\<close> and trace output are left out: they are I/O without effect on the modelled state. The SQL text and the
    column migration of old databases are below the level of statements. Requests are served one at
    a time in \<open>reach\<close>, each as one step, with steps of the goroutines only between them. A request whose audit event meets a closed channel panics and gets no answer (\<open>aborted\<close>). Interleaving inside a request is treated where it matters, for the lookup and
    deletion of a code. \<^verbatim>\<open>Fields\<close>, \<^verbatim>\<open>TrimSpace\<close> and \<^verbatim>\<open>ToLower\<close> are those of ASCII text. Cancellation of contexts appears as a failing statement or upstream call. Of
    \<^verbatim>\<open>ReverseProxy\<close> only the request headers are modelled, without \<^verbatim>\<open>Te\<close>, \<^verbatim>\<open>Upgrade\<close> and \<^verbatim>\<open>User-Agent\<close>.
\<close>

end
